theory Spec2Isabelle
  imports Main "HOL-Library.Multiset"
begin

section \<open>Types carried by the syntax tree\<close>

text \<open>
  Modelled from the spec: the \<open>SizedType\<close> that every node of the type-checked tree
  carries (types.h is not among the sources). Only what the lowering inspects is kept:
  the kind, the byte size and the signedness.
\<close>

datatype Type =
  IntTy | PtrTy | StringTy | BufferTy | RecordTy | TupleTy | ArrayTy | UserSymTy | NoneTy

record SizedType =
  kind :: Type
  size_bytes :: nat
  is_signed :: bool

definition IsSigned :: "SizedType \<Rightarrow> bool" where
  "IsSigned t = is_signed t"

definition IsIntTy :: "SizedType \<Rightarrow> bool" where
  "IsIntTy t = (kind t = IntTy)"

definition IsStringTy :: "SizedType \<Rightarrow> bool" where
  "IsStringTy t = (kind t = StringTy)"

definition IsBufferTy :: "SizedType \<Rightarrow> bool" where
  "IsBufferTy t = (kind t = BufferTy)"

definition CreateUInt64 :: SizedType where
  "CreateUInt64 = \<lparr>kind = IntTy, size_bytes = 8, is_signed = False\<rparr>"

definition CreateInt64 :: SizedType where
  "CreateInt64 = \<lparr>kind = IntTy, size_bytes = 8, is_signed = True\<rparr>"

section \<open>The intermediate representation\<close>

text \<open>
  The generator drives an IR builder (\<open>b_\<close>) whose implementation is not among the
  sources. Each builder call of the source is recorded as one instruction of the block
  the insertion point stands in, with the operands the source passes. Registers are
  numbered in the order the builder creates them; basic blocks are numbered in the order
  \<open>BasicBlock::Create\<close> is called. The constant folding that the underlying library
  applies to constant operands does not change what the code computes and is not
  modelled.
\<close>

type_synonym label = nat

datatype ir_type =
    Int_t nat
  | Struct_t string "ir_type list" bool
  | Sized_t SizedType
  | Bytes_t nat

datatype val =
    ConstInt nat int
  | IntSameSize int val
  | IntOfType int ir_type
  | NullValue val
  | Reg nat
  | Arg nat

datatype icmp =
  ICMP_EQ | ICMP_NE | ICMP_SLT | ICMP_SLE | ICMP_SGT | ICMP_SGE |
  ICMP_ULT | ICMP_ULE | ICMP_UGT | ICMP_UGE

datatype arith =
  BAdd | BSub | BMul | BUDiv | BURem | BShl | BLShr | BAnd | BOr | BXor

datatype instr =
    AllocaBPF nat ir_type string
  | AllocaBPFInit nat ir_type string
  | LifetimeEnd val
  | Store val val
  | Load nat val
  | ICmp nat icmp val val
  | Arith nat arith val val
  | IntCast nat val nat bool
  | GEP nat val "nat list"
  | Memcpy val val nat
  | MapLookupElem nat string val
  | MapUpdateElem string val val
  | PerfEventOutput val val nat
  | CondBr val label label
  | Br label
  | Ret val

datatype linkage = ExternalLinkage | InternalLinkage

record ir_function =
  fname :: string
  flinkage :: linkage
  fsection :: string
  always_inline :: bool

text \<open>
  An attach point of a probe: provider, target, namespace and function, as the parser
  leaves them.
\<close>

record AttachPoint =
  provider :: string
  target :: string
  ns :: string
  ap_func :: string

section \<open>The state of the generator\<close>

text \<open>
  The fields of \<open>CodegenLLVM\<close> that the lowering reads or writes. The module and the
  builder are flattened into the record: \<open>funcs\<close> are the functions of the module in
  creation order, \<open>blocks\<close> maps a block to its instructions, \<open>block_parent\<close> to the
  function it was created in, \<open>insert_block\<close> is the builder's insertion point (always
  the end of that block), and \<open>helper_error_id\<close> is the builder's counter. The fields
  are named as in the source, without the trailing underscore. A null \<open>expr\<close> is
  \<open>None\<close>; \<open>variables\<close> maps a name to its slot, which is null where the source's
  \<open>variables_[ident]\<close> inserted a default entry.
\<close>

record CodegenLLVM =
  funcs :: "ir_function list"
  blocks :: "label \<Rightarrow> instr list"
  block_name :: "label \<Rightarrow> string"
  block_parent :: "label \<Rightarrow> nat"
  next_block :: label
  next_reg :: nat
  insert_block :: label
  helper_error_id :: int
  expr :: "val option"
  ctx :: val
  variables :: "string \<rightharpoonup> val option"
  printf_id :: int
  cat_id :: int
  system_id :: int
  time_id :: int
  strftime_id :: int
  join_id :: int
  non_map_print_id :: int
  next_probe_index :: "string \<rightharpoonup> int"
  probefull :: string
  tracepoint_struct :: string
  current_usdt_location_index :: int
  current_attach_point :: "AttachPoint option"

subsection \<open>Builder calls\<close>

definition emit :: "instr \<Rightarrow> CodegenLLVM \<Rightarrow> CodegenLLVM" where
  "emit i s = s\<lparr>blocks := (blocks s)(insert_block s := blocks s (insert_block s) @ [i])\<rparr>"

text \<open>
  A builder call that yields a value defines the next free register, and a created block
  or function gets the next free number. The lowering names that register, block or
  function (\<open>new_reg\<close>, \<open>new_block\<close>, \<open>new_func\<close>) just before the call that creates it.
\<close>

definition new_reg :: "CodegenLLVM \<Rightarrow> val" where
  "new_reg s = Reg (next_reg s)"

definition new_block :: "CodegenLLVM \<Rightarrow> label" where
  "new_block s = next_block s"

definition new_func :: "CodegenLLVM \<Rightarrow> nat" where
  "new_func s = length (funcs s)"

definition emit_def_reg :: "(nat \<Rightarrow> instr) \<Rightarrow> CodegenLLVM \<Rightarrow> CodegenLLVM" where
  "emit_def_reg mk s = emit (mk (next_reg s)) (s\<lparr>next_reg := next_reg s + 1\<rparr>)"

definition getInt64 :: "int \<Rightarrow> val" where
  "getInt64 n = ConstInt 64 n"

definition GetIntSameSize :: "int \<Rightarrow> val \<Rightarrow> val" where
  "GetIntSameSize n v = IntSameSize n v"

definition Function_Create :: "linkage \<Rightarrow> string \<Rightarrow> CodegenLLVM \<Rightarrow> CodegenLLVM" where
  "Function_Create l name s =
     s\<lparr>funcs := funcs s @ [\<lparr>fname = name, flinkage = l, fsection = '''', always_inline = False\<rparr>]\<rparr>"

definition setSection :: "nat \<Rightarrow> string \<Rightarrow> CodegenLLVM \<Rightarrow> CodegenLLVM" where
  "setSection f sec s = s\<lparr>funcs := (funcs s)[f := (funcs s ! f)\<lparr>fsection := sec\<rparr>]\<rparr>"

definition addFnAttr_AlwaysInline :: "nat \<Rightarrow> CodegenLLVM \<Rightarrow> CodegenLLVM" where
  "addFnAttr_AlwaysInline f s = s\<lparr>funcs := (funcs s)[f := (funcs s ! f)\<lparr>always_inline := True\<rparr>]\<rparr>"

definition BasicBlock_Create :: "string \<Rightarrow> nat \<Rightarrow> CodegenLLVM \<Rightarrow> CodegenLLVM" where
  "BasicBlock_Create name parent s =
     s\<lparr>blocks := (blocks s)(next_block s := []),
       block_name := (block_name s)(next_block s := name),
       block_parent := (block_parent s)(next_block s := parent),
       next_block := next_block s + 1\<rparr>"

definition GetInsertBlock_getParent :: "CodegenLLVM \<Rightarrow> nat" where
  "GetInsertBlock_getParent s = block_parent s (insert_block s)"

definition SetInsertPoint :: "label \<Rightarrow> CodegenLLVM \<Rightarrow> CodegenLLVM" where
  "SetInsertPoint b s = s\<lparr>insert_block := b\<rparr>"

definition saveIP :: "CodegenLLVM \<Rightarrow> label" where
  "saveIP s = insert_block s"

definition restoreIP :: "label \<Rightarrow> CodegenLLVM \<Rightarrow> CodegenLLVM" where
  "restoreIP ip s = s\<lparr>insert_block := ip\<rparr>"

definition CreateAllocaBPF :: "ir_type \<Rightarrow> string \<Rightarrow> CodegenLLVM \<Rightarrow> CodegenLLVM" where
  "CreateAllocaBPF ty name s = emit_def_reg (\<lambda>r. AllocaBPF r ty name) s"

definition CreateAllocaBPFInit :: "SizedType \<Rightarrow> string \<Rightarrow> CodegenLLVM \<Rightarrow> CodegenLLVM" where
  "CreateAllocaBPFInit ty name s = emit_def_reg (\<lambda>r. AllocaBPFInit r (Sized_t ty) name) s"

definition CreateLifetimeEnd :: "val \<Rightarrow> CodegenLLVM \<Rightarrow> CodegenLLVM" where
  "CreateLifetimeEnd v s = emit (LifetimeEnd v) s"

definition CreateStore :: "val \<Rightarrow> val \<Rightarrow> CodegenLLVM \<Rightarrow> CodegenLLVM" where
  "CreateStore v p s = emit (Store v p) s"

definition CreateLoad :: "val \<Rightarrow> CodegenLLVM \<Rightarrow> CodegenLLVM" where
  "CreateLoad p s = emit_def_reg (\<lambda>r. Load r p) s"

definition CreateICmp :: "icmp \<Rightarrow> val \<Rightarrow> val \<Rightarrow> CodegenLLVM \<Rightarrow> CodegenLLVM" where
  "CreateICmp c a b s = emit_def_reg (\<lambda>r. ICmp r c a b) s"

definition CreateArith :: "arith \<Rightarrow> val \<Rightarrow> val \<Rightarrow> CodegenLLVM \<Rightarrow> CodegenLLVM" where
  "CreateArith opn a b s = emit_def_reg (\<lambda>r. Arith r opn a b) s"

definition CreateIntCast :: "val \<Rightarrow> nat \<Rightarrow> bool \<Rightarrow> CodegenLLVM \<Rightarrow> CodegenLLVM" where
  "CreateIntCast v bits sg s = emit_def_reg (\<lambda>r. IntCast r v bits sg) s"

definition CreateGEP :: "val \<Rightarrow> nat list \<Rightarrow> CodegenLLVM \<Rightarrow> CodegenLLVM" where
  "CreateGEP p idx s = emit_def_reg (\<lambda>r. GEP r p idx) s"

definition CREATE_MEMCPY :: "val \<Rightarrow> val \<Rightarrow> nat \<Rightarrow> CodegenLLVM \<Rightarrow> CodegenLLVM" where
  "CREATE_MEMCPY dst src n s = emit (Memcpy dst src n) s"

definition CreateMapLookupElem :: "string \<Rightarrow> val \<Rightarrow> CodegenLLVM \<Rightarrow> CodegenLLVM" where
  "CreateMapLookupElem m key s = emit_def_reg (\<lambda>r. MapLookupElem r m key) s"

definition CreateMapUpdateElem :: "string \<Rightarrow> val \<Rightarrow> val \<Rightarrow> CodegenLLVM \<Rightarrow> CodegenLLVM" where
  "CreateMapUpdateElem m key v s = emit (MapUpdateElem m key v) s"

definition CreatePerfEventOutput :: "val \<Rightarrow> val \<Rightarrow> nat \<Rightarrow> CodegenLLVM \<Rightarrow> CodegenLLVM" where
  "CreatePerfEventOutput c buf n s = emit (PerfEventOutput c buf n) s"

definition CreateCondBr :: "val \<Rightarrow> label \<Rightarrow> label \<Rightarrow> CodegenLLVM \<Rightarrow> CodegenLLVM" where
  "CreateCondBr c t f s = emit (CondBr c t f) s"

definition CreateBr :: "label \<Rightarrow> CodegenLLVM \<Rightarrow> CodegenLLVM" where
  "CreateBr l s = emit (Br l) s"

definition CreateRet :: "val \<Rightarrow> CodegenLLVM \<Rightarrow> CodegenLLVM" where
  "CreateRet v s = emit (Ret v) s"

lemmas builder_defs =
  new_reg_def new_block_def new_func_def emit_def emit_def_reg_def getInt64_def GetIntSameSize_def Function_Create_def
  setSection_def addFnAttr_AlwaysInline_def BasicBlock_Create_def
  GetInsertBlock_getParent_def SetInsertPoint_def saveIP_def restoreIP_def
  CreateAllocaBPF_def CreateAllocaBPFInit_def CreateLifetimeEnd_def CreateStore_def
  CreateLoad_def CreateICmp_def CreateArith_def CreateIntCast_def CreateGEP_def
  CREATE_MEMCPY_def CreateMapLookupElem_def CreateMapUpdateElem_def
  CreatePerfEventOutput_def CreateCondBr_def CreateBr_def CreateRet_def

section \<open>Running the emitted code\<close>

text \<open>
  What an instruction does when the emitted program runs. Integers are a width in bits and
  a value in \<open>[0, 2 ^ width)\<close>, with the wrap-around written out; a pointer is a stack
  slot (the register of its allocation) and a field index. A map lookup that misses yields
  zero, as the spec's failure model says. Division by zero and over-wide shifts have no
  defined result: the run is \<open>Stuck\<close>.
\<close>

datatype rtval = IntV nat int | PtrV nat nat

record machine =
  regs :: "nat \<rightharpoonup> rtval"
  args :: "rtval list"
  mem :: "(nat \<times> nat) \<rightharpoonup> rtval"
  live :: "nat list"
  maps :: "string \<Rightarrow> int \<rightharpoonup> int"
  events :: "rtval option list list"
  path :: "label list"

datatype outcome = Returned rtval machine | FellOff machine | Stuck machine | OutOfFuel

definition sint :: "nat \<Rightarrow> int \<Rightarrow> int" where
  "sint w n = (if 2 ^ (w - 1) \<le> n then n - 2 ^ w else n)"

fun eval_val :: "machine \<Rightarrow> val \<Rightarrow> rtval option" where
  "eval_val m (ConstInt w n) = Some (IntV w (n mod 2 ^ w))"
| "eval_val m (IntSameSize n v) =
     (case eval_val m v of Some (IntV w x) \<Rightarrow> Some (IntV w (n mod 2 ^ w)) | _ \<Rightarrow> None)"
| "eval_val m (IntOfType n ty) =
     (case ty of Int_t w \<Rightarrow> Some (IntV w (n mod 2 ^ w)) | _ \<Rightarrow> None)"
| "eval_val m (NullValue v) =
     (case eval_val m v of Some (IntV w x) \<Rightarrow> Some (IntV w 0) | _ \<Rightarrow> None)"
| "eval_val m (Reg r) = regs m r"
| "eval_val m (Arg i) = (if i < length (args m) then Some (args m ! i) else None)"

definition eval_icmp :: "icmp \<Rightarrow> nat \<Rightarrow> int \<Rightarrow> int \<Rightarrow> bool" where
  "eval_icmp c w a b =
     (case c of
        ICMP_EQ \<Rightarrow> a = b
      | ICMP_NE \<Rightarrow> a \<noteq> b
      | ICMP_SLT \<Rightarrow> sint w a < sint w b
      | ICMP_SLE \<Rightarrow> sint w a \<le> sint w b
      | ICMP_SGT \<Rightarrow> sint w a > sint w b
      | ICMP_SGE \<Rightarrow> sint w a \<ge> sint w b
      | ICMP_ULT \<Rightarrow> a < b
      | ICMP_ULE \<Rightarrow> a \<le> b
      | ICMP_UGT \<Rightarrow> a > b
      | ICMP_UGE \<Rightarrow> a \<ge> b)"

definition eval_arith :: "arith \<Rightarrow> nat \<Rightarrow> int \<Rightarrow> int \<Rightarrow> int option" where
  "eval_arith opn w a b =
     (case opn of
        BAdd \<Rightarrow> Some ((a + b) mod 2 ^ w)
      | BSub \<Rightarrow> Some ((a - b) mod 2 ^ w)
      | BMul \<Rightarrow> Some ((a * b) mod 2 ^ w)
      | BUDiv \<Rightarrow> (if b = 0 then None else Some (a div b))
      | BURem \<Rightarrow> (if b = 0 then None else Some (a mod b))
      | BShl \<Rightarrow> (if int w \<le> b then None else Some ((a * 2 ^ nat b) mod 2 ^ w))
      | BLShr \<Rightarrow> (if int w \<le> b then None else Some (a div 2 ^ nat b))
      | BAnd \<Rightarrow> Some (and a b)
      | BOr \<Rightarrow> Some (or a b)
      | BXor \<Rightarrow> Some (xor a b))"

definition set_reg :: "nat \<Rightarrow> rtval \<Rightarrow> machine \<Rightarrow> machine" where
  "set_reg r v m = m\<lparr>regs := (regs m)(r \<mapsto> v)\<rparr>"

fun step :: "instr \<Rightarrow> machine \<Rightarrow> machine option" where
  "step (AllocaBPF r ty name) m = Some (set_reg r (PtrV r 0) (m\<lparr>live := r # live m\<rparr>))"
| "step (AllocaBPFInit r ty name) m =
     Some (set_reg r (PtrV r 0) (m\<lparr>live := r # live m, mem := (mem m)((r, 0) \<mapsto> IntV 64 0)\<rparr>))"
| "step (LifetimeEnd v) m =
     (case eval_val m v of
        Some (PtrV a f) \<Rightarrow> Some (m\<lparr>live := removeAll a (live m)\<rparr>)
      | _ \<Rightarrow> None)"
| "step (Store v p) m =
     (case (eval_val m v, eval_val m p) of
        (Some x, Some (PtrV a f)) \<Rightarrow> Some (m\<lparr>mem := (mem m)((a, f) \<mapsto> x)\<rparr>)
      | _ \<Rightarrow> None)"
| "step (Load r p) m =
     (case eval_val m p of
        Some (PtrV a f) \<Rightarrow> (case mem m (a, f) of Some x \<Rightarrow> Some (set_reg r x m) | None \<Rightarrow> None)
      | _ \<Rightarrow> None)"
| "step (ICmp r c a b) m =
     (case (eval_val m a, eval_val m b) of
        (Some (IntV w x), Some (IntV w' y)) \<Rightarrow>
          (if w = w' then Some (set_reg r (IntV 1 (if eval_icmp c w x y then 1 else 0)) m)
           else None)
      | _ \<Rightarrow> None)"
| "step (Arith r opn a b) m =
     (case (eval_val m a, eval_val m b) of
        (Some (IntV w x), Some (IntV w' y)) \<Rightarrow>
          (if w = w' then
             (case eval_arith opn w x y of Some z \<Rightarrow> Some (set_reg r (IntV w z) m) | None \<Rightarrow> None)
           else None)
      | _ \<Rightarrow> None)"
| "step (IntCast r v bits sg) m =
     (case eval_val m v of
        Some (IntV w x) \<Rightarrow>
          Some (set_reg r (IntV bits ((if sg then sint w x else x) mod 2 ^ bits)) m)
      | _ \<Rightarrow> None)"
| "step (GEP r p idx) m =
     (case (eval_val m p, idx) of
        (Some (PtrV a f), [i, j]) \<Rightarrow> (if i = 0 \<and> f = 0 then Some (set_reg r (PtrV a j) m) else None)
      | _ \<Rightarrow> None)"
| "step (Memcpy dst src n) m = None"
| "step (MapLookupElem r mp key) m =
     (case eval_val m key of
        Some (PtrV a f) \<Rightarrow>
          (case mem m (a, f) of
             Some (IntV w k) \<Rightarrow>
               Some (set_reg r (IntV 64 (case maps m mp k of None \<Rightarrow> 0 | Some x \<Rightarrow> x)) m)
           | _ \<Rightarrow> None)
      | _ \<Rightarrow> None)"
| "step (MapUpdateElem mp key v) m =
     (case (eval_val m key, eval_val m v) of
        (Some (PtrV a f), Some (PtrV a' f')) \<Rightarrow>
          (case (mem m (a, f), mem m (a', f')) of
             (Some (IntV w k), Some (IntV w' x)) \<Rightarrow>
               Some (m\<lparr>maps := (maps m)(mp := (maps m mp)(k \<mapsto> x))\<rparr>)
           | _ \<Rightarrow> None)
      | _ \<Rightarrow> None)"
| "step (PerfEventOutput c buf n) m =
     (case eval_val m buf of
        Some (PtrV a f) \<Rightarrow>
          Some (m\<lparr>events := events m @ [map (\<lambda>i. mem m (a, i)) [0..<n div 8]]\<rparr>)
      | _ \<Rightarrow> None)"
| "step (CondBr c t f) m = None"
| "step (Br l) m = None"
| "step (Ret v) m = None"

text \<open>
  A run starts at a position of a block and follows the terminators; \<open>path\<close> collects
  the blocks entered. Every instruction costs one unit of fuel.
\<close>

fun exec :: "(label \<Rightarrow> instr list) \<Rightarrow> nat \<Rightarrow> label \<Rightarrow> nat \<Rightarrow> machine \<Rightarrow> outcome" where
  "exec bl 0 b pc m = OutOfFuel"
| "exec bl (Suc n) b pc m =
     (if length (bl b) \<le> pc then FellOff m
      else
        (case bl b ! pc of
           Br l \<Rightarrow> exec bl n l 0 (m\<lparr>path := path m @ [l]\<rparr>)
         | CondBr c t f \<Rightarrow>
             (case eval_val m c of
                Some (IntV w x) \<Rightarrow>
                  (let l = (if x \<noteq> 0 then t else f) in exec bl n l 0 (m\<lparr>path := path m @ [l]\<rparr>))
              | _ \<Rightarrow> Stuck m)
         | Ret v \<Rightarrow> (case eval_val m v of Some x \<Rightarrow> Returned x m | None \<Rightarrow> Stuck m)
         | i \<Rightarrow> (case step i m of Some m' \<Rightarrow> exec bl n b (Suc pc) m' | None \<Rightarrow> Stuck m)))"

definition init_machine :: "rtval list \<Rightarrow> (string \<Rightarrow> int \<rightharpoonup> int) \<Rightarrow> machine" where
  "init_machine as mp =
     \<lparr>regs = Map.empty, args = as, mem = Map.empty, live = [], maps = mp, events = [], path = []\<rparr>"

section \<open>The linear-histogram helper\<close>

definition createLinearFunction :: "CodegenLLVM \<Rightarrow> nat \<times> CodegenLLVM" where
  "createLinearFunction s0 =
     (let ip = saveIP s0;
          linear_func = new_func s0;
          s = Function_Create InternalLinkage ''linear'' s0;
          s = addFnAttr_AlwaysInline linear_func s;
          s = setSection linear_func ''helpers'' s;
          entry = new_block s;
          s = BasicBlock_Create ''entry'' linear_func s;
          s = SetInsertPoint entry s;
          value_alloc = new_reg s;
          s = CreateAllocaBPF (Sized_t CreateUInt64) '''' s;
          min_alloc = new_reg s;
          s = CreateAllocaBPF (Sized_t CreateUInt64) '''' s;
          max_alloc = new_reg s;
          s = CreateAllocaBPF (Sized_t CreateUInt64) '''' s;
          step_alloc = new_reg s;
          s = CreateAllocaBPF (Sized_t CreateUInt64) '''' s;
          result_alloc = new_reg s;
          s = CreateAllocaBPF (Sized_t CreateUInt64) '''' s;
          s = CreateStore (Arg 0) value_alloc s;
          s = CreateStore (Arg 1) min_alloc s;
          s = CreateStore (Arg 2) max_alloc s;
          s = CreateStore (Arg 3) step_alloc s;
          min_v = new_reg s;
          s = CreateLoad min_alloc s;
          val_v = new_reg s;
          s = CreateLoad value_alloc s;
          cmp = new_reg s;
          s = CreateICmp ICMP_SLT val_v min_v s;
          lt_min = new_block s;
          s = BasicBlock_Create ''lhist.lt_min'' linear_func s;
          ge_min = new_block s;
          s = BasicBlock_Create ''lhist.ge_min'' linear_func s;
          s = CreateCondBr cmp lt_min ge_min s;
          s = SetInsertPoint lt_min s;
          s = CreateRet (getInt64 0) s;
          s = SetInsertPoint ge_min s;
          max_v = new_reg s;
          s = CreateLoad max_alloc s;
          val_v = new_reg s;
          s = CreateLoad value_alloc s;
          cmp = new_reg s;
          s = CreateICmp ICMP_SGT val_v max_v s;
          le_max = new_block s;
          s = BasicBlock_Create ''lhist.le_max'' linear_func s;
          gt_max = new_block s;
          s = BasicBlock_Create ''lhist.gt_max'' linear_func s;
          s = CreateCondBr cmp gt_max le_max s;
          s = SetInsertPoint gt_max s;
          step_v = new_reg s;
          s = CreateLoad step_alloc s;
          min_v = new_reg s;
          s = CreateLoad min_alloc s;
          max_v = new_reg s;
          s = CreateLoad max_alloc s;
          sub_v = new_reg s;
          s = CreateArith BSub max_v min_v s;
          div_v = new_reg s;
          s = CreateArith BUDiv sub_v step_v s;
          add_v = new_reg s;
          s = CreateArith BAdd div_v (getInt64 1) s;
          s = CreateStore add_v result_alloc s;
          res_v = new_reg s;
          s = CreateLoad result_alloc s;
          s = CreateRet res_v s;
          s = SetInsertPoint le_max s;
          step_v = new_reg s;
          s = CreateLoad step_alloc s;
          min_v = new_reg s;
          s = CreateLoad min_alloc s;
          val_v = new_reg s;
          s = CreateLoad value_alloc s;
          sub_v = new_reg s;
          s = CreateArith BSub val_v min_v s;
          div3 = new_reg s;
          s = CreateArith BUDiv sub_v step_v s;
          add_v = new_reg s;
          s = CreateArith BAdd div3 (getInt64 1) s;
          s = CreateStore add_v result_alloc s;
          res_v = new_reg s;
          s = CreateLoad result_alloc s;
          s = CreateRet res_v s;
          s = restoreIP ip s
      in (linear_func, s))"

text \<open>
  Calling the helper: the run starts at its entry block, the block the helper creates
  first, with the four 64-bit arguments.
\<close>

definition run_linear :: "CodegenLLVM \<Rightarrow> int \<Rightarrow> int \<Rightarrow> int \<Rightarrow> int \<Rightarrow> outcome" where
  "run_linear s0 v mn mx st =
     (let s = snd (createLinearFunction s0)
      in exec (blocks s) 40 (new_block s0) 0
           (init_machine [IntV 64 v, IntV 64 mn, IntV 64 mx, IntV 64 st] (\<lambda>_. Map.empty)))"

section \<open>The syntax tree\<close>

text \<open>
  The nodes the lowering below covers: integer literals, script variables, binary
  operators, and the calls \<open>count\<close>, \<open>sum\<close>, \<open>min\<close>, \<open>max\<close>, \<open>exit\<close> and
  \<open>strftime\<close>; expression statements, variable assignments and \<open>if\<close>. Every
  expression carries its \<open>SizedType\<close> first. A map is named without key expressions
  (the source's \<open>map.vargs\<close> is null), and a call holds its map, when it has one, and its
  arguments. The operator tokens are those of the generated parser that a binary or
  unary node can hold.
\<close>

datatype token =
  EQ | NE | LE | GE | LT | GT | LAND | LOR | LEFT | RIGHT | PLUS | MINUS | MUL | DIV | MOD |
  BAND | BOR | BXOR | LNOT | BNOT | INCREMENT | DECREMENT

record Map =
  ident :: string
  map_type :: SizedType

datatype expression =
    Integer SizedType int
  | Variable SizedType string
  | Binop SizedType expression token expression
  | Call SizedType string "Map option" "expression list"

fun expr_type :: "expression \<Rightarrow> SizedType" where
  "expr_type (Integer ty n) = ty"
| "expr_type (Variable ty x) = ty"
| "expr_type (Binop ty l opr r) = ty"
| "expr_type (Call ty f m vargs) = ty"

datatype statement =
    ExprStatement expression
  | AssignVarStatement SizedType string expression
  | If expression "statement list" "statement list option"

text \<open>
  A probe: its predicate (the expression of the \<open>Predicate\<close> node, if there is one),
  its statements, its attach points and the flag the analyzer sets when every match needs
  a program of its own.
\<close>

record Probe =
  pred :: "expression option"
  stmts :: "statement list"
  attach_points :: "AttachPoint list"
  need_expansion :: bool

datatype ProbeType = tracepoint | usdt | uprobe | uretprobe | other_probe

record usdt_probe_entry =
  num_locations :: int

text \<open>
  What the generator takes from its surroundings (\<open>bpftrace_\<close>, the helper headers,
  the tree's own methods and the resolvers), none of which is among the sources:
  \<open>needMemcpy\<close> on a type, the number of the \<open>exit\<close> action, the element types of the
  \<open>strftime\<close> record, \<open>probetype\<close> of a provider name, the matches of an attach point
  in the order the \<open>std::set\<close> iterates them, the lookup of a USDT probe,
  \<open>erase_prefix\<close> (the prefix it returns and what it leaves in its argument), the
  names \<open>AttachPoint::name\<close> and \<open>Probe::name\<close> build, and the tracepoint structure
  name.
\<close>

record BPFtrace =
  needMemcpy :: "SizedType \<Rightarrow> bool"
  asyncactionint_exit :: int
  Strftime_asLLVMType :: "ir_type list"
  probetype :: "string \<Rightarrow> ProbeType"
  find_wildcard_matches :: "AttachPoint \<Rightarrow> string list"
  pid :: int
  USDTHelper_find :: "int \<Rightarrow> string \<Rightarrow> string \<Rightarrow> string \<Rightarrow> usdt_probe_entry option"
  erase_prefix :: "string \<Rightarrow> string \<times> string"
  AttachPoint_name :: "AttachPoint \<Rightarrow> string \<Rightarrow> string"
  AttachPoint_name2 :: "AttachPoint \<Rightarrow> string \<Rightarrow> string \<Rightarrow> string"
  Probe_name :: "Probe \<Rightarrow> string"
  get_struct_name :: "string \<Rightarrow> string"

text \<open>
  How the generator can stop: \<open>LOG(FATAL)\<close>, a null pointer used as an operand, an
  index out of range (\<open>front()\<close> or \<open>at(i)\<close> on too short a vector), a failed
  \<open>assert\<close>, a thrown \<open>std::runtime_error\<close>, or a construct outside the nodes
  covered here.
\<close>

datatype error =
  Fatal string | NullPointer | OutOfRange | AssertionFailed | RuntimeError string | NotModelled

section \<open>Lowering expressions\<close>

text \<open>
  Each \<open>visit\<close> of the source is one definition. Where the source calls \<open>accept\<close> on a
  child, the definition takes the visitor as its parameter \<open>acc\<close>; \<open>accept\<close> below
  ties the knot. No lowering covered here installs a deferred release
  (\<open>expr_deleter_\<close> stays null), so the \<open>ScopedExprDeleter\<close> that \<open>accept\<close> returns
  does nothing and is left out.
\<close>

definition visit_Integer :: "int \<Rightarrow> CodegenLLVM \<Rightarrow> CodegenLLVM" where
  "visit_Integer n s = s\<lparr>expr := Some (getInt64 n)\<rparr>"

text \<open>
  \<open>variables_[var.ident]\<close> on a variable without a slot inserts a null slot, so the
  table maps a name to a possibly null slot.
\<close>

definition visit_Variable ::
  "BPFtrace \<Rightarrow> SizedType \<Rightarrow> string \<Rightarrow> CodegenLLVM \<Rightarrow> error + CodegenLLVM" where
  "visit_Variable env ty x s =
     (case variables s x of
        None \<Rightarrow>
          (let s = s\<lparr>variables := (variables s)(x \<mapsto> None)\<rparr>
           in if needMemcpy env ty then Inr (s\<lparr>expr := None\<rparr>) else Inl NullPointer)
      | Some slot \<Rightarrow>
          if needMemcpy env ty then Inr (s\<lparr>expr := slot\<rparr>)
          else
            (case slot of
               None \<Rightarrow> Inl NullPointer
             | Some p \<Rightarrow> Inr (let v = new_reg s; s = CreateLoad p s in s\<lparr>expr := Some v\<rparr>)))"

definition createLogicalAnd ::
  "(expression \<Rightarrow> CodegenLLVM \<Rightarrow> error + CodegenLLVM) \<Rightarrow> expression \<Rightarrow> expression \<Rightarrow>
   CodegenLLVM \<Rightarrow> error + CodegenLLVM" where
  "createLogicalAnd acc left right s =
     (if \<not> IsIntTy (expr_type left) \<or> \<not> IsIntTy (expr_type right) then Inl AssertionFailed
      else
        let parent = GetInsertBlock_getParent s;
            lhs_true_block = new_block s;
            s = BasicBlock_Create ''&&_lhs_true'' parent s;
            true_block = new_block s;
            s = BasicBlock_Create ''&&_true'' parent s;
            false_block = new_block s;
            s = BasicBlock_Create ''&&_false'' parent s;
            merge_block = new_block s;
            s = BasicBlock_Create ''&&_merge'' parent s;
            result = new_reg s;
            s = CreateAllocaBPF (Int_t 64) ''&&_result'' s
        in
          (case acc left s of
             Inl e \<Rightarrow> Inl e
           | Inr s \<Rightarrow>
               (case expr s of
                  None \<Rightarrow> Inl NullPointer
                | Some lhs \<Rightarrow>
                    let c = new_reg s;
                        s = CreateICmp ICMP_NE lhs (GetIntSameSize 0 lhs) s;
                        s = CreateCondBr c lhs_true_block false_block s;
                        s = SetInsertPoint lhs_true_block s
                    in
                      (case acc right s of
                         Inl e \<Rightarrow> Inl e
                       | Inr s \<Rightarrow>
                           (case expr s of
                              None \<Rightarrow> Inl NullPointer
                            | Some rhs \<Rightarrow>
                                let c = new_reg s;
                                    s = CreateICmp ICMP_NE rhs (GetIntSameSize 0 rhs) s;
                                    s = CreateCondBr c true_block false_block s;
                                    s = SetInsertPoint true_block s;
                                    s = CreateStore (getInt64 1) result s;
                                    s = CreateBr merge_block s;
                                    s = SetInsertPoint false_block s;
                                    s = CreateStore (getInt64 0) result s;
                                    s = CreateBr merge_block s;
                                    s = SetInsertPoint merge_block s;
                                    v = new_reg s;
                                    s = CreateLoad result s
                                in Inr (s\<lparr>expr := Some v\<rparr>))))))"

definition createLogicalOr ::
  "(expression \<Rightarrow> CodegenLLVM \<Rightarrow> error + CodegenLLVM) \<Rightarrow> expression \<Rightarrow> expression \<Rightarrow>
   CodegenLLVM \<Rightarrow> error + CodegenLLVM" where
  "createLogicalOr acc left right s =
     (if \<not> IsIntTy (expr_type left) \<or> \<not> IsIntTy (expr_type right) then Inl AssertionFailed
      else
        let parent = GetInsertBlock_getParent s;
            lhs_false_block = new_block s;
            s = BasicBlock_Create ''||_lhs_false'' parent s;
            false_block = new_block s;
            s = BasicBlock_Create ''||_false'' parent s;
            true_block = new_block s;
            s = BasicBlock_Create ''||_true'' parent s;
            merge_block = new_block s;
            s = BasicBlock_Create ''||_merge'' parent s;
            result = new_reg s;
            s = CreateAllocaBPF (Int_t 64) ''||_result'' s
        in
          (case acc left s of
             Inl e \<Rightarrow> Inl e
           | Inr s \<Rightarrow>
               (case expr s of
                  None \<Rightarrow> Inl NullPointer
                | Some lhs \<Rightarrow>
                    let c = new_reg s;
                        s = CreateICmp ICMP_NE lhs (GetIntSameSize 0 lhs) s;
                        s = CreateCondBr c true_block lhs_false_block s;
                        s = SetInsertPoint lhs_false_block s
                    in
                      (case acc right s of
                         Inl e \<Rightarrow> Inl e
                       | Inr s \<Rightarrow>
                           (case expr s of
                              None \<Rightarrow> Inl NullPointer
                            | Some rhs \<Rightarrow>
                                let c = new_reg s;
                                    s = CreateICmp ICMP_NE rhs (GetIntSameSize 0 rhs) s;
                                    s = CreateCondBr c true_block false_block s;
                                    s = SetInsertPoint false_block s;
                                    s = CreateStore (getInt64 0) result s;
                                    s = CreateBr merge_block s;
                                    s = SetInsertPoint true_block s;
                                    s = CreateStore (getInt64 1) result s;
                                    s = CreateBr merge_block s;
                                    s = SetInsertPoint merge_block s;
                                    v = new_reg s;
                                    s = CreateLoad result s
                                in Inr (s\<lparr>expr := Some v\<rparr>))))))"

text \<open>
  The \<open>switch\<close> of \<open>visit(Binop&)\<close> on the promoted operands. A token without a
  \<open>case\<close> leaves \<open>expr_\<close> as the right operand's lowering set it.
\<close>

definition assign_expr :: "(CodegenLLVM \<Rightarrow> CodegenLLVM) \<Rightarrow> CodegenLLVM \<Rightarrow> CodegenLLVM" where
  "assign_expr create s = (create s)\<lparr>expr := Some (new_reg s)\<rparr>"

definition binop_switch ::
  "token \<Rightarrow> bool \<Rightarrow> val \<Rightarrow> val \<Rightarrow> CodegenLLVM \<Rightarrow> error + CodegenLLVM" where
  "binop_switch opr do_signed lhs rhs s =
     (case opr of
        EQ \<Rightarrow> Inr (assign_expr (CreateICmp ICMP_EQ lhs rhs) s)
      | NE \<Rightarrow> Inr (assign_expr (CreateICmp ICMP_NE lhs rhs) s)
      | LE \<Rightarrow> Inr (assign_expr (CreateICmp (if do_signed then ICMP_SLE else ICMP_ULE) lhs rhs) s)
      | GE \<Rightarrow> Inr (assign_expr (CreateICmp (if do_signed then ICMP_SGE else ICMP_UGE) lhs rhs) s)
      | LT \<Rightarrow> Inr (assign_expr (CreateICmp (if do_signed then ICMP_SLT else ICMP_ULT) lhs rhs) s)
      | GT \<Rightarrow> Inr (assign_expr (CreateICmp (if do_signed then ICMP_SGT else ICMP_UGT) lhs rhs) s)
      | LEFT \<Rightarrow> Inr (assign_expr (CreateArith BShl lhs rhs) s)
      | RIGHT \<Rightarrow> Inr (assign_expr (CreateArith BLShr lhs rhs) s)
      | PLUS \<Rightarrow> Inr (assign_expr (CreateArith BAdd lhs rhs) s)
      | MINUS \<Rightarrow> Inr (assign_expr (CreateArith BSub lhs rhs) s)
      | MUL \<Rightarrow> Inr (assign_expr (CreateArith BMul lhs rhs) s)
      | DIV \<Rightarrow> Inr (assign_expr (CreateArith BUDiv lhs rhs) s)
      | MOD \<Rightarrow> Inr (assign_expr (CreateArith BURem lhs rhs) s)
      | BAND \<Rightarrow> Inr (assign_expr (CreateArith BAnd lhs rhs) s)
      | BOR \<Rightarrow> Inr (assign_expr (CreateArith BOr lhs rhs) s)
      | BXOR \<Rightarrow> Inr (assign_expr (CreateArith BXor lhs rhs) s)
      | LAND \<Rightarrow> Inl (Fatal ''was handled earlier'')
      | LOR \<Rightarrow> Inl (Fatal ''was handled earlier'')
      | _ \<Rightarrow> Inr s)"

text \<open>
  \<open>visit(Binop&)\<close>. The string and buffer comparisons are outside the nodes covered
  here; their guard on the operator is kept.
\<close>

definition visit_Binop ::
  "(expression \<Rightarrow> CodegenLLVM \<Rightarrow> error + CodegenLLVM) \<Rightarrow> expression \<Rightarrow> token \<Rightarrow> expression \<Rightarrow>
   CodegenLLVM \<Rightarrow> error + CodegenLLVM" where
  "visit_Binop acc left opr right s =
     (if opr = LAND then createLogicalAnd acc left right s
      else if opr = LOR then createLogicalOr acc left right s
      else if IsStringTy (expr_type left) then
        (if opr \<noteq> EQ \<and> opr \<noteq> NE then Inl (Fatal ''missing codegen to string operator'')
         else Inl NotModelled)
      else if IsBufferTy (expr_type left) then
        (if opr \<noteq> EQ \<and> opr \<noteq> NE then Inl (Fatal ''missing codegen to buffer operator'')
         else Inl NotModelled)
      else
        (case acc left s of
           Inl e \<Rightarrow> Inl e
         | Inr s \<Rightarrow>
             let lhs = expr s in
               (case acc right s of
                  Inl e \<Rightarrow> Inl e
                | Inr s \<Rightarrow>
                    let rhs = expr s;
                        lsign = IsSigned (expr_type left);
                        rsign = IsSigned (expr_type right);
                        do_signed = (lsign \<and> rsign)
                    in
                      (case lhs of
                         None \<Rightarrow> Inl NullPointer
                       | Some lhs \<Rightarrow>
                           (case rhs of
                              None \<Rightarrow> Inl NullPointer
                            | Some rhs \<Rightarrow>
                                let lhs64 = new_reg s;
                                    s = CreateIntCast lhs 64 lsign s;
                                    rhs64 = new_reg s;
                                    s = CreateIntCast rhs 64 rsign s
                                in
                                  (case binop_switch opr do_signed lhs64 rhs64 s of
                                     Inl e \<Rightarrow> Inl e
                                   | Inr s \<Rightarrow>
                                       (case expr s of
                                          None \<Rightarrow> Inl NullPointer
                                        | Some e \<Rightarrow>
                                            Inr (assign_expr (CreateIntCast e 64 False) s))))))))"

text \<open>\<open>getMapKey\<close> for a map without key expressions: the slot it returns is the one it
  allocates.\<close>

definition getMapKey :: "Map \<Rightarrow> CodegenLLVM \<Rightarrow> CodegenLLVM" where
  "getMapKey m s =
     (let key = new_reg s;
          s = CreateAllocaBPF (Sized_t CreateUInt64) (ident m @ ''_key'') s;
          s = CreateStore (getInt64 0) key s
      in s)"

definition call_count :: "Map \<Rightarrow> CodegenLLVM \<Rightarrow> CodegenLLVM" where
  "call_count m s =
     (let key = new_reg s;
          s = getMapKey m s;
          oldval = new_reg s;
          s = CreateMapLookupElem (ident m) key s;
          newval = new_reg s;
          s = CreateAllocaBPF (Sized_t (map_type m)) (ident m @ ''_val'') s;
          added = new_reg s;
          s = CreateArith BAdd oldval (getInt64 1) s;
          s = CreateStore added newval s;
          s = CreateMapUpdateElem (ident m) key newval s;
          s = CreateLifetimeEnd key s;
          s = CreateLifetimeEnd newval s
      in s\<lparr>expr := None\<rparr>)"

definition call_sum ::
  "(expression \<Rightarrow> CodegenLLVM \<Rightarrow> error + CodegenLLVM) \<Rightarrow> Map \<Rightarrow> expression \<Rightarrow>
   CodegenLLVM \<Rightarrow> error + CodegenLLVM" where
  "call_sum acc m arg s =
     (let key = new_reg s;
          s = getMapKey m s;
          oldval = new_reg s;
          s = CreateMapLookupElem (ident m) key s;
          newval = new_reg s;
          s = CreateAllocaBPF (Sized_t (map_type m)) (ident m @ ''_val'') s
      in
        (case acc arg s of
           Inl e \<Rightarrow> Inl e
         | Inr s \<Rightarrow>
             (case expr s of
                None \<Rightarrow> Inl NullPointer
              | Some e \<Rightarrow>
                  let e64 = new_reg s;
                      s = CreateIntCast e 64 (IsSigned (expr_type arg)) s;
                      added = new_reg s;
                      s = CreateArith BAdd e64 oldval s;
                      s = CreateStore added newval s;
                      s = CreateMapUpdateElem (ident m) key newval s;
                      s = CreateLifetimeEnd key s;
                      s = CreateLifetimeEnd newval s
                  in Inr (s\<lparr>expr := None\<rparr>))))"

definition call_min ::
  "(expression \<Rightarrow> CodegenLLVM \<Rightarrow> error + CodegenLLVM) \<Rightarrow> Map \<Rightarrow> expression \<Rightarrow>
   CodegenLLVM \<Rightarrow> error + CodegenLLVM" where
  "call_min acc m arg s =
     (let key = new_reg s;
          s = getMapKey m s;
          oldval = new_reg s;
          s = CreateMapLookupElem (ident m) key s;
          newval = new_reg s;
          s = CreateAllocaBPF (Sized_t (map_type m)) (ident m @ ''_val'') s;
          parent = GetInsertBlock_getParent s
      in
        (case acc arg s of
           Inl e \<Rightarrow> Inl e
         | Inr s \<Rightarrow>
             (case expr s of
                None \<Rightarrow> Inl NullPointer
              | Some e \<Rightarrow>
                  let e64 = new_reg s;
                      s = CreateIntCast e 64 (IsSigned (expr_type arg)) s;
                      inverted = new_reg s;
                      s = CreateArith BSub (getInt64 0xffffffff) e64 s;
                      lt = new_block s;
                      s = BasicBlock_Create ''min.lt'' parent s;
                      ge = new_block s;
                      s = BasicBlock_Create ''min.ge'' parent s;
                      c = new_reg s;
                      s = CreateICmp ICMP_SGE inverted oldval s;
                      s = CreateCondBr c ge lt s;
                      s = SetInsertPoint ge s;
                      s = CreateStore inverted newval s;
                      s = CreateMapUpdateElem (ident m) key newval s;
                      s = CreateBr lt s;
                      s = SetInsertPoint lt s;
                      s = CreateLifetimeEnd key s;
                      s = CreateLifetimeEnd newval s
                  in Inr (s\<lparr>expr := None\<rparr>))))"

definition call_max ::
  "(expression \<Rightarrow> CodegenLLVM \<Rightarrow> error + CodegenLLVM) \<Rightarrow> Map \<Rightarrow> expression \<Rightarrow>
   CodegenLLVM \<Rightarrow> error + CodegenLLVM" where
  "call_max acc m arg s =
     (let key = new_reg s;
          s = getMapKey m s;
          oldval = new_reg s;
          s = CreateMapLookupElem (ident m) key s;
          newval = new_reg s;
          s = CreateAllocaBPF (Sized_t (map_type m)) (ident m @ ''_val'') s;
          parent = GetInsertBlock_getParent s
      in
        (case acc arg s of
           Inl e \<Rightarrow> Inl e
         | Inr s \<Rightarrow>
             (case expr s of
                None \<Rightarrow> Inl NullPointer
              | Some e \<Rightarrow>
                  let e64 = new_reg s;
                      s = CreateIntCast e 64 (IsSigned (expr_type arg)) s;
                      lt = new_block s;
                      s = BasicBlock_Create ''min.lt'' parent s;
                      ge = new_block s;
                      s = BasicBlock_Create ''min.ge'' parent s;
                      c = new_reg s;
                      s = CreateICmp ICMP_SGE e64 oldval s;
                      s = CreateCondBr c ge lt s;
                      s = SetInsertPoint ge s;
                      s = CreateStore e64 newval s;
                      s = CreateMapUpdateElem (ident m) key newval s;
                      s = CreateBr lt s;
                      s = SetInsertPoint lt s;
                      s = CreateLifetimeEnd key s;
                      s = CreateLifetimeEnd newval s
                  in Inr (s\<lparr>expr := None\<rparr>))))"

definition call_exit :: "BPFtrace \<Rightarrow> CodegenLLVM \<Rightarrow> CodegenLLVM" where
  "call_exit env s =
     (let perfdata = new_reg s;
          s = CreateAllocaBPF (Int_t 64) ''perfdata'' s;
          s = CreateStore (getInt64 (asyncactionint_exit env)) perfdata s;
          s = CreatePerfEventOutput (ctx s) perfdata 8 s;
          s = CreateLifetimeEnd perfdata s;
          s = s\<lparr>expr := None\<rparr>;
          s = CreateRet (ConstInt 64 0) s;
          deadcode = new_block s;
          s = BasicBlock_Create ''deadcode'' (GetInsertBlock_getParent s) s;
          s = SetInsertPoint deadcode s
      in s)"

definition call_strftime ::
  "BPFtrace \<Rightarrow> (expression \<Rightarrow> CodegenLLVM \<Rightarrow> error + CodegenLLVM) \<Rightarrow> string \<Rightarrow>
   expression list \<Rightarrow> CodegenLLVM \<Rightarrow> error + CodegenLLVM" where
  "call_strftime env acc func vargs s =
     (let elements = Strftime_asLLVMType env;
          strftime_struct = Struct_t (func @ ''_t'') elements True;
          buf = new_reg s;
          s = CreateAllocaBPF strftime_struct (func @ ''_args'') s
      in
        if length elements < 1 then Inl OutOfRange
        else
          let field0 = new_reg s;
              s = CreateGEP buf [0, 0] s;
              s = CreateStore (IntOfType (strftime_id s) (elements ! 0)) field0 s;
              s = s\<lparr>strftime_id := strftime_id s + 1\<rparr>
          in
            if length vargs < 2 then Inl OutOfRange
            else
              (case acc (vargs ! 1) s of
                 Inl e \<Rightarrow> Inl e
               | Inr s \<Rightarrow>
                   let field1 = new_reg s;
                       s = CreateGEP buf [0, 1] s
                   in
                     (case expr s of
                        None \<Rightarrow> Inl NullPointer
                      | Some e \<Rightarrow>
                          let s = CreateStore e field1 s
                          in Inr (s\<lparr>expr := Some buf\<rparr>))))"

text \<open>
  \<open>visit(Call&)\<close> dispatches on the name. \<open>*call.map\<close> on a call without a map and
  \<open>call.vargs->front()\<close> on a call without arguments have no defined result.
\<close>

definition visit_Call ::
  "BPFtrace \<Rightarrow> (expression \<Rightarrow> CodegenLLVM \<Rightarrow> error + CodegenLLVM) \<Rightarrow> string \<Rightarrow> Map option \<Rightarrow>
   expression list \<Rightarrow> CodegenLLVM \<Rightarrow> error + CodegenLLVM" where
  "visit_Call env acc func mp vargs s =
     (if func = ''count'' then
        (case mp of None \<Rightarrow> Inl NullPointer | Some m \<Rightarrow> Inr (call_count m s))
      else if func = ''sum'' then
        (case mp of
           None \<Rightarrow> Inl NullPointer
         | Some m \<Rightarrow> (if vargs = [] then Inl OutOfRange else call_sum acc m (hd vargs) s))
      else if func = ''min'' then
        (case mp of
           None \<Rightarrow> Inl NullPointer
         | Some m \<Rightarrow> (if vargs = [] then Inl OutOfRange else call_min acc m (hd vargs) s))
      else if func = ''max'' then
        (case mp of
           None \<Rightarrow> Inl NullPointer
         | Some m \<Rightarrow> (if vargs = [] then Inl OutOfRange else call_max acc m (hd vargs) s))
      else if func = ''exit'' then Inr (call_exit env s)
      else if func = ''strftime'' then call_strftime env acc func vargs s
      else Inl NotModelled)"

lemma createLogicalAnd_cong [fundef_cong]:
  assumes "l = l'" and "r = r'" and "s = s'"
    and "\<And>t. acc l' t = acc' l' t" and "\<And>t. acc r' t = acc' r' t"
  shows "createLogicalAnd acc l r s = createLogicalAnd acc' l' r' s'"
proof -
  have "acc l' = acc' l'" and "acc r' = acc' r'"
    using assms(4,5) by auto
  then show ?thesis
    unfolding createLogicalAnd_def assms(1-3) by (simp only:)
qed

lemma createLogicalOr_cong [fundef_cong]:
  assumes "l = l'" and "r = r'" and "s = s'"
    and "\<And>t. acc l' t = acc' l' t" and "\<And>t. acc r' t = acc' r' t"
  shows "createLogicalOr acc l r s = createLogicalOr acc' l' r' s'"
proof -
  have "acc l' = acc' l'" and "acc r' = acc' r'"
    using assms(4,5) by auto
  then show ?thesis
    unfolding createLogicalOr_def assms(1-3) by (simp only:)
qed

lemma visit_Binop_cong [fundef_cong]:
  assumes "l = l'" and "opr = opr'" and "r = r'" and "s = s'"
    and "\<And>t. acc l' t = acc' l' t" and "\<And>t. acc r' t = acc' r' t"
  shows "visit_Binop acc l opr r s = visit_Binop acc' l' opr' r' s'"
proof -
  have "acc l' = acc' l'" and "acc r' = acc' r'"
    using assms(5,6) by auto
  then show ?thesis
    unfolding visit_Binop_def createLogicalAnd_def createLogicalOr_def assms(1-4)
    by (simp only:)
qed

lemma visit_Call_cong [fundef_cong]:
  assumes "func = func'" and "mp = mp'" and "vargs = vargs'" and "s = s'"
    and "\<And>a t. a \<in> set vargs' \<Longrightarrow> acc a t = acc' a t"
  shows "visit_Call env acc func mp vargs s = visit_Call env acc' func' mp' vargs' s'"
proof -
  have hd: "acc (hd vargs') = acc' (hd vargs')" if "vargs' \<noteq> []"
    using that assms(5) by (cases vargs') auto
  have nth: "acc (vargs' ! 1) = acc' (vargs' ! 1)" if "\<not> length vargs' < 2"
    using that assms(5) by (intro ext) (simp add: not_less)
  have sum: "call_sum acc m (hd vargs') s' = call_sum acc' m (hd vargs') s'"
    if "vargs' \<noteq> []" for m
    unfolding call_sum_def hd [OF that] by (simp only:)
  have min: "call_min acc m (hd vargs') s' = call_min acc' m (hd vargs') s'"
    if "vargs' \<noteq> []" for m
    unfolding call_min_def hd [OF that] by (simp only:)
  have max: "call_max acc m (hd vargs') s' = call_max acc' m (hd vargs') s'"
    if "vargs' \<noteq> []" for m
    unfolding call_max_def hd [OF that] by (simp only:)
  have strftime: "call_strftime env acc f vargs' s' = call_strftime env acc' f vargs' s'" for f
  proof (cases "length vargs' < 2")
    case True
    then show ?thesis by (simp add: call_strftime_def Let_def)
  next
    case False
    show ?thesis unfolding call_strftime_def nth [OF False] by (simp only:)
  qed
  show ?thesis
    unfolding visit_Call_def assms(1-4)
    by (simp add: sum min max strftime split: option.split)
qed

fun accept :: "BPFtrace \<Rightarrow> expression \<Rightarrow> CodegenLLVM \<Rightarrow> error + CodegenLLVM" where
  "accept env (Integer ty n) s = Inr (visit_Integer n s)"
| "accept env (Variable ty x) s = visit_Variable env ty x s"
| "accept env (Binop ty l opr r) s = visit_Binop (accept env) l opr r s"
| "accept env (Call ty func mp vargs) s = visit_Call env (accept env) func mp vargs s"


section \<open>Lowering statements\<close>

definition visit_AssignVarStatement ::
  "BPFtrace \<Rightarrow> (expression \<Rightarrow> CodegenLLVM \<Rightarrow> error + CodegenLLVM) \<Rightarrow> SizedType \<Rightarrow> string \<Rightarrow>
   expression \<Rightarrow> CodegenLLVM \<Rightarrow> error + CodegenLLVM" where
  "visit_AssignVarStatement env acc ty x e s =
     (case acc e s of
        Inl err \<Rightarrow> Inl err
      | Inr s \<Rightarrow>
          let s = (if variables s x = None then
                     (let v = new_reg s;
                          s = CreateAllocaBPFInit ty x s
                      in s\<lparr>variables := (variables s)(x \<mapsto> Some v)\<rparr>)
                   else s)
          in
            (case variables s x of
               Some (Some slot) \<Rightarrow>
                 (case expr s of
                    None \<Rightarrow> Inl NullPointer
                  | Some v \<Rightarrow>
                      if needMemcpy env ty then Inr (CREATE_MEMCPY slot v (size_bytes ty) s)
                      else Inr (CreateStore v slot s))
             | _ \<Rightarrow> Inl NullPointer))"

definition visit_If ::
  "(expression \<Rightarrow> CodegenLLVM \<Rightarrow> error + CodegenLLVM) \<Rightarrow>
   (statement list \<Rightarrow> CodegenLLVM \<Rightarrow> error + CodegenLLVM) \<Rightarrow>
   expression \<Rightarrow> statement list \<Rightarrow> statement list option \<Rightarrow> CodegenLLVM \<Rightarrow> error + CodegenLLVM" where
  "visit_If acc accs cond body else_stmts s =
     (let parent = GetInsertBlock_getParent s;
          if_true = new_block s;
          s = BasicBlock_Create ''if_body'' parent s;
          if_end = new_block s;
          s = BasicBlock_Create ''if_end'' parent s
      in
        (case acc cond s of
           Inl err \<Rightarrow> Inl err
         | Inr s \<Rightarrow>
             (case expr s of
                None \<Rightarrow> Inl NullPointer
              | Some e \<Rightarrow>
                  let c = new_reg s;
                      s = CreateICmp ICMP_NE e (NullValue e) s;
                      if_else = new_block s;
                      s = (case else_stmts of
                             Some es \<Rightarrow>
                               CreateCondBr c if_true if_else
                                 (BasicBlock_Create ''else_body'' parent s)
                           | None \<Rightarrow> CreateCondBr c if_true if_end s);
                      s = SetInsertPoint if_true s
                  in
                    (case accs body s of
                       Inl err \<Rightarrow> Inl err
                     | Inr s \<Rightarrow>
                         let s = CreateBr if_end s;
                             s = SetInsertPoint if_end s
                         in
                           (case else_stmts of
                              None \<Rightarrow> Inr s
                            | Some es \<Rightarrow>
                                (case accs es (SetInsertPoint if_else s) of
                                   Inl err \<Rightarrow> Inl err
                                 | Inr s \<Rightarrow>
                                     let s = CreateBr if_end s;
                                         s = SetInsertPoint if_end s
                                     in Inr s))))))"

lemma visit_AssignVarStatement_cong [fundef_cong]:
  assumes "e = e'" and "s = s'" and "\<And>t. acc e' t = acc' e' t"
  shows "visit_AssignVarStatement env acc ty x e s = visit_AssignVarStatement env acc' ty x e' s'"
proof -
  have "acc e' = acc' e'"
    using assms(3) by auto
  then show ?thesis
    unfolding visit_AssignVarStatement_def assms(1,2) by (simp only:)
qed

lemma visit_If_cong [fundef_cong]:
  assumes "cond = cond'" and "body = body'" and "else_stmts = else_stmts'" and "s = s'"
    and "\<And>t. acc cond' t = acc' cond' t"
    and "\<And>t. accs body' t = accs' body' t"
    and "\<And>es t. else_stmts' = Some es \<Longrightarrow> accs es t = accs' es t"
  shows "visit_If acc accs cond body else_stmts s = visit_If acc' accs' cond' body' else_stmts' s'"
proof -
  have a: "acc cond' = acc' cond'" and b: "accs body' = accs' body'"
    using assms(5,6) by auto
  show ?thesis
  proof (cases else_stmts')
    case None
    show ?thesis
      unfolding visit_If_def assms(1-4) a b None option.case by (simp only:)
  next
    case (Some es)
    have c: "accs es = accs' es"
      using assms(7) Some by auto
    show ?thesis
      unfolding visit_If_def assms(1-4) a b Some option.case c by (simp only:)
  qed
qed

fun accept_stmt :: "BPFtrace \<Rightarrow> statement \<Rightarrow> CodegenLLVM \<Rightarrow> error + CodegenLLVM"
  and accept_stmts :: "BPFtrace \<Rightarrow> statement list \<Rightarrow> CodegenLLVM \<Rightarrow> error + CodegenLLVM" where
  "accept_stmt env (ExprStatement e) s = accept env e s"
| "accept_stmt env (AssignVarStatement ty x e) s =
     visit_AssignVarStatement env (accept env) ty x e s"
| "accept_stmt env (If cond body else_stmts) s =
     visit_If (accept env) (accept_stmts env) cond body else_stmts s"
| "accept_stmts env [] s = Inr s"
| "accept_stmts env (st # sts) s =
     (case accept_stmt env st s of
        Inl err \<Rightarrow> Inl err
      | Inr s \<Rightarrow> accept_stmts env sts s)"

definition visit_Predicate ::
  "(expression \<Rightarrow> CodegenLLVM \<Rightarrow> error + CodegenLLVM) \<Rightarrow> expression \<Rightarrow> CodegenLLVM \<Rightarrow>
   error + CodegenLLVM" where
  "visit_Predicate acc e s =
     (let parent = GetInsertBlock_getParent s;
          pred_false_block = new_block s;
          s = BasicBlock_Create ''pred_false'' parent s;
          pred_true_block = new_block s;
          s = BasicBlock_Create ''pred_true'' parent s
      in
        (case acc e s of
           Inl err \<Rightarrow> Inl err
         | Inr s \<Rightarrow>
             (case expr s of
                None \<Rightarrow> Inl NullPointer
              | Some v \<Rightarrow>
                  let v64 = new_reg s;
                      s = assign_expr (CreateIntCast v 64 False) s;
                      predcond = new_reg s;
                      s = assign_expr (CreateICmp ICMP_EQ v64 (getInt64 0)) s;
                      s = CreateCondBr predcond pred_false_block pred_true_block s;
                      s = SetInsertPoint pred_false_block s;
                      s = CreateRet (ConstInt 64 0) s;
                      s = SetInsertPoint pred_true_block s
                  in Inr s)))"

section \<open>The probe driver\<close>

definition digit_chars :: string where
  "digit_chars = ''0123456789''"

fun nat_to_string :: "nat \<Rightarrow> string" where
  "nat_to_string n =
     (if n < 10 then [digit_chars ! n] else nat_to_string (n div 10) @ [digit_chars ! (n mod 10)])"

declare nat_to_string.simps [simp del]

definition to_string :: "int \<Rightarrow> string" where
  "to_string i = (if i < 0 then ''-'' @ nat_to_string (nat (- i)) else nat_to_string (nat i))"

text \<open>
  The indexes are C++ \<open>int\<close>s. The standard leaves the overflow of \<open>+= 1\<close> undefined;
  it is modelled as the two's-complement wrap-around on 32 bits that the supported
  targets have.
\<close>

definition wrap_int32 :: "int \<Rightarrow> int" where
  "wrap_int32 i = (i + 2 ^ 31) mod 2 ^ 32 - 2 ^ 31"

definition getNextIndexForProbe :: "string \<Rightarrow> CodegenLLVM \<Rightarrow> CodegenLLVM" where
  "getNextIndexForProbe probe_name s =
     (let s = (if next_probe_index s probe_name = None
               then s\<lparr>next_probe_index := (next_probe_index s)(probe_name \<mapsto> 1)\<rparr> else s);
          index = the (next_probe_index s probe_name)
      in s\<lparr>next_probe_index :=
             (next_probe_index s)(probe_name \<mapsto> wrap_int32 (index + 1))\<rparr>)"

text \<open>The index \<open>getNextIndexForProbe\<close> returns: the one stored for the name, or 1.\<close>

definition next_index :: "string \<Rightarrow> CodegenLLVM \<Rightarrow> int" where
  "next_index probe_name s =
     (case next_probe_index s probe_name of None \<Rightarrow> 1 | Some index \<Rightarrow> index)"

definition getSectionNameForProbe :: "string \<Rightarrow> int \<Rightarrow> string" where
  "getSectionNameForProbe probe_name index = ''s_'' @ probe_name @ ''_'' @ to_string index"

text \<open>
  \<open>generateProbe\<close>. The index is also written into the tree (\<open>set_index\<close>) for the
  loader; the lowering never reads it back, so that write is left out.
\<close>

definition generateProbe ::
  "BPFtrace \<Rightarrow> Probe \<Rightarrow> string \<Rightarrow> string \<Rightarrow> bool \<Rightarrow> CodegenLLVM \<Rightarrow> error + CodegenLLVM" where
  "generateProbe env probe full_func_id section_name expansion s =
     (case current_attach_point s of
        None \<Rightarrow> Inl NullPointer
      | Some ap \<Rightarrow>
          let s = (if probetype env (provider ap) = tracepoint
                   then s\<lparr>tracepoint_struct := get_struct_name env full_func_id\<rparr> else s);
              index = next_index (Probe_name env probe) s;
              s = getNextIndexForProbe (Probe_name env probe) s;
              fn = new_func s;
              s = Function_Create ExternalLinkage section_name s;
              s = setSection fn (getSectionNameForProbe section_name index) s;
              entry = new_block s;
              s = BasicBlock_Create ''entry'' fn s;
              s = SetInsertPoint entry s;
              s = s\<lparr>ctx := Arg 0\<rparr>
          in
            (case (case pred probe of
                     None \<Rightarrow> Inr s
                   | Some e \<Rightarrow> visit_Predicate (accept env) e s) of
               Inl err \<Rightarrow> Inl err
             | Inr s \<Rightarrow>
                 let s = s\<lparr>variables := Map.empty\<rparr>
                 in
                   (case accept_stmts env (stmts probe) s of
                      Inl err \<Rightarrow> Inl err
                    | Inr s \<Rightarrow> Inr (CreateRet (ConstInt 64 0) s))))"

text \<open>The eight counters that \<open>visit(Probe&)\<close> saves before it expands a probe.\<close>

record ids =
  starting_printf_id :: int
  starting_cat_id :: int
  starting_system_id :: int
  starting_time_id :: int
  starting_strftime_id :: int
  starting_join_id :: int
  starting_helper_error_id :: int
  starting_non_map_print_id :: int

definition save_ids :: "CodegenLLVM \<Rightarrow> ids" where
  "save_ids s =
     \<lparr>starting_printf_id = printf_id s, starting_cat_id = cat_id s,
      starting_system_id = system_id s, starting_time_id = time_id s,
      starting_strftime_id = strftime_id s, starting_join_id = join_id s,
      starting_helper_error_id = helper_error_id s,
      starting_non_map_print_id = non_map_print_id s\<rparr>"

definition reset_ids :: "ids \<Rightarrow> CodegenLLVM \<Rightarrow> CodegenLLVM" where
  "reset_ids st s =
     s\<lparr>printf_id := starting_printf_id st, cat_id := starting_cat_id st,
       system_id := starting_system_id st, time_id := starting_time_id st,
       strftime_id := starting_strftime_id st, join_id := starting_join_id st,
       helper_error_id := starting_helper_error_id st,
       non_map_print_id := starting_non_map_print_id st\<rparr>"

text \<open>
  The loops of \<open>visit(Probe&)\<close>, innermost first. They take the program generator as the
  parameter \<open>gen\<close>; \<open>visit_Probe\<close> passes \<open>generateProbe\<close>.
\<close>

type_synonym generator = "Probe \<Rightarrow> string \<Rightarrow> string \<Rightarrow> bool \<Rightarrow> CodegenLLVM \<Rightarrow> error + CodegenLLVM"

fun usdt_locations ::
  "generator \<Rightarrow> ids \<Rightarrow> Probe \<Rightarrow> string \<Rightarrow> int list \<Rightarrow> CodegenLLVM \<Rightarrow> error + CodegenLLVM" where
  "usdt_locations gen st probe match [] s = Inr s"
| "usdt_locations gen st probe match (i # rest) s =
     (let s = reset_ids st s;
          loc_suffix = ''_loc'' @ to_string i;
          full_func_id = match @ loc_suffix;
          section_name = probefull s @ loc_suffix
      in
        (case gen probe full_func_id section_name True s of
           Inl err \<Rightarrow> Inl err
         | Inr s \<Rightarrow>
             usdt_locations gen st probe match rest
               (s\<lparr>current_usdt_location_index := current_usdt_location_index s + 1\<rparr>)))"

text \<open>
  One match of the attach point at position \<open>k\<close> of the probe. For a USDT probe the
  source rewrites the target and the namespace of that attach point in place while it
  names and generates the programs, and restores them afterwards: the programs are
  generated for the probe with the rewritten attach point.
\<close>

definition expand_match ::
  "BPFtrace \<Rightarrow> generator \<Rightarrow> ids \<Rightarrow> Probe \<Rightarrow> nat \<Rightarrow> string \<Rightarrow> CodegenLLVM \<Rightarrow>
   error + CodegenLLVM" where
  "expand_match env gen st probe k match s =
     (let ap = attach_points probe ! k;
          s = reset_ids st s in
        if probetype env (provider ap) = usdt then
          (let func_id = match;
               target' = fst (erase_prefix env func_id);
               func_id = snd (erase_prefix env func_id);
               ns' = fst (erase_prefix env func_id);
               func_id = snd (erase_prefix env func_id);
               ap' = ap\<lparr>target := target', ns := ns'\<rparr>;
               probe' = probe\<lparr>attach_points := (attach_points probe)[k := ap']\<rparr>;
               s = s\<lparr>current_attach_point := Some ap'\<rparr>;
               s = s\<lparr>probefull := AttachPoint_name env ap' func_id\<rparr>
           in
             (case USDTHelper_find env (pid env) target' ns' func_id of
                None \<Rightarrow> Inl (RuntimeError (''Failed to find usdt probe: '' @ probefull s))
              | Some u \<Rightarrow>
                  (case usdt_locations gen st probe' match (map int [0..<nat (num_locations u)])
                          (s\<lparr>current_usdt_location_index := 0\<rparr>) of
                     Inl err \<Rightarrow> Inl err
                   | Inr s \<Rightarrow> Inr (s\<lparr>current_attach_point := Some ap\<rparr>))))
        else
          (let s =
             (if provider ap = ''BEGIN'' \<or> provider ap = ''END'' then
                s\<lparr>probefull := provider ap\<rparr>
              else if probetype env (provider ap) = tracepoint \<or>
                      probetype env (provider ap) = uprobe \<or>
                      probetype env (provider ap) = uretprobe then
                (let category = fst (erase_prefix env match);
                     fn_name = snd (erase_prefix env match)
                 in s\<lparr>probefull := AttachPoint_name2 env ap category fn_name\<rparr>)
              else s\<lparr>probefull := AttachPoint_name env ap match\<rparr>)
           in gen probe match (probefull s) True s))"

fun expand_matches ::
  "BPFtrace \<Rightarrow> generator \<Rightarrow> ids \<Rightarrow> Probe \<Rightarrow> nat \<Rightarrow> string list \<Rightarrow> CodegenLLVM \<Rightarrow>
   error + CodegenLLVM" where
  "expand_matches env gen st probe k [] s = Inr s"
| "expand_matches env gen st probe k (match # rest) s =
     (case expand_match env gen st probe k match s of
        Inl err \<Rightarrow> Inl err
      | Inr s \<Rightarrow> expand_matches env gen st probe k rest s)"

text \<open>The loop over the attach points of the probe, by position.\<close>

fun expand_attach_points ::
  "BPFtrace \<Rightarrow> generator \<Rightarrow> ids \<Rightarrow> Probe \<Rightarrow> nat list \<Rightarrow> CodegenLLVM \<Rightarrow>
   error + CodegenLLVM" where
  "expand_attach_points env gen st probe [] s = Inr s"
| "expand_attach_points env gen st probe (k # rest) s =
     (let ap = attach_points probe ! k;
          s = s\<lparr>current_attach_point := Some ap\<rparr>;
          matches = (if provider ap = ''BEGIN'' \<or> provider ap = ''END'' then [provider ap]
                     else find_wildcard_matches env ap);
          s = s\<lparr>tracepoint_struct := []\<rparr>
      in
        (case expand_matches env gen st probe k matches s of
           Inl err \<Rightarrow> Inl err
         | Inr s \<Rightarrow> expand_attach_points env gen st probe rest s))"

text \<open>
  \<open>visit(Probe&)\<close>. \<open>bpftrace_.add_probe\<close> hands the probe to the runtime and leaves
  the generator as it is.
\<close>

definition visit_Probe_with ::
  "generator \<Rightarrow> BPFtrace \<Rightarrow> Probe \<Rightarrow> CodegenLLVM \<Rightarrow> error + CodegenLLVM" where
  "visit_Probe_with gen env probe s =
     (if attach_points probe = [] then Inl OutOfRange
      else
        let attach_point = hd (attach_points probe);
            probe = (if probetype env (provider attach_point) = usdt
                     then probe\<lparr>need_expansion := True\<rparr> else probe);
            s = s\<lparr>current_attach_point := Some attach_point\<rparr>
        in
          (case
             (if need_expansion probe = False then
                (let s = s\<lparr>probefull := Probe_name env probe\<rparr>
                 in gen probe (probefull s) (probefull s) False s)
              else
                expand_attach_points env gen (save_ids s) probe
                  [0..<length (attach_points probe)] s) of
             Inl err \<Rightarrow> Inl err
           | Inr s \<Rightarrow> Inr (s\<lparr>current_attach_point := None\<rparr>)))"

definition visit_Probe :: "BPFtrace \<Rightarrow> Probe \<Rightarrow> CodegenLLVM \<Rightarrow> error + CodegenLLVM" where
  "visit_Probe env probe s = visit_Probe_with (generateProbe env) env probe s"

fun visit_Program :: "BPFtrace \<Rightarrow> Probe list \<Rightarrow> CodegenLLVM \<Rightarrow> error + CodegenLLVM" where
  "visit_Program env [] s = Inr s"
| "visit_Program env (probe # probes) s =
     (case visit_Probe env probe s of
        Inl err \<Rightarrow> Inl err
      | Inr s \<Rightarrow> visit_Program env probes s)"


definition result_of :: "outcome \<Rightarrow> rtval option" where
  "result_of out = (case out of Returned v m \<Rightarrow> Some v | _ \<Rightarrow> None)"

definition u64 :: "int \<Rightarrow> bool" where
  "u64 x = (0 \<le> x \<and> x < 2 ^ 64)"

text \<open>
  The bucket as the specification words it, with every comparison and operation unsigned
  on 64 bits.
\<close>

definition linear_unsigned_spec :: "int \<Rightarrow> int \<Rightarrow> int \<Rightarrow> int \<Rightarrow> int" where
  "linear_unsigned_spec v mn mx st =
     (if v < mn then 0
      else if mx < v then (1 + ((mx - mn) mod 2 ^ 64) div st) mod 2 ^ 64
      else (1 + ((v - mn) mod 2 ^ 64) div st) mod 2 ^ 64)"

text \<open>
  The generator as its constructor leaves it: an empty module, no insertion point yet
  (the driver sets one before it lowers anything), every counter at zero.
\<close>

definition init_codegen :: CodegenLLVM where
  "init_codegen =
     \<lparr>funcs = [], blocks = (\<lambda>_. []), block_name = (\<lambda>_. []), block_parent = (\<lambda>_. 0),
      next_block = 0, next_reg = 0, insert_block = 0, helper_error_id = 0,
      expr = None, ctx = Arg 0, variables = Map.empty,
      printf_id = 0, cat_id = 0, system_id = 0, time_id = 0, strftime_id = 0,
      join_id = 0, non_map_print_id = 0, next_probe_index = Map.empty,
      probefull = [], tracepoint_struct = [], current_usdt_location_index = 0,
      current_attach_point = None\<rparr>"

section \<open>A concrete environment and concrete probes\<close>

text \<open>
  The concrete instances below run the generator in this environment: integers and
  pointers are register values, the \<open>strftime\<close> record has two 64-bit fields, the
  parts of a name are joined with colons (empty parts left out) and the names of the
  attach points of a probe with commas, \<open>erase_prefix\<close> splits at the first colon, a
  USDT attach point matches its own target, namespace and function, any other attach
  point matches \<open>f1\<close> and \<open>f2\<close>, and every USDT probe has two locations.
\<close>

fun colon_join :: "string list \<Rightarrow> string" where
  "colon_join [] = []"
| "colon_join (x # xs) =
     (if x = [] then colon_join xs
      else if colon_join xs = [] then x else x @ '':'' @ colon_join xs)"

fun comma_join :: "string list \<Rightarrow> string" where
  "comma_join [] = []"
| "comma_join [x] = x"
| "comma_join (x # y # xs) = x @ '','' @ comma_join (y # xs)"

definition split_colon :: "string \<Rightarrow> string \<times> string" where
  "split_colon str = (takeWhile (\<lambda>c. c \<noteq> CHR '':'') str, drop 1 (dropWhile (\<lambda>c. c \<noteq> CHR '':'') str))"

definition env0 :: BPFtrace where
  "env0 =
     \<lparr>needMemcpy = (\<lambda>t. kind t \<noteq> IntTy \<and> kind t \<noteq> PtrTy),
      asyncactionint_exit = 30000,
      Strftime_asLLVMType = [Int_t 64, Int_t 64],
      probetype = (\<lambda>p. if p = ''usdt'' then usdt
                        else if p = ''tracepoint'' then tracepoint
                        else if p = ''uprobe'' then uprobe
                        else if p = ''uretprobe'' then uretprobe else other_probe),
      find_wildcard_matches =
        (\<lambda>ap. if provider ap = ''usdt''
              then [target ap @ '':'' @ ns ap @ '':'' @ ap_func ap] else [''f1'', ''f2'']),
      pid = 0,
      USDTHelper_find = (\<lambda>p t n f. Some \<lparr>num_locations = 2\<rparr>),
      erase_prefix = split_colon,
      AttachPoint_name = (\<lambda>ap f. colon_join [provider ap, target ap, ns ap, f]),
      AttachPoint_name2 = (\<lambda>ap c f. colon_join [provider ap, c, ns ap, f]),
      Probe_name =
        (\<lambda>p. comma_join
               (map (\<lambda>ap. colon_join [provider ap, target ap, ns ap, ap_func ap])
                  (attach_points p))),
      get_struct_name = (\<lambda>f. ''struct _tracepoint_'' @ f)\<rparr>"

definition int64 :: "int \<Rightarrow> expression" where
  "int64 n = Integer CreateInt64 n"

definition kprobe_f :: AttachPoint where
  "kprobe_f = \<lparr>provider = ''kprobe'', target = [], ns = [], ap_func = ''f*''\<rparr>"

definition usdt_probe1 :: AttachPoint where
  "usdt_probe1 = \<lparr>provider = ''usdt'', target = ''libfoo'', ns = [], ap_func = ''probe1''\<rparr>"

text \<open>The state in which \<open>generateProbe\<close> starts to lower a body: one function with
  its entry block, and the insertion point in it.\<close>

definition entry_state :: CodegenLLVM where
  "entry_state =
     SetInsertPoint 0
       (BasicBlock_Create ''entry'' 0 (Function_Create ExternalLinkage ''kprobe:f'' init_codegen))"

text \<open>Every instruction of the module, block after block.\<close>

definition all_instrs :: "CodegenLLVM \<Rightarrow> instr list" where
  "all_instrs s = concat (map (blocks s) [0..<next_block s])"

definition block_list :: "error + CodegenLLVM \<Rightarrow> error + instr list list" where
  "block_list r = (case r of Inl e \<Rightarrow> Inl e | Inr s \<Rightarrow> Inr (map (blocks s) [0..<next_block s]))"


text \<open>
  The program for \<open>@m = min(n)\<close> on a literal, run once on a map with no entry: the
  value the map holds for the key afterwards, and the blocks the run entered.
\<close>

definition min_of_literal :: "int \<Rightarrow> (int option \<times> label list) option" where
  "min_of_literal n =
     (case accept env0 (Call CreateInt64 ''min'' (Some \<lparr>ident = ''@m'', map_type = CreateInt64\<rparr>)
             [int64 n]) entry_state of
        Inl e \<Rightarrow> None
      | Inr s \<Rightarrow>
          (case exec (blocks s) 20 0 0 (init_machine [] (\<lambda>_. Map.empty)) of
             FellOff m \<Rightarrow> Some (maps m ''@m'' 0, path m)
           | _ \<Rightarrow> None))"

definition inverted_of :: "int \<Rightarrow> int" where
  "inverted_of n = (4294967295 - n mod 2 ^ 64) mod 2 ^ 64"

text \<open>
  A generator that refuses to run unless the eight counters equal \<open>st\<close>. It observes the
  driver; the source has no counterpart.
\<close>

definition at_baseline :: "ids \<Rightarrow> generator \<Rightarrow> generator" where
  "at_baseline st gen probe full_func_id section_name expansion s =
     (if save_ids s = st then gen probe full_func_id section_name expansion s
      else Inl (Fatal ''counters differ from the snapshot''))"

text \<open>\<open>kprobe:f* { strftime(0, 5); }\<close>, to be expanded.\<close>

definition strftime_stmt :: statement where
  "strftime_stmt = ExprStatement (Call CreateUInt64 ''strftime'' None [int64 0, int64 5])"

definition kprobe_wild :: Probe where
  "kprobe_wild =
     \<lparr>pred = None, stmts = [strftime_stmt], attach_points = [kprobe_f], need_expansion = True\<rparr>"

text \<open>
  \<open>usdt:libfoo:probe1 { strftime(0, 5); }\<close>, a generator that moves every one of the
  eight counters after it has generated a program, and a state in which two of the
  counters are not zero.
\<close>

definition usdt_strftime :: Probe where
  "usdt_strftime =
     \<lparr>pred = None, stmts = [strftime_stmt], attach_points = [usdt_probe1],
      need_expansion = False\<rparr>"

definition bump_ids :: "CodegenLLVM \<Rightarrow> CodegenLLVM" where
  "bump_ids s =
     s\<lparr>printf_id := printf_id s + 1, cat_id := cat_id s + 1, system_id := system_id s + 1,
       time_id := time_id s + 1, strftime_id := strftime_id s + 1, join_id := join_id s + 1,
       helper_error_id := helper_error_id s + 1, non_map_print_id := non_map_print_id s + 1\<rparr>"

definition moving_generator :: generator where
  "moving_generator probe full_func_id section_name expansion s =
     (case generateProbe env0 probe full_func_id section_name expansion s of
        Inl err \<Rightarrow> Inl err
      | Inr t \<Rightarrow> Inr (bump_ids t))"

definition counters_state :: CodegenLLVM where
  "counters_state = init_codegen\<lparr>printf_id := 3, strftime_id := 7\<rparr>"

text \<open>\<open>usdt:libfoo:probe1 { @ = count(); }\<close>, and the section of every function of a
  module.\<close>

definition usdt_count :: Probe where
  "usdt_count =
     \<lparr>pred = None,
      stmts = [ExprStatement
                 (Call CreateUInt64 ''count'' (Some \<lparr>ident = ''@'', map_type = CreateUInt64\<rparr>) [])],
      attach_points = [usdt_probe1], need_expansion = False\<rparr>"

definition sections :: "error + CodegenLLVM \<Rightarrow> error + string list" where
  "sections r = (case r of Inl e \<Rightarrow> Inl e | Inr s \<Rightarrow> Inr (map fsection (funcs s)))"

section \<open>Observations on the emitted module\<close>

text \<open>
  The definitions of this section have no counterpart in the source: they observe the
  module that the generator has built. \<open>ip_ok\<close> says that the builder's insertion
  point is a block that has been created. \<open>def_reg\<close> is the register an instruction
  defines, \<open>labels\<close> are the blocks a terminator may branch to, and \<open>cnt P\<close> counts
  the instructions of the module that satisfy \<open>P\<close>.
\<close>

definition ip_ok :: "CodegenLLVM \<Rightarrow> bool" where
  "ip_ok s = (insert_block s < next_block s)"

fun def_reg :: "instr \<Rightarrow> nat option" where
  "def_reg (AllocaBPF r ty nm) = Some r"
| "def_reg (AllocaBPFInit r ty nm) = Some r"
| "def_reg (Load r p) = Some r"
| "def_reg (ICmp r c a b) = Some r"
| "def_reg (Arith r opn a b) = Some r"
| "def_reg (IntCast r v bits sg) = Some r"
| "def_reg (GEP r p idx) = Some r"
| "def_reg (MapLookupElem r m key) = Some r"
| "def_reg _ = None"

fun labels :: "instr \<Rightarrow> label list" where
  "labels (CondBr c t f) = [t, f]"
| "labels (Br l) = [l]"
| "labels _ = []"

definition cnt :: "(instr \<Rightarrow> bool) \<Rightarrow> CodegenLLVM \<Rightarrow> nat" where
  "cnt P s = length (filter P (all_instrs s))"

definition branches_to :: "label \<Rightarrow> instr \<Rightarrow> bool" where
  "branches_to l i = (l \<in> set (labels i))"

definition defines_reg :: "nat \<Rightarrow> instr \<Rightarrow> bool" where
  "defines_reg r i = (def_reg i = Some r)"

text \<open>The instruction allocates the initialized slot \<open>r\<close> for the variable \<open>x\<close>.\<close>

definition slot_alloca :: "nat \<Rightarrow> string \<Rightarrow> instr \<Rightarrow> bool" where
  "slot_alloca r x i = (case i of AllocaBPFInit r' ty nm \<Rightarrow> r' = r \<and> nm = x | _ \<Rightarrow> False)"

text \<open>
  What one lowering step may do to the generator, from the state \<open>s\<close> before it to
  the state \<open>s'\<close> after it: the insertion point stays a created block, and it is the
  old one or a block created since; blocks and registers are only added; a block that
  existed keeps its instructions, and only the block of the old insertion point may
  have got more at its end; the functions, the section indexes, the context pointer,
  the attach point and the probe name are the same; a variable that has a slot keeps
  it, and a new slot is a register allocated since, by an instruction of the module
  that allocates an initialized slot for the variable; no new instruction branches to a
  block that existed; every register allocated since is defined by exactly one new
  instruction; no instruction has been removed.
\<close>

definition ext :: "CodegenLLVM \<Rightarrow> CodegenLLVM \<Rightarrow> bool" where
  "ext s s' =
     (insert_block s' < next_block s' \<and>
      next_block s \<le> next_block s' \<and>
      next_reg s \<le> next_reg s' \<and>
      (insert_block s' = insert_block s \<or> next_block s \<le> insert_block s') \<and>
      (\<forall>b. b < next_block s \<longrightarrow> b \<noteq> insert_block s \<longrightarrow> blocks s' b = blocks s b) \<and>
      take (length (blocks s (insert_block s))) (blocks s' (insert_block s)) =
        blocks s (insert_block s) \<and>
      funcs s' = funcs s \<and> next_probe_index s' = next_probe_index s \<and> ctx s' = ctx s \<and>
      current_attach_point s' = current_attach_point s \<and> probefull s' = probefull s \<and>
      (\<forall>x p. variables s x = Some p \<longrightarrow> variables s' x = Some p) \<and>
      (\<forall>x p. variables s' x = Some (Some p) \<longrightarrow>
         variables s x = Some (Some p) \<or>
         (\<exists>r. p = Reg r \<and> next_reg s \<le> r \<and> r < next_reg s' \<and>
              0 < cnt (slot_alloca r x) s')) \<and>
      (\<forall>l. l < next_block s \<longrightarrow> cnt (branches_to l) s' = cnt (branches_to l) s) \<and>
      (\<forall>r. cnt (defines_reg r) s' =
         cnt (defines_reg r) s + (if next_reg s \<le> r \<and> r < next_reg s' then 1 else 0)) \<and>
      (\<forall>P. cnt P s \<le> cnt P s'))"

text \<open>
  The state in which \<open>generateProbe\<close> starts to lower the predicate: the head of
  \<open>generateProbe\<close>, up to the assignment of \<open>ctx_\<close>.
\<close>

definition probe_head ::
  "BPFtrace \<Rightarrow> Probe \<Rightarrow> string \<Rightarrow> string \<Rightarrow> AttachPoint \<Rightarrow> CodegenLLVM \<Rightarrow> CodegenLLVM" where
  "probe_head env probe full_func_id section_name ap s =
     (let s = (if probetype env (provider ap) = tracepoint
               then s\<lparr>tracepoint_struct := get_struct_name env full_func_id\<rparr> else s);
          index = next_index (Probe_name env probe) s;
          s = getNextIndexForProbe (Probe_name env probe) s;
          fn = new_func s;
          s = Function_Create ExternalLinkage section_name s;
          s = setSection fn (getSectionNameForProbe section_name index) s;
          entry = new_block s;
          s = BasicBlock_Create ''entry'' fn s;
          s = SetInsertPoint entry s;
          s = s\<lparr>ctx := Arg 0\<rparr>
      in s)"

text \<open>
  The instructions that the claim on \<open>exit\<close> names: a 64-bit record that holds the
  action number, handed to \<open>perf_event_output\<close> with its size, then released, and the
  return of 0.
\<close>

definition exit_code :: "BPFtrace \<Rightarrow> CodegenLLVM \<Rightarrow> instr list" where
  "exit_code env s =
     [AllocaBPF (next_reg s) (Int_t 64) ''perfdata'',
      Store (ConstInt 64 (asyncactionint_exit env)) (Reg (next_reg s)),
      PerfEventOutput (ctx s) (Reg (next_reg s)) 8,
      LifetimeEnd (Reg (next_reg s)),
      Ret (ConstInt 64 0)]"

text \<open>\<open>exit()\<close> and \<open>@ = count();\<close>.\<close>

definition exit_call :: expression where
  "exit_call = Call \<lparr>kind = NoneTy, size_bytes = 0, is_signed = False\<rparr> ''exit'' None []"

definition count_stmt :: statement where
  "count_stmt =
     ExprStatement
       (Call CreateUInt64 ''count'' (Some \<lparr>ident = ''@'', map_type = CreateUInt64\<rparr>) [])"

text \<open>
  The function that the claim on section names expects for a program: the name it was
  generated under, and the section \<open>s_\<close>, that name, \<open>_\<close> and the index. \<open>next_int32\<close>
  is the index after a given one.
\<close>

definition program :: "string \<Rightarrow> int \<Rightarrow> ir_function" where
  "program name index =
     \<lparr>fname = name, flinkage = ExternalLinkage,
      fsection = ''s_'' @ name @ ''_'' @ to_string index, always_inline = False\<rparr>"

definition next_int32 :: "int \<Rightarrow> int" where
  "next_int32 i = wrap_int32 (i + 1)"

text \<open>
  \<open>kprobe:f* { @ = count(); }\<close>, not to be expanded, and the state in which
  \<open>visit(Probe&)\<close> handles the only match of \<open>usdt:libfoo:probe1\<close>.
\<close>

definition kprobe_plain :: Probe where
  "kprobe_plain =
     \<lparr>pred = None, stmts = [count_stmt], attach_points = [kprobe_f], need_expansion = False\<rparr>"

definition usdt_match_state :: CodegenLLVM where
  "usdt_match_state = init_codegen\<lparr>current_attach_point := Some usdt_probe1\<rparr>"

text \<open>
  The parts of \<open>createLogicalAnd\<close> before, between and after the lowering of its two
  operands, as functions of the state: the four blocks and the result slot; the test of
  the left value and the branch on it; the test of the right value and the three blocks
  that store the result and load it. \<open>s0\<close> is the state in which \<open>createLogicalAnd\<close>
  was entered.
\<close>

definition land_head :: "CodegenLLVM \<Rightarrow> CodegenLLVM" where
  "land_head s =
     (let parent = GetInsertBlock_getParent s;
          s = BasicBlock_Create ''&&_lhs_true'' parent s;
          s = BasicBlock_Create ''&&_true'' parent s;
          s = BasicBlock_Create ''&&_false'' parent s;
          s = BasicBlock_Create ''&&_merge'' parent s;
          s = CreateAllocaBPF (Int_t 64) ''&&_result'' s
      in s)"

definition land_branch :: "val \<Rightarrow> CodegenLLVM \<Rightarrow> CodegenLLVM \<Rightarrow> CodegenLLVM" where
  "land_branch lhs s0 s =
     (let c = new_reg s;
          s = CreateICmp ICMP_NE lhs (GetIntSameSize 0 lhs) s;
          s = CreateCondBr c (next_block s0) (next_block s0 + 2) s;
          s = SetInsertPoint (next_block s0) s
      in s)"

definition land_tail :: "val \<Rightarrow> CodegenLLVM \<Rightarrow> CodegenLLVM \<Rightarrow> CodegenLLVM" where
  "land_tail rhs s0 s =
     (let c = new_reg s;
          s = CreateICmp ICMP_NE rhs (GetIntSameSize 0 rhs) s;
          s = CreateCondBr c (next_block s0 + 1) (next_block s0 + 2) s;
          s = SetInsertPoint (next_block s0 + 1) s;
          s = CreateStore (getInt64 1) (new_reg s0) s;
          s = CreateBr (next_block s0 + 3) s;
          s = SetInsertPoint (next_block s0 + 2) s;
          s = CreateStore (getInt64 0) (new_reg s0) s;
          s = CreateBr (next_block s0 + 3) s;
          s = SetInsertPoint (next_block s0 + 3) s;
          v = new_reg s;
          s = CreateLoad (new_reg s0) s
      in s\<lparr>expr := Some v\<rparr>)"

text \<open>The same for \<open>createLogicalOr\<close>.\<close>

definition lor_head :: "CodegenLLVM \<Rightarrow> CodegenLLVM" where
  "lor_head s =
     (let parent = GetInsertBlock_getParent s;
          s = BasicBlock_Create ''||_lhs_false'' parent s;
          s = BasicBlock_Create ''||_false'' parent s;
          s = BasicBlock_Create ''||_true'' parent s;
          s = BasicBlock_Create ''||_merge'' parent s;
          s = CreateAllocaBPF (Int_t 64) ''||_result'' s
      in s)"

definition lor_branch :: "val \<Rightarrow> CodegenLLVM \<Rightarrow> CodegenLLVM \<Rightarrow> CodegenLLVM" where
  "lor_branch lhs s0 s =
     (let c = new_reg s;
          s = CreateICmp ICMP_NE lhs (GetIntSameSize 0 lhs) s;
          s = CreateCondBr c (next_block s0 + 2) (next_block s0) s;
          s = SetInsertPoint (next_block s0) s
      in s)"

definition lor_tail :: "val \<Rightarrow> CodegenLLVM \<Rightarrow> CodegenLLVM \<Rightarrow> CodegenLLVM" where
  "lor_tail rhs s0 s =
     (let c = new_reg s;
          s = CreateICmp ICMP_NE rhs (GetIntSameSize 0 rhs) s;
          s = CreateCondBr c (next_block s0 + 2) (next_block s0 + 1) s;
          s = SetInsertPoint (next_block s0 + 1) s;
          s = CreateStore (getInt64 0) (new_reg s0) s;
          s = CreateBr (next_block s0 + 3) s;
          s = SetInsertPoint (next_block s0 + 2) s;
          s = CreateStore (getInt64 1) (new_reg s0) s;
          s = CreateBr (next_block s0 + 3) s;
          s = SetInsertPoint (next_block s0 + 3) s;
          v = new_reg s;
          s = CreateLoad (new_reg s0) s
      in s\<lparr>expr := Some v\<rparr>)"

text \<open>
  \<open>1 / 0\<close>, whose code cannot run, and the run of the code of an expression lowered in
  the entry block: the blocks the run entered after the entry block, and the value of
  the expression at the end.
\<close>

definition div_by_zero :: expression where
  "div_by_zero = Binop CreateInt64 (int64 1) DIV (int64 0)"

definition short_run :: "error + CodegenLLVM \<Rightarrow> (label list \<times> rtval option) option" where
  "short_run r =
     (case r of
        Inl e \<Rightarrow> None
      | Inr s \<Rightarrow>
          (case exec (blocks s) 7 0 0 (init_machine [] (\<lambda>_. Map.empty)) of
             FellOff m \<Rightarrow>
               Some (path m, (case expr s of Some v \<Rightarrow> eval_val m v | None \<Rightarrow> None))
           | _ \<Rightarrow> None))"

text \<open>
  \<open>kprobe:f* { $x = 1; $x = $x + 2; }\<close>, and a state in which \<open>generateProbe\<close> can
  be called for it.
\<close>

definition var_probe :: Probe where
  "var_probe =
     \<lparr>pred = None,
      stmts = [AssignVarStatement CreateInt64 ''$x'' (int64 1),
               AssignVarStatement CreateInt64 ''$x''
                 (Binop CreateInt64 (Variable CreateInt64 ''$x'') PLUS (int64 2))],
      attach_points = [kprobe_f], need_expansion = False\<rparr>"

definition kprobe_state :: CodegenLLVM where
  "kprobe_state = init_codegen\<lparr>current_attach_point := Some kprobe_f\<rparr>"

text \<open>
  The instructions that allocate a stack slot by a call of \<open>CreateAllocaBPF\<close> in the
  generator and those that end the lifetime of one, in general and for the slot of the
  register \<open>r\<close>. The initialized slot of a variable, which the generator allocates
  with \<open>CreateAllocaBPFInit\<close>, is the instruction that \<open>slot_alloca\<close> observes.
\<close>

definition is_alloca :: "instr \<Rightarrow> bool" where
  "is_alloca i = (case i of AllocaBPF r ty nm \<Rightarrow> True | _ \<Rightarrow> False)"

definition is_end :: "instr \<Rightarrow> bool" where
  "is_end i = (case i of LifetimeEnd v \<Rightarrow> True | _ \<Rightarrow> False)"

definition allocates :: "nat \<Rightarrow> instr \<Rightarrow> bool" where
  "allocates r i = (case i of AllocaBPF r' ty nm \<Rightarrow> r' = r | _ \<Rightarrow> False)"

definition ends :: "nat \<Rightarrow> instr \<Rightarrow> bool" where
  "ends r i = (i = LifetimeEnd (Reg r))"

text \<open>
  \<open>balance k r s s'\<close>: from \<open>s\<close> to \<open>s'\<close> the module has got \<open>k\<close> more allocations
  than lifetime-ends, and at most as many lifetime-ends of the slot \<open>r\<close> as allocations
  of it.
\<close>

definition balance :: "nat \<Rightarrow> nat \<Rightarrow> CodegenLLVM \<Rightarrow> CodegenLLVM \<Rightarrow> bool" where
  "balance k r s s' =
     (cnt is_alloca s' + cnt is_end s = cnt is_alloca s + cnt is_end s' + k \<and>
      cnt (ends r) s' + cnt (allocates r) s \<le> cnt (ends r) s + cnt (allocates r) s')"

text \<open>
  The allocations of a lowering that it does not end: one for each \<open>&&\<close> and \<open>||\<close>
  (the result slot) and one for each \<open>strftime\<close> (the record), in the operands and
  arguments that are lowered.
\<close>

fun unreleased :: "expression \<Rightarrow> nat" where
  "unreleased (Integer ty n) = 0"
| "unreleased (Variable ty x) = 0"
| "unreleased (Binop ty l opr r) =
     (if opr = LAND \<or> opr = LOR then 1 else 0) + unreleased l + unreleased r"
| "unreleased (Call ty func mp vargs) =
     (if func = ''sum'' \<or> func = ''min'' \<or> func = ''max'' then
        (case vargs of [] \<Rightarrow> 0 | a # as \<Rightarrow> unreleased a)
      else if func = ''strftime'' then
        (case vargs of a # b # bs \<Rightarrow> 1 + unreleased b | _ \<Rightarrow> 1)
      else 0)"

fun unreleased_stmt :: "statement \<Rightarrow> nat"
  and unreleased_stmts :: "statement list \<Rightarrow> nat" where
  "unreleased_stmt (ExprStatement e) = unreleased e"
| "unreleased_stmt (AssignVarStatement ty x e) = unreleased e"
| "unreleased_stmt (If cond body else_stmts) =
     unreleased cond + unreleased_stmts body +
     (case else_stmts of None \<Rightarrow> 0 | Some es \<Rightarrow> unreleased_stmts es)"
| "unreleased_stmts [] = 0"
| "unreleased_stmts (st # sts) = unreleased_stmt st + unreleased_stmts sts"

definition unreleased_probe :: "Probe \<Rightarrow> nat" where
  "unreleased_probe probe =
     (case pred probe of None \<Rightarrow> 0 | Some e \<Rightarrow> unreleased e) + unreleased_stmts (stmts probe)"

text \<open>
  \<open>kprobe:f* { $x = 1 && 1; }\<close>, and the run of the first program of a module from
  its entry block to its return: the blocks entered and the slots that are live at the
  return.
\<close>

definition logical_probe :: Probe where
  "logical_probe =
     \<lparr>pred = None,
      stmts = [AssignVarStatement CreateInt64 ''$x''
                 (Binop CreateInt64 (int64 1) LAND (int64 1))],
      attach_points = [kprobe_f], need_expansion = False\<rparr>"

definition live_at_return :: "error + CodegenLLVM \<Rightarrow> (label list \<times> nat list) option" where
  "live_at_return r =
     (case r of
        Inl e \<Rightarrow> None
      | Inr s \<Rightarrow>
          (case exec (blocks s) 20 0 0 (init_machine [] (\<lambda>_. Map.empty)) of
             Returned v m \<Rightarrow> Some (path m, live m)
           | _ \<Rightarrow> None))"

(*PROPERTIES*)

section \<open>Properties of the linear-histogram helper\<close>

lemma exec_numeral:
  "exec bl (numeral k) b pc m =
     (if length (bl b) \<le> pc then FellOff m
      else
        (case bl b ! pc of
           Br l \<Rightarrow> exec bl (pred_numeral k) l 0 (m\<lparr>path := path m @ [l]\<rparr>)
         | CondBr c t f \<Rightarrow>
             (case eval_val m c of
                Some (IntV w x) \<Rightarrow>
                  (let l = (if x \<noteq> 0 then t else f)
                   in exec bl (pred_numeral k) l 0 (m\<lparr>path := path m @ [l]\<rparr>))
              | _ \<Rightarrow> Stuck m)
         | Ret v \<Rightarrow> (case eval_val m v of Some x \<Rightarrow> Returned x m | None \<Rightarrow> Stuck m)
         | i \<Rightarrow>
             (case step i m of
                Some m' \<Rightarrow> exec bl (pred_numeral k) b (Suc pc) m'
              | None \<Rightarrow> Stuck m)))"
  by (simp add: numeral_eq_Suc)

lemma run_linear_below:
  assumes "sint 64 v < sint 64 mn"
  shows "result_of (run_linear s0 v mn mx st) = Some (IntV 64 0)"
  using assms
  apply (simp add: run_linear_def createLinearFunction_def builder_defs Let_def
      cong: let_weak_cong)
  apply (simp add: exec_numeral init_machine_def set_reg_def eval_icmp_def result_of_def)
  done

lemma run_linear_above:
  assumes "\<not> sint 64 v < sint 64 mn" and "sint 64 mx < sint 64 v" and "st \<noteq> 0"
  shows "result_of (run_linear s0 v mn mx st) =
    Some (IntV 64 (((mx - mn) mod 2 ^ 64 div st + 1) mod 2 ^ 64))"
  using assms
  apply (simp add: run_linear_def createLinearFunction_def builder_defs Let_def
      cong: let_weak_cong)
  apply (simp add: exec_numeral init_machine_def set_reg_def eval_icmp_def eval_arith_def
      result_of_def)
  done

lemma run_linear_inside:
  assumes "\<not> sint 64 v < sint 64 mn" and "\<not> sint 64 mx < sint 64 v" and "st \<noteq> 0"
  shows "result_of (run_linear s0 v mn mx st) =
    Some (IntV 64 (((v - mn) mod 2 ^ 64 div st + 1) mod 2 ^ 64))"
  using assms
  apply (simp add: run_linear_def createLinearFunction_def builder_defs Let_def
      cong: let_weak_cong)
  apply (simp add: exec_numeral init_machine_def set_reg_def eval_icmp_def eval_arith_def
      result_of_def)
  done

text \<open>
  C3 (as amended). Called with 64-bit arguments and a step that is not zero, the
  synthesized helper returns 0 when \<open>value < min\<close>, \<open>1 + (max - min) / step\<close> when
  \<open>value > max\<close>, and \<open>1 + (value - min) / step\<close> otherwise, where the two range
  comparisons are signed (two's complement on 64 bits), and the subtraction, the
  division and the addition are unsigned and wrap at \<open>2 ^ 64\<close>. The helper can be
  created in any state of the generator.
\<close>

theorem C3_linear_bucket_signed_compare:
  assumes "u64 v" and "u64 mn" and "u64 mx" and "u64 st" and "st \<noteq> 0"
  shows "result_of (run_linear s0 v mn mx st) =
    Some (IntV 64
      (if sint 64 v < sint 64 mn then 0
       else if sint 64 mx < sint 64 v then (1 + ((mx - mn) mod 2 ^ 64) div st) mod 2 ^ 64
       else (1 + ((v - mn) mod 2 ^ 64) div st) mod 2 ^ 64))"
proof (cases "sint 64 v < sint 64 mn")
  case True
  then show ?thesis by (simp add: run_linear_below)
next
  case below: False
  show ?thesis
  proof (cases "sint 64 mx < sint 64 v")
    case True
    with below assms(5) show ?thesis by (simp add: run_linear_above add.commute)
  next
    case False
    with below assms(5) show ?thesis by (simp add: run_linear_inside add.commute)
  qed
qed

theorem C3_linear_bucket_witness:
  "u64 7 \<and> u64 0 \<and> u64 10 \<and> u64 2 \<and> (2::int) \<noteq> 0 \<and>
   result_of (run_linear init_codegen 7 0 10 2) = Some (IntV 64 4)"
  using C3_linear_bucket_signed_compare [of 7 0 10 2 init_codegen]
  by (simp add: u64_def sint_def)

text \<open>
  C3 as stated fails: for \<open>lhist(-1, 0, 10, 1)\<close> the value is \<open>2 ^ 64 - 1\<close> as an unsigned
  64-bit number, which an unsigned comparison puts above \<open>max\<close> (bucket 11), while the
  helper compares signed and returns bucket 0.
\<close>

theorem C3_linear_unsigned_counterexample:
  "result_of (run_linear init_codegen (2 ^ 64 - 1) 0 10 1) = Some (IntV 64 0) \<and>
   linear_unsigned_spec (2 ^ 64 - 1) 0 10 1 = 11"
proof -
  have "sint 64 (2 ^ 64 - 1) < sint 64 0"
    by (simp add: sint_def)
  then have "result_of (run_linear init_codegen (2 ^ 64 - 1) 0 10 1) = Some (IntV 64 0)"
    by (rule run_linear_below)
  moreover have "linear_unsigned_spec (2 ^ 64 - 1) 0 10 1 = 11"
    by (simp add: linear_unsigned_spec_def)
  ultimately show ?thesis by simp
qed

section \<open>Properties of the expression lowering\<close>

lemma prim_fields [simp]:
  "funcs (emit i s) = funcs s"
  "funcs (emit_def_reg mk s) = funcs s"
  "funcs (SetInsertPoint b s) = funcs s"
  "funcs (BasicBlock_Create nm p s) = funcs s"
  "block_name (emit i s) = block_name s"
  "block_name (emit_def_reg mk s) = block_name s"
  "block_name (SetInsertPoint b s) = block_name s"
  "block_name (BasicBlock_Create nm p s) = (block_name s)(next_block s := nm)"
  "block_parent (emit i s) = block_parent s"
  "block_parent (emit_def_reg mk s) = block_parent s"
  "block_parent (SetInsertPoint b s) = block_parent s"
  "block_parent (BasicBlock_Create nm p s) = (block_parent s)(next_block s := p)"
  "next_block (emit i s) = next_block s"
  "next_block (emit_def_reg mk s) = next_block s"
  "next_block (SetInsertPoint b s) = next_block s"
  "next_block (BasicBlock_Create nm p s) = next_block s + 1"
  "next_reg (emit i s) = next_reg s"
  "next_reg (emit_def_reg mk s) = next_reg s + 1"
  "next_reg (SetInsertPoint b s) = next_reg s"
  "next_reg (BasicBlock_Create nm p s) = next_reg s"
  "insert_block (emit i s) = insert_block s"
  "insert_block (emit_def_reg mk s) = insert_block s"
  "insert_block (SetInsertPoint b s) = b"
  "insert_block (BasicBlock_Create nm p s) = insert_block s"
  "helper_error_id (emit i s) = helper_error_id s"
  "helper_error_id (emit_def_reg mk s) = helper_error_id s"
  "helper_error_id (SetInsertPoint b s) = helper_error_id s"
  "helper_error_id (BasicBlock_Create nm p s) = helper_error_id s"
  "expr (emit i s) = expr s"
  "expr (emit_def_reg mk s) = expr s"
  "expr (SetInsertPoint b s) = expr s"
  "expr (BasicBlock_Create nm p s) = expr s"
  "ctx (emit i s) = ctx s"
  "ctx (emit_def_reg mk s) = ctx s"
  "ctx (SetInsertPoint b s) = ctx s"
  "ctx (BasicBlock_Create nm p s) = ctx s"
  "variables (emit i s) = variables s"
  "variables (emit_def_reg mk s) = variables s"
  "variables (SetInsertPoint b s) = variables s"
  "variables (BasicBlock_Create nm p s) = variables s"
  "printf_id (emit i s) = printf_id s"
  "printf_id (emit_def_reg mk s) = printf_id s"
  "printf_id (SetInsertPoint b s) = printf_id s"
  "printf_id (BasicBlock_Create nm p s) = printf_id s"
  "cat_id (emit i s) = cat_id s"
  "cat_id (emit_def_reg mk s) = cat_id s"
  "cat_id (SetInsertPoint b s) = cat_id s"
  "cat_id (BasicBlock_Create nm p s) = cat_id s"
  "system_id (emit i s) = system_id s"
  "system_id (emit_def_reg mk s) = system_id s"
  "system_id (SetInsertPoint b s) = system_id s"
  "system_id (BasicBlock_Create nm p s) = system_id s"
  "time_id (emit i s) = time_id s"
  "time_id (emit_def_reg mk s) = time_id s"
  "time_id (SetInsertPoint b s) = time_id s"
  "time_id (BasicBlock_Create nm p s) = time_id s"
  "strftime_id (emit i s) = strftime_id s"
  "strftime_id (emit_def_reg mk s) = strftime_id s"
  "strftime_id (SetInsertPoint b s) = strftime_id s"
  "strftime_id (BasicBlock_Create nm p s) = strftime_id s"
  "join_id (emit i s) = join_id s"
  "join_id (emit_def_reg mk s) = join_id s"
  "join_id (SetInsertPoint b s) = join_id s"
  "join_id (BasicBlock_Create nm p s) = join_id s"
  "non_map_print_id (emit i s) = non_map_print_id s"
  "non_map_print_id (emit_def_reg mk s) = non_map_print_id s"
  "non_map_print_id (SetInsertPoint b s) = non_map_print_id s"
  "non_map_print_id (BasicBlock_Create nm p s) = non_map_print_id s"
  "next_probe_index (emit i s) = next_probe_index s"
  "next_probe_index (emit_def_reg mk s) = next_probe_index s"
  "next_probe_index (SetInsertPoint b s) = next_probe_index s"
  "next_probe_index (BasicBlock_Create nm p s) = next_probe_index s"
  "probefull (emit i s) = probefull s"
  "probefull (emit_def_reg mk s) = probefull s"
  "probefull (SetInsertPoint b s) = probefull s"
  "probefull (BasicBlock_Create nm p s) = probefull s"
  "tracepoint_struct (emit i s) = tracepoint_struct s"
  "tracepoint_struct (emit_def_reg mk s) = tracepoint_struct s"
  "tracepoint_struct (SetInsertPoint b s) = tracepoint_struct s"
  "tracepoint_struct (BasicBlock_Create nm p s) = tracepoint_struct s"
  "current_usdt_location_index (emit i s) = current_usdt_location_index s"
  "current_usdt_location_index (emit_def_reg mk s) = current_usdt_location_index s"
  "current_usdt_location_index (SetInsertPoint b s) = current_usdt_location_index s"
  "current_usdt_location_index (BasicBlock_Create nm p s) = current_usdt_location_index s"
  "current_attach_point (emit i s) = current_attach_point s"
  "current_attach_point (emit_def_reg mk s) = current_attach_point s"
  "current_attach_point (SetInsertPoint b s) = current_attach_point s"
  "current_attach_point (BasicBlock_Create nm p s) = current_attach_point s"
  "blocks (emit i s) = (blocks s)(insert_block s := blocks s (insert_block s) @ [i])"
  "blocks (emit_def_reg mk s) =
     (blocks s)(insert_block s := blocks s (insert_block s) @ [mk (next_reg s)])"
  "blocks (SetInsertPoint b s) = blocks s"
  "blocks (BasicBlock_Create nm p s) = (blocks s)(next_block s := [])"
  by (simp_all add: emit_def emit_def_reg_def SetInsertPoint_def BasicBlock_Create_def)

lemmas create_defs =
  new_reg_def new_block_def new_func_def GetInsertBlock_getParent_def getInt64_def GetIntSameSize_def
  CreateAllocaBPF_def CreateAllocaBPFInit_def CreateLifetimeEnd_def CreateStore_def
  CreateLoad_def CreateICmp_def CreateArith_def CreateIntCast_def CreateGEP_def
  CREATE_MEMCPY_def CreateMapLookupElem_def CreateMapUpdateElem_def
  CreatePerfEventOutput_def CreateCondBr_def CreateBr_def CreateRet_def

lemmas example_defs =
  env0_def int64_def entry_state_def init_codegen_def block_list_def CreateInt64_def
  CreateUInt64_def IsIntTy_def IsStringTy_def IsBufferTy_def IsSigned_def

text \<open>
  C6. The integer branch of \<open>visit(Binop&)\<close> lowers a binary operation whose operator
  is not \<open>&&\<close> or \<open>||\<close> (these return before the branch, through
  \<open>createLogicalAnd\<close> and \<open>createLogicalOr\<close>) and whose left operand is neither a
  string nor a buffer. When the operands lower to the values \<open>lv\<close> and \<open>rv\<close>, the
  lowering appends, where the right operand's lowering ended,
  first the promotion of \<open>lv\<close> to 64 bits with the left operand's signedness and of
  \<open>rv\<close> with the right operand's, then the operation, and last a cast to 64 bits that
  is never signed, whose result is the value of the expression. For \<open><\<close>, \<open><=\<close>,
  \<open>>\<close>, \<open>>=\<close> the operation is the signed comparison when both operands are signed and
  the unsigned one otherwise; for \<open>%\<close> it is the unsigned remainder.
\<close>

theorem C6_binop_on_integers:
  assumes "opr \<noteq> LAND" and "opr \<noteq> LOR"
    and "\<not> IsStringTy (expr_type l)" and "\<not> IsBufferTy (expr_type l)"
    and "accept env l s = Inr s1" and "expr s1 = Some lv"
    and "accept env r s1 = Inr s2" and "expr s2 = Some rv"
  shows "\<exists>s' mid k e.
     accept env (Binop ty l opr r) s = Inr s' \<and>
     blocks s' (insert_block s2) =
       blocks s2 (insert_block s2) @
       [IntCast (next_reg s2) lv 64 (IsSigned (expr_type l)),
        IntCast (next_reg s2 + 1) rv 64 (IsSigned (expr_type r))] @
       mid @ [IntCast k e 64 False] \<and>
     expr s' = Some (Reg k) \<and>
     (opr = LT \<longrightarrow>
        mid = [ICmp (next_reg s2 + 2)
                 (if IsSigned (expr_type l) \<and> IsSigned (expr_type r) then ICMP_SLT else ICMP_ULT)
                 (Reg (next_reg s2)) (Reg (next_reg s2 + 1))] \<and>
        e = Reg (next_reg s2 + 2)) \<and>
     (opr = LE \<longrightarrow>
        mid = [ICmp (next_reg s2 + 2)
                 (if IsSigned (expr_type l) \<and> IsSigned (expr_type r) then ICMP_SLE else ICMP_ULE)
                 (Reg (next_reg s2)) (Reg (next_reg s2 + 1))] \<and>
        e = Reg (next_reg s2 + 2)) \<and>
     (opr = GT \<longrightarrow>
        mid = [ICmp (next_reg s2 + 2)
                 (if IsSigned (expr_type l) \<and> IsSigned (expr_type r) then ICMP_SGT else ICMP_UGT)
                 (Reg (next_reg s2)) (Reg (next_reg s2 + 1))] \<and>
        e = Reg (next_reg s2 + 2)) \<and>
     (opr = GE \<longrightarrow>
        mid = [ICmp (next_reg s2 + 2)
                 (if IsSigned (expr_type l) \<and> IsSigned (expr_type r) then ICMP_SGE else ICMP_UGE)
                 (Reg (next_reg s2)) (Reg (next_reg s2 + 1))] \<and>
        e = Reg (next_reg s2 + 2)) \<and>
     (opr = MOD \<longrightarrow>
        mid = [Arith (next_reg s2 + 2) BURem (Reg (next_reg s2)) (Reg (next_reg s2 + 1))] \<and>
        e = Reg (next_reg s2 + 2))"
  using assms
  by (cases opr)
    (simp_all add: visit_Binop_def binop_switch_def assign_expr_def create_defs Let_def)

theorem C6_binop_witness:
  "LT \<noteq> LAND \<and> LT \<noteq> LOR \<and>
   \<not> IsStringTy (expr_type (int64 (- 3))) \<and> \<not> IsBufferTy (expr_type (int64 (- 3))) \<and>
   accept env0 (int64 (- 3)) entry_state = Inr (visit_Integer (- 3) entry_state) \<and>
   expr (visit_Integer (- 3) entry_state) = Some (ConstInt 64 (- 3)) \<and>
   accept env0 (int64 5) (visit_Integer (- 3) entry_state) = Inr (visit_Integer 5 entry_state) \<and>
   expr (visit_Integer 5 entry_state) = Some (ConstInt 64 5) \<and>
   block_list (accept env0 (Binop CreateInt64 (int64 (- 3)) LT (int64 5)) entry_state) =
     Inr [[IntCast 0 (ConstInt 64 (- 3)) 64 True, IntCast 1 (ConstInt 64 5) 64 True,
           ICmp 2 ICMP_SLT (Reg 0) (Reg 1), IntCast 3 (Reg 2) 64 False]]"
  using C6_binop_on_integers [of LT "int64 (- 3)" env0 entry_state
      "visit_Integer (- 3) entry_state" "ConstInt 64 (- 3)" "int64 5"
      "visit_Integer 5 entry_state" "ConstInt 64 5" CreateInt64]
  by (simp add: example_defs visit_Integer_def visit_Binop_def binop_switch_def
      assign_expr_def create_defs builder_defs Let_def)

text \<open>
  C4 (as amended). Lowering \<open>strftime(fmt_id, ts)\<close> allocates a \<open>strftime_t\<close> record on
  the stack, stores the current \<open>strftime_id\<close> counter into field 0, increments the
  counter, lowers \<open>ts\<close> (the second argument), stores its value into field 1 and yields
  the record itself as the value of the call. It stores no action number, and it emits
  nothing else: there is no \<open>perf_event_output\<close> and no lifetime end.
\<close>

theorem C4_strftime_record:
  assumes "Strftime_asLLVMType env \<noteq> []" and "2 \<le> length vargs"
  shows "\<exists>s1.
     blocks s1 =
       (blocks s)(insert_block s := blocks s (insert_block s) @
         [AllocaBPF (next_reg s) (Struct_t ''strftime_t'' (Strftime_asLLVMType env) True)
            ''strftime_args'',
          GEP (next_reg s + 1) (Reg (next_reg s)) [0, 0],
          Store (IntOfType (strftime_id s) (hd (Strftime_asLLVMType env)))
            (Reg (next_reg s + 1))]) \<and>
     strftime_id s1 = strftime_id s + 1 \<and>
     (\<forall>s2 ts. accept env (vargs ! 1) s1 = Inr s2 \<and> expr s2 = Some ts \<longrightarrow>
        (\<exists>s'. accept env (Call ty ''strftime'' mp vargs) s = Inr s' \<and>
           blocks s' =
             (blocks s2)(insert_block s2 := blocks s2 (insert_block s2) @
               [GEP (next_reg s2) (Reg (next_reg s)) [0, 1],
                Store ts (Reg (next_reg s2))]) \<and>
           expr s' = Some (Reg (next_reg s)) \<and>
           strftime_id s' = strftime_id s2))"
proof -
  let ?s1 = "(CreateStore (IntOfType (strftime_id s) (Strftime_asLLVMType env ! 0))
                (Reg (next_reg s + 1))
                (CreateGEP (Reg (next_reg s)) [0, 0]
                  (CreateAllocaBPF (Struct_t ''strftime_t'' (Strftime_asLLVMType env) True)
                     ''strftime_args'' s)))\<lparr>strftime_id := strftime_id s + 1\<rparr>"
  have len: "\<not> length (Strftime_asLLVMType env) < 1" and v: "\<not> length vargs < 2"
    using assms by (auto simp: not_less Suc_le_eq)
  have hd: "Strftime_asLLVMType env ! 0 = hd (Strftime_asLLVMType env)"
    using assms(1) by (simp add: hd_conv_nth)
  show ?thesis
    apply (rule exI [of _ ?s1])
    using len v hd
    apply (simp add: visit_Call_def call_strftime_def create_defs Let_def)
    done
qed

theorem C4_strftime_witness:
  "Strftime_asLLVMType env0 \<noteq> [] \<and> 2 \<le> length [int64 0, int64 5] \<and>
   block_list (accept env0 (Call CreateUInt64 ''strftime'' None [int64 0, int64 5])
      (entry_state\<lparr>strftime_id := 7\<rparr>)) =
     Inr [[AllocaBPF 0 (Struct_t ''strftime_t'' [Int_t 64, Int_t 64] True) ''strftime_args'',
           GEP 1 (Reg 0) [0, 0], Store (IntOfType 7 (Int_t 64)) (Reg 1),
           GEP 2 (Reg 0) [0, 1], Store (ConstInt 64 5) (Reg 2)]]"
  using C4_strftime_record [of env0 "[int64 0, int64 5]" "entry_state\<lparr>strftime_id := 7\<rparr>"
      CreateUInt64 None]
  by (simp add: example_defs visit_Integer_def visit_Call_def call_strftime_def
      create_defs builder_defs Let_def upt_rec [of 0]
      cong: let_weak_cong)

text \<open>
  C4 as stated fails: with the counter at 7, \<open>strftime(0, 5)\<close> leaves a program in which
  the first field of the record holds 7, the format id, where the claim puts the action
  number, the second holds the timestamp, and no instruction hands the record to
  \<open>perf_event_output\<close>.
\<close>

theorem C4_strftime_no_event_counterexample:
  "(case accept env0 (Call CreateUInt64 ''strftime'' None [int64 0, int64 5])
           (entry_state\<lparr>strftime_id := 7\<rparr>) of
      Inl e \<Rightarrow> None
    | Inr s \<Rightarrow> Some (filter (\<lambda>i. case i of PerfEventOutput c b n \<Rightarrow> True | _ \<Rightarrow> False)
                       (all_instrs s),
                     filter (\<lambda>i. case i of Store v p \<Rightarrow> True | _ \<Rightarrow> False) (all_instrs s))) =
   Some ([], [Store (IntOfType 7 (Int_t 64)) (Reg 1), Store (ConstInt 64 5) (Reg 2)])"
  by (simp add: example_defs all_instrs_def visit_Integer_def visit_Call_def
      call_strftime_def create_defs builder_defs Let_def upt_rec [of 0]
      cong: let_weak_cong)

subsection \<open>The \<open>min\<close> aggregation\<close>

lemma sint_mod_cancel:
  "sint 64 (n mod 18446744073709551616) mod 18446744073709551616 = n mod 18446744073709551616"
  by (simp add: sint_def)

lemma sint_zero: "sint 64 0 = 0"
  by (simp add: sint_def)

lemma min_stored:
  assumes "0 \<le> sint 64 (inverted_of n)"
  shows "min_of_literal n = Some (Some (inverted_of n), [2, 1])"
  using assms unfolding inverted_of_def
  apply (simp add: min_of_literal_def example_defs visit_Integer_def visit_Call_def
      call_min_def getMapKey_def create_defs builder_defs Let_def cong: let_weak_cong)
  apply (simp add: exec_numeral init_machine_def set_reg_def eval_icmp_def eval_arith_def
      sint_mod_cancel sint_zero)
  done

lemma min_not_stored:
  assumes "\<not> 0 \<le> sint 64 (inverted_of n)"
  shows "min_of_literal n = Some (None, [1])"
  using assms unfolding inverted_of_def
  apply (simp add: min_of_literal_def example_defs visit_Integer_def visit_Call_def
      call_min_def getMapKey_def create_defs builder_defs Let_def cong: let_weak_cong)
  apply (simp add: exec_numeral init_machine_def set_reg_def eval_icmp_def eval_arith_def
      sint_mod_cancel sint_zero)
  done

text \<open>
  C1. The lowered \<open>min\<close> computes \<open>0xFFFFFFFF - v\<close> on the promoted value and updates the
  map exactly when the signed \<open>>=\<close> against the looked-up value succeeds: on a slot
  without an entry (the lookup yields 0) the run for \<open>min(5)\<close> goes through the storing
  block \<open>min.ge\<close> (block 2) and leaves \<open>0xFFFFFFFF - 5\<close> in the map. But the first
  occurrence is not always stored, as the comment in the source and the claim have it:
  for \<open>min(4294967296)\<close> the inverted value is \<open>-1\<close>, the comparison with 0 fails, the
  run goes straight to \<open>min.lt\<close> (block 1) and the map still has no entry.
\<close>

theorem C1_min_first_occurrence:
  "min_of_literal 5 = Some (Some 4294967290, [2, 1]) \<and>
   min_of_literal 4294967296 = Some (None, [1])"
proof -
  have "0 \<le> sint 64 (inverted_of 5)" and "inverted_of 5 = 4294967290"
    by (simp_all add: inverted_of_def sint_def)
  then have a: "min_of_literal 5 = Some (Some 4294967290, [2, 1])"
    using min_stored [of 5] by simp
  have "\<not> 0 \<le> sint 64 (inverted_of 4294967296)"
    by (simp add: inverted_of_def sint_def)
  then have "min_of_literal 4294967296 = Some (None, [1])"
    by (rule min_not_stored)
  with a show ?thesis by simp
qed

section \<open>Properties of the probe driver\<close>

lemma save_ids_reset [simp]: "save_ids (reset_ids st s) = st"
  by (simp add: save_ids_def reset_ids_def)

lemma save_ids_frame [simp]:
  "save_ids (s\<lparr>current_attach_point := a\<rparr>) = save_ids s"
  "save_ids (s\<lparr>probefull := p\<rparr>) = save_ids s"
  "save_ids (s\<lparr>tracepoint_struct := ts\<rparr>) = save_ids s"
  "save_ids (s\<lparr>current_usdt_location_index := i\<rparr>) = save_ids s"
  by (simp_all add: save_ids_def)

lemma usdt_locations_baseline:
  assumes "\<And>p f sn e t. save_ids t = st \<Longrightarrow> gen' p f sn e t = gen p f sn e t"
  shows "usdt_locations gen' st probe match is s = usdt_locations gen st probe match is s"
proof (induction "is" arbitrary: s)
  case Nil
  show ?case by simp
next
  case (Cons i rest)
  show ?case
    by (simp add: Let_def assms Cons.IH split: sum.split)
qed

lemma expand_match_baseline:
  assumes "\<And>p f sn e t. save_ids t = st \<Longrightarrow> gen' p f sn e t = gen p f sn e t"
  shows "expand_match env gen' st probe k match s = expand_match env gen st probe k match s"
  by (simp add: expand_match_def Let_def assms usdt_locations_baseline [of st gen' gen, OF assms]
      split: option.split)

lemma expand_matches_baseline:
  assumes "\<And>p f sn e t. save_ids t = st \<Longrightarrow> gen' p f sn e t = gen p f sn e t"
  shows "expand_matches env gen' st probe k ms s = expand_matches env gen st probe k ms s"
  by (induction ms arbitrary: s)
    (simp_all add: expand_match_baseline [of st gen' gen, OF assms] split: sum.split)

lemma expand_attach_points_baseline:
  assumes "\<And>p f sn e t. save_ids t = st \<Longrightarrow> gen' p f sn e t = gen p f sn e t"
  shows "expand_attach_points env gen' st probe ks s =
         expand_attach_points env gen st probe ks s"
  by (induction ks arbitrary: s)
    (simp_all add: Let_def expand_matches_baseline [of st gen' gen, OF assms] split: sum.split)



section \<open>What lowering preserves\<close>

lemma cnt_upd_aux:
  "b < n \<Longrightarrow>
   length (filter P (concat (map (f(b := f b @ [i])) [0..<n]))) =
   length (filter P (concat (map f [0..<n]))) + (if P i then 1 else 0)"
proof (induction n)
  case 0
  then show ?case by simp
next
  case (Suc n)
  show ?case
  proof (cases "b = n")
    case True
    have "map (f(b := f b @ [i])) [0..<n] = map f [0..<n]"
      by (rule map_cong) (simp_all add: True)
    then show ?thesis
      using True by (simp del: fun_upd_apply) simp
  next
    case False
    then have "b < n" using Suc.prems by simp
    then show ?thesis
      using Suc.IH False by simp
  qed
qed

lemma cnt_emit [simp]:
  "insert_block s < next_block s \<Longrightarrow> cnt P (emit i s) = cnt P s + (if P i then 1 else 0)"
  unfolding cnt_def all_instrs_def
  by (simp add: cnt_upd_aux)

lemma cnt_emit_def_reg [simp]:
  "insert_block s < next_block s \<Longrightarrow>
   cnt P (emit_def_reg mk s) = cnt P s + (if P (mk (next_reg s)) then 1 else 0)"
  unfolding cnt_def all_instrs_def
  by (simp add: cnt_upd_aux)

lemma cnt_BasicBlock_Create [simp]: "cnt P (BasicBlock_Create nm p s) = cnt P s"
  unfolding cnt_def all_instrs_def by simp

lemma cnt_SetInsertPoint [simp]: "cnt P (SetInsertPoint b s) = cnt P s"
  unfolding cnt_def all_instrs_def by simp

lemma cnt_frame [simp]:
  "cnt P (s\<lparr>expr := e\<rparr>) = cnt P s"
  "cnt P (s\<lparr>variables := vs\<rparr>) = cnt P s"
  "cnt P (s\<lparr>strftime_id := n\<rparr>) = cnt P s"
  "cnt P (s\<lparr>ctx := c\<rparr>) = cnt P s"
  "cnt P (s\<lparr>funcs := fs\<rparr>) = cnt P s"
  "cnt P (s\<lparr>next_probe_index := npi\<rparr>) = cnt P s"
  "cnt P (s\<lparr>tracepoint_struct := ts\<rparr>) = cnt P s"
  "cnt P (s\<lparr>probefull := pf\<rparr>) = cnt P s"
  "cnt P (s\<lparr>current_attach_point := ap\<rparr>) = cnt P s"
  "cnt P (s\<lparr>current_usdt_location_index := k\<rparr>) = cnt P s"
  unfolding cnt_def all_instrs_def by simp_all

lemma take_prefix:
  assumes "take (length a) b = a" and "take (length b) c = b"
  shows "take (length a) c = a"
proof -
  have "length (take (length a) b) = length a"
    using assms(1) by simp
  then have "length a \<le> length b"
    by simp
  then have "take (length a) c = take (length a) (take (length b) c)"
    by (simp add: min_def)
  then show ?thesis
    using assms by simp
qed

lemma take_prefix_snoc:
  assumes "take (length a) b = a"
  shows "take (length a) (b @ c) = a"
proof -
  have "length (take (length a) b) = length a"
    using assms(1) by simp
  then have "length a \<le> length b"
    by simp
  then show ?thesis
    using assms by simp
qed

lemma ext_trans:
  assumes "ip_ok s" "ext s s1" "ext s1 s2"
  shows "ext s s2"
proof -
  have a: "insert_block s < next_block s"
    using assms(1) by (simp add: ip_ok_def)
  have b: "insert_block s1 = insert_block s \<or> next_block s \<le> insert_block s1"
    and c: "next_block s \<le> next_block s1" and d: "insert_block s1 < next_block s1"
    and e: "next_reg s \<le> next_reg s1" and f: "next_reg s1 \<le> next_reg s2"
    using assms(2,3) by (simp_all add: ext_def)
  have old: "blocks s2 b = blocks s b" if "b < next_block s" "b \<noteq> insert_block s" for b
  proof -
    have "b < next_block s1" "b \<noteq> insert_block s1"
      using that b c by auto
    then have "blocks s2 b = blocks s1 b"
      using assms(3) by (simp add: ext_def)
    then show ?thesis
      using assms(2) that by (simp add: ext_def)
  qed
  have pre: "take (length (blocks s (insert_block s))) (blocks s2 (insert_block s)) =
        blocks s (insert_block s)"
  proof (cases "insert_block s1 = insert_block s")
    case True
    then show ?thesis
      using assms(2,3) by (simp add: ext_def take_prefix [of _ "blocks s1 (insert_block s)"])
  next
    case False
    then have "blocks s2 (insert_block s) = blocks s1 (insert_block s)"
      using assms(3) a c by (simp add: ext_def)
    then show ?thesis
      using assms(2) by (simp add: ext_def)
  qed
  have ins: "insert_block s2 = insert_block s \<or> next_block s \<le> insert_block s2"
    using assms(2,3) by (auto simp: ext_def)
  have vars: "variables s2 x = Some p" if "variables s x = Some p" for x p
    using that assms(2,3) by (simp add: ext_def)
  have fresh: "variables s x = Some (Some p) \<or>
         (\<exists>r. p = Reg r \<and> next_reg s \<le> r \<and> r < next_reg s2 \<and>
              0 < cnt (slot_alloca r x) s2)"
    if "variables s2 x = Some (Some p)" for x p
  proof -
    have m: "cnt P s1 \<le> cnt P s2" for P
      using assms(3) by (simp add: ext_def)
    have "variables s1 x = Some (Some p) \<or>
         (\<exists>r. p = Reg r \<and> next_reg s1 \<le> r \<and> r < next_reg s2 \<and>
              0 < cnt (slot_alloca r x) s2)"
      using that assms(3) by (simp add: ext_def)
    moreover have "variables s x = Some (Some p) \<or>
         (\<exists>r. p = Reg r \<and> next_reg s \<le> r \<and> r < next_reg s2 \<and>
              0 < cnt (slot_alloca r x) s2)"
      if v: "variables s1 x = Some (Some p)"
    proof -
      have "variables s x = Some (Some p) \<or>
         (\<exists>r. p = Reg r \<and> next_reg s \<le> r \<and> r < next_reg s1 \<and>
              0 < cnt (slot_alloca r x) s1)"
        using v assms(2) by (simp add: ext_def)
      then show ?thesis
      proof
        assume "variables s x = Some (Some p)"
        then show ?thesis by simp
      next
        assume "\<exists>r. p = Reg r \<and> next_reg s \<le> r \<and> r < next_reg s1 \<and>
              0 < cnt (slot_alloca r x) s1"
        then obtain r where "p = Reg r" "next_reg s \<le> r" "r < next_reg s1"
          "0 < cnt (slot_alloca r x) s1"
          by blast
        moreover have "cnt (slot_alloca r x) s1 \<le> cnt (slot_alloca r x) s2"
          by (rule m)
        ultimately show ?thesis
          using f by auto
      qed
    qed
    ultimately show ?thesis
      using e by fastforce
  qed
  have tc: "cnt (branches_to l) s2 = cnt (branches_to l) s" if "l < next_block s" for l
  proof -
    have "cnt (branches_to l) s2 = cnt (branches_to l) s1"
      using that c assms(3) by (simp add: ext_def)
    then show ?thesis
      using that assms(2) by (simp add: ext_def)
  qed
  have dc: "cnt (defines_reg r) s2 =
         cnt (defines_reg r) s + (if next_reg s \<le> r \<and> r < next_reg s2 then 1 else 0)" for r
  proof -
    have "cnt (defines_reg r) s2 =
         cnt (defines_reg r) s1 + (if next_reg s1 \<le> r \<and> r < next_reg s2 then 1 else 0)"
      using assms(3) by (simp add: ext_def)
    moreover have "cnt (defines_reg r) s1 =
         cnt (defines_reg r) s + (if next_reg s \<le> r \<and> r < next_reg s1 then 1 else 0)"
      using assms(2) by (simp add: ext_def)
    ultimately show ?thesis
      using e f by auto
  qed
  have mono: "cnt P s \<le> cnt P s2" for P
  proof -
    have "cnt P s \<le> cnt P s1" "cnt P s1 \<le> cnt P s2"
      using assms(2,3) by (simp_all add: ext_def)
    then show ?thesis by simp
  qed
  show ?thesis
    unfolding ext_def
    apply (intro conjI)
    using assms(3) apply (simp add: ext_def)
    using c assms(3) apply (simp add: ext_def)
    using e f apply simp
    apply (rule ins)
    using old apply blast
    apply (rule pre)
    using assms(2,3) apply (simp add: ext_def)
    using assms(2,3) apply (simp add: ext_def)
    using assms(2,3) apply (simp add: ext_def)
    using assms(2,3) apply (simp add: ext_def)
    using assms(2,3) apply (simp add: ext_def)
    using vars apply blast
    using fresh apply blast
    using tc apply blast
    using dc apply blast
    using mono apply blast
    done
qed

lemma ext_refl: "ip_ok s \<Longrightarrow> ext s s"
  by (simp add: ext_def ip_ok_def)

lemma ext_facts:
  "ext t t' \<Longrightarrow>
   ext t t' \<and> next_block t \<le> next_block t' \<and> next_reg t \<le> next_reg t' \<and>
   insert_block t' < next_block t'"
  by (simp add: ext_def)

lemma ext_ip_ok: "ext s t \<Longrightarrow> ip_ok t"
  by (simp add: ext_def ip_ok_def)

lemma ext_fresh_mono:
  assumes "ext s t" and "variables t' = variables t" and "next_reg t \<le> next_reg t'"
    and "\<And>P. cnt P t \<le> cnt P t'"
  shows "\<forall>x p. variables t' x = Some (Some p) \<longrightarrow>
           variables s x = Some (Some p) \<or>
           (\<exists>r. p = Reg r \<and> next_reg s \<le> r \<and> r < next_reg t' \<and>
                0 < cnt (slot_alloca r x) t')"
proof (intro allI impI)
  fix x p
  assume "variables t' x = Some (Some p)"
  then have "variables t x = Some (Some p)"
    using assms(2) by simp
  then have "variables s x = Some (Some p) \<or>
           (\<exists>r. p = Reg r \<and> next_reg s \<le> r \<and> r < next_reg t \<and>
                0 < cnt (slot_alloca r x) t)"
    using assms(1) by (simp add: ext_def)
  then show "variables s x = Some (Some p) \<or>
           (\<exists>r. p = Reg r \<and> next_reg s \<le> r \<and> r < next_reg t' \<and>
                0 < cnt (slot_alloca r x) t')"
  proof
    assume "variables s x = Some (Some p)"
    then show ?thesis by simp
  next
    assume "\<exists>r. p = Reg r \<and> next_reg s \<le> r \<and> r < next_reg t \<and>
                0 < cnt (slot_alloca r x) t"
    then obtain r where r: "p = Reg r" "next_reg s \<le> r" "r < next_reg t"
      "0 < cnt (slot_alloca r x) t"
      by blast
    have "cnt (slot_alloca r x) t \<le> cnt (slot_alloca r x) t'"
      by (rule assms(4))
    with r assms(3) show ?thesis
      by auto
  qed
qed

lemma ext_blocks_emit:
  assumes "ext s t"
  shows "\<forall>b. b < next_block s \<longrightarrow> b \<noteq> insert_block s \<longrightarrow>
           ((blocks t)(insert_block t := blocks t (insert_block t) @ [i])) b = blocks s b"
    and "take (length (blocks s (insert_block s)))
           (((blocks t)(insert_block t := blocks t (insert_block t) @ [i])) (insert_block s)) =
         blocks s (insert_block s)"
proof -
  have ib: "insert_block t = insert_block s \<or> next_block s \<le> insert_block t"
    using assms by (simp add: ext_def)
  have old: "\<forall>b. b < next_block s \<longrightarrow> b \<noteq> insert_block s \<longrightarrow> blocks t b = blocks s b"
    using assms by (simp add: ext_def)
  have pre: "take (length (blocks s (insert_block s))) (blocks t (insert_block s)) =
        blocks s (insert_block s)"
    using assms by (simp add: ext_def)
  show "\<forall>b. b < next_block s \<longrightarrow> b \<noteq> insert_block s \<longrightarrow>
           ((blocks t)(insert_block t := blocks t (insert_block t) @ [i])) b = blocks s b"
    using ib old by auto
  show "take (length (blocks s (insert_block s)))
           (((blocks t)(insert_block t := blocks t (insert_block t) @ [i])) (insert_block s)) =
         blocks s (insert_block s)"
  proof (cases "insert_block t = insert_block s")
    case True
    show ?thesis
      using take_prefix_snoc [OF pre, of "[i]"] True by (simp del: take_append)
  next
    case False
    then show ?thesis
      using pre by simp
  qed
qed

lemma ext_emit:
  assumes "ext s t" and "def_reg i = None" and "\<forall>l\<in>set (labels i). next_block s \<le> l"
  shows "ext s (emit i t)"
proof -
  have w: "insert_block t < next_block t"
    using assms(1) by (simp add: ext_def)
  have tc: "\<not> branches_to l i" if "l < next_block s" for l
    using that assms(3) by (auto simp: branches_to_def)
  have le: "cnt P s \<le> cnt P t" for P
    using assms(1) by (simp add: ext_def)
  have dc: "\<not> defines_reg r i" for r
    using assms(2) by (simp add: defines_reg_def)
  show ?thesis
    unfolding ext_def
    apply (intro conjI)
    using assms(1) apply (simp add: ext_def)
    using assms(1) apply (simp add: ext_def)
    using assms(1) apply (simp add: ext_def)
    using assms(1) apply (simp add: ext_def)
    using ext_blocks_emit(1) [OF assms(1)] apply simp
    using ext_blocks_emit(2) [OF assms(1)] apply simp
    using assms(1) apply (simp add: ext_def)
    using assms(1) apply (simp add: ext_def)
    using assms(1) apply (simp add: ext_def)
    using assms(1) apply (simp add: ext_def)
    using assms(1) apply (simp add: ext_def)
    using assms(1) apply (simp add: ext_def)
    using ext_fresh_mono [OF assms(1), of "emit i t"] w apply simp
    using assms(1) w tc apply (simp add: ext_def)
    using assms(1) w dc apply (simp add: ext_def)
    using w le apply (simp add: le_SucI)
    done
qed

lemma ext_emit_def_reg:
  assumes "ext s t" and "def_reg (mk (next_reg t)) = Some (next_reg t)"
    and "labels (mk (next_reg t)) = []"
  shows "ext s (emit_def_reg mk t)"
proof -
  have w: "insert_block t < next_block t"
    using assms(1) by (simp add: ext_def)
  have tc: "\<not> branches_to l (mk (next_reg t))" for l
    using assms(3) by (auto simp: branches_to_def)
  have le: "cnt P s \<le> cnt P t" for P
    using assms(1) by (simp add: ext_def)
  have dc: "defines_reg r (mk (next_reg t)) = (r = next_reg t)" for r
    using assms(2) by (auto simp: defines_reg_def)
  have nr: "next_reg s \<le> next_reg t"
    using assms(1) by (simp add: ext_def)
  show ?thesis
    unfolding ext_def
    apply (intro conjI)
    using assms(1) apply (simp add: ext_def)
    using assms(1) apply (simp add: ext_def)
    using assms(1) apply (simp add: ext_def)
    using assms(1) apply (simp add: ext_def)
    using ext_blocks_emit(1) [OF assms(1)] apply simp
    using ext_blocks_emit(2) [OF assms(1)] apply simp
    using assms(1) apply (simp add: ext_def)
    using assms(1) apply (simp add: ext_def)
    using assms(1) apply (simp add: ext_def)
    using assms(1) apply (simp add: ext_def)
    using assms(1) apply (simp add: ext_def)
    using assms(1) apply (simp add: ext_def)
    using ext_fresh_mono [OF assms(1), of "emit_def_reg mk t"] w apply simp
    using assms(1) w tc apply (simp add: ext_def)
    using assms(1) w dc nr apply (simp add: ext_def) apply (auto)[1]
    using w le apply (simp add: le_SucI)
    done
qed

lemma ext_BasicBlock_Create:
  assumes "ip_ok s" and "ext s t"
  shows "ext s (BasicBlock_Create nm p t)"
proof -
  have w: "insert_block t < next_block t" and nb: "next_block s \<le> next_block t"
    using assms(2) by (simp_all add: ext_def)
  have ib: "insert_block s < next_block t"
    using assms(1) nb by (simp add: ip_ok_def)
  show ?thesis
    unfolding ext_def
    apply (intro conjI)
    using assms(2) apply (simp add: ext_def)
    using assms(2) apply (simp add: ext_def)
    using assms(2) apply (simp add: ext_def)
    using assms(2) apply (simp add: ext_def)
    using assms(2) apply (simp add: ext_def)
    using assms(2) ib apply (simp add: ext_def)
    using assms(2) apply (simp_all add: ext_def)
    done
qed

lemma ext_SetInsertPoint:
  assumes "ext s t" and "next_block s \<le> b" and "b < next_block t"
  shows "ext s (SetInsertPoint b t)"
  using assms by (simp add: ext_def)

lemma ext_expr:
  assumes "ext s t"
  shows "ext s (t\<lparr>expr := e\<rparr>)"
  using assms by (simp add: ext_def)

lemma ext_strftime_id:
  assumes "ext s t"
  shows "ext s (t\<lparr>strftime_id := n\<rparr>)"
  using assms by (simp add: ext_def)

lemma slot_alloca_simps [simp]:
  "slot_alloca r x (AllocaBPFInit r' ty nm) = (r' = r \<and> nm = x)"
  "slot_alloca r x (AllocaBPF r' t nm) = False"
  "slot_alloca r x (LifetimeEnd v) = False"
  "slot_alloca r x (Store v p) = False"
  "slot_alloca r x (Load r' p) = False"
  "slot_alloca r x (ICmp r' cmp v1 v2) = False"
  "slot_alloca r x (Arith r' opn v1 v2) = False"
  "slot_alloca r x (IntCast r' v bits sg) = False"
  "slot_alloca r x (GEP r' p idx) = False"
  "slot_alloca r x (Memcpy dst src n) = False"
  "slot_alloca r x (MapLookupElem r' m key) = False"
  "slot_alloca r x (MapUpdateElem m key v) = False"
  "slot_alloca r x (PerfEventOutput v1 v2 n) = False"
  "slot_alloca r x (CondBr v l1 l2) = False"
  "slot_alloca r x (Br l) = False"
  "slot_alloca r x (Ret v) = False"
  by (simp_all add: slot_alloca_def)

lemma ext_variables:
  assumes "ext s t" and "variables t = vt" and "vt x = None"
    and "v = None \<or>
         (\<exists>r. v = Some (Reg r) \<and> next_reg s \<le> r \<and> r < next_reg t \<and>
              0 < cnt (slot_alloca r x) t)"
  shows "ext s (t\<lparr>variables := vt(x \<mapsto> v)\<rparr>)"
  using assms by (auto simp: ext_def)

lemma ext_step: "ext t t' \<Longrightarrow> ip_ok s \<Longrightarrow> ext s t \<Longrightarrow> ext s t'"
  by (blast intro: ext_trans)

lemmas ext_prims =
  ext_emit ext_emit_def_reg ext_BasicBlock_Create ext_SetInsertPoint ext_expr ext_strftime_id
  ext_variables ext_refl

lemma visit_Integer_ext: "ip_ok s \<Longrightarrow> ext s (visit_Integer n s)"
  unfolding visit_Integer_def by (rule ext_prims | simp)+

lemma visit_Variable_ext:
  assumes "ip_ok s" and "visit_Variable env ty x s = Inr s'"
  shows "ext s s'"
  using assms
  apply (simp add: visit_Variable_def Let_def create_defs split: if_splits option.splits)
  apply clarify
  apply ((rule ext_prims | simp add: ip_ok_def)+)[1]
  apply clarify
  apply ((rule ext_prims | simp add: ip_ok_def)+)[1]
  apply clarify
  apply ((rule ext_prims | simp add: ip_ok_def)+)[1]
  done

lemma createLogicalAnd_ext:
  assumes w: "ip_ok s"
    and IHl: "\<And>t t'. ip_ok t \<Longrightarrow> acc l t = Inr t' \<Longrightarrow> ext t t'"
    and IHr: "\<And>t t'. ip_ok t \<Longrightarrow> acc r t = Inr t' \<Longrightarrow> ext t t'"
    and eq: "createLogicalAnd acc l r s = Inr s'"
  shows "ext s s'"
  using w eq
  apply (simp add: createLogicalAnd_def Let_def create_defs split: if_splits sum.splits option.splits)
  apply (drule IHl[rotated, THEN ext_facts], simp add: ip_ok_def)
  apply (drule IHr[rotated, THEN ext_facts], simp add: ip_ok_def)
  apply clarify
  apply ((rule ext_prims | erule ext_step | simp add: ip_ok_def)+)
  done

lemma createLogicalOr_ext:
  assumes w: "ip_ok s"
    and IHl: "\<And>t t'. ip_ok t \<Longrightarrow> acc l t = Inr t' \<Longrightarrow> ext t t'"
    and IHr: "\<And>t t'. ip_ok t \<Longrightarrow> acc r t = Inr t' \<Longrightarrow> ext t t'"
    and eq: "createLogicalOr acc l r s = Inr s'"
  shows "ext s s'"
  using w eq
  apply (simp add: createLogicalOr_def Let_def create_defs split: if_splits sum.splits option.splits)
  apply (drule IHl[rotated, THEN ext_facts], simp add: ip_ok_def)
  apply (drule IHr[rotated, THEN ext_facts], simp add: ip_ok_def)
  apply clarify
  apply ((rule ext_prims | erule ext_step | simp add: ip_ok_def)+)
  done

lemma binop_switch_ext:
  assumes "ext s0 s" and "binop_switch opr sg lhs rhs s = Inr s'"
  shows "ext s0 s'"
  using assms
  apply (cases opr)
  apply (simp_all add: binop_switch_def assign_expr_def create_defs)
  apply (clarify, (rule ext_prims | simp add: ip_ok_def)+)+
  done


lemma visit_Binop_ext:
  assumes w: "ip_ok s"
    and IHl: "\<And>t t'. ip_ok t \<Longrightarrow> acc l t = Inr t' \<Longrightarrow> ext t t'"
    and IHr: "\<And>t t'. ip_ok t \<Longrightarrow> acc r t = Inr t' \<Longrightarrow> ext t t'"
    and eq: "visit_Binop acc l opr r s = Inr s'"
  shows "ext s s'"
proof (cases "opr = LAND \<or> opr = LOR")
  case True
  then show ?thesis
    using w eq createLogicalAnd_ext [OF w IHl IHr] createLogicalOr_ext [OF w IHl IHr]
    by (auto simp: visit_Binop_def)
next
  case False
  then show ?thesis
    using w eq
    apply (simp add: visit_Binop_def Let_def create_defs assign_expr_def
        split: if_splits sum.splits option.splits)
    apply (drule IHl[rotated, THEN ext_facts], simp add: ip_ok_def)
    apply (drule IHr[rotated, THEN ext_facts], simp add: ip_ok_def)
    apply clarify
    apply (rule ext_prims)+
    apply (erule binop_switch_ext [rotated])
    apply ((rule ext_prims | erule ext_step | simp add: ip_ok_def)+)
    done
qed

lemma call_count_ext: "ip_ok s \<Longrightarrow> ext s (call_count m s)"
  unfolding call_count_def getMapKey_def Let_def create_defs
  by (rule ext_prims | simp add: ip_ok_def)+

lemma call_exit_ext: "ip_ok s \<Longrightarrow> ext s (call_exit env s)"
  unfolding call_exit_def Let_def create_defs
  by (rule ext_prims | simp add: ip_ok_def)+

lemma call_sum_ext:
  assumes w: "ip_ok s"
    and IH: "\<And>t t'. ip_ok t \<Longrightarrow> acc arg t = Inr t' \<Longrightarrow> ext t t'"
    and eq: "call_sum acc m arg s = Inr s'"
  shows "ext s s'"
  using w eq
  apply (simp add: call_sum_def getMapKey_def Let_def create_defs
      split: if_splits sum.splits option.splits)
  apply (drule IH[rotated, THEN ext_facts], simp add: ip_ok_def)
  apply clarify
  apply ((rule ext_prims | erule ext_step | simp add: ip_ok_def)+)
  done

lemma call_min_ext:
  assumes w: "ip_ok s"
    and IH: "\<And>t t'. ip_ok t \<Longrightarrow> acc arg t = Inr t' \<Longrightarrow> ext t t'"
    and eq: "call_min acc m arg s = Inr s'"
  shows "ext s s'"
  using w eq
  apply (simp add: call_min_def getMapKey_def Let_def create_defs
      split: if_splits sum.splits option.splits)
  apply (drule IH[rotated, THEN ext_facts], simp add: ip_ok_def)
  apply clarify
  apply ((rule ext_prims | erule ext_step | simp add: ip_ok_def)+)
  done

lemma call_max_ext:
  assumes w: "ip_ok s"
    and IH: "\<And>t t'. ip_ok t \<Longrightarrow> acc arg t = Inr t' \<Longrightarrow> ext t t'"
    and eq: "call_max acc m arg s = Inr s'"
  shows "ext s s'"
  using w eq
  apply (simp add: call_max_def getMapKey_def Let_def create_defs
      split: if_splits sum.splits option.splits)
  apply (drule IH[rotated, THEN ext_facts], simp add: ip_ok_def)
  apply clarify
  apply ((rule ext_prims | erule ext_step | simp add: ip_ok_def)+)
  done

lemma call_strftime_ext:
  assumes w: "ip_ok s"
    and IH: "\<And>t t'. ip_ok t \<Longrightarrow> acc (vargs ! Suc 0) t = Inr t' \<Longrightarrow> ext t t'"
    and eq: "call_strftime env acc func vargs s = Inr s'"
  shows "ext s s'"
  using w eq
  apply (simp add: call_strftime_def Let_def create_defs
      split: if_splits sum.splits option.splits)
  apply (drule IH[rotated, THEN ext_facts], simp add: ip_ok_def)
  apply clarify
  apply ((rule ext_prims | erule ext_step | simp add: ip_ok_def)+)
  done

lemma visit_Call_ext:
  assumes w: "ip_ok s"
    and IH: "\<And>e t t'. e \<in> set vargs \<Longrightarrow> ip_ok t \<Longrightarrow> acc e t = Inr t' \<Longrightarrow> ext t t'"
    and eq: "visit_Call env acc func mp vargs s = Inr s'"
  shows "ext s s'"
proof -
  have hd: "ext t t'" if "vargs \<noteq> []" "ip_ok t" "acc (hd vargs) t = Inr t'" for t t'
    using that IH [of "hd vargs"] by simp
  have nth: "ext t t'" if "\<not> length vargs < 2" "ip_ok t" "acc (vargs ! Suc 0) t = Inr t'" for t t'
    using that IH [of "vargs ! Suc 0"] by (simp add: not_less)
  have strftime: "ext s s'" if "call_strftime env acc func vargs s = Inr s'"
  proof (cases "length vargs < 2")
    case True
    then show ?thesis
      using that by (simp add: call_strftime_def Let_def split: if_splits)
  next
    case False
    show ?thesis
      by (rule call_strftime_ext [OF w nth [OF False] that])
  qed
  show ?thesis
    using w eq call_count_ext [OF w] call_exit_ext [OF w]
      call_sum_ext [OF w hd] call_min_ext [OF w hd] call_max_ext [OF w hd]
      strftime
    by (auto simp: visit_Call_def split: if_splits option.splits)
qed

lemma accept_ext: "ip_ok s \<Longrightarrow> accept env e s = Inr s' \<Longrightarrow> ext s s'"
proof (induction e arbitrary: s s')
  case (Integer ty n)
  then show ?case using visit_Integer_ext by auto
next
  case (Variable ty x)
  then show ?case using visit_Variable_ext by auto
next
  case (Binop ty l opr r)
  show ?case
    by (rule visit_Binop_ext [OF Binop.prems(1) Binop.IH(1) Binop.IH(2)])
      (use Binop.prems(2) in simp_all)
next
  case (Call ty func mp vargs)
  show ?case
    by (rule visit_Call_ext [OF Call.prems(1) Call.IH])
      (use Call.prems(2) in simp_all)
qed

lemma visit_AssignVarStatement_ext:
  assumes w: "ip_ok s"
    and IH: "\<And>t t'. ip_ok t \<Longrightarrow> acc e t = Inr t' \<Longrightarrow> ext t t'"
    and eq: "visit_AssignVarStatement env acc ty x e s = Inr s'"
  shows "ext s s'"
  using w eq
  apply (simp add: visit_AssignVarStatement_def Let_def create_defs
      split: if_splits sum.splits option.splits)
  apply ((drule IH[rotated, THEN ext_facts], simp add: ip_ok_def, clarify,
      ((rule ext_prims | erule ext_step | simp add: ip_ok_def)+)[1])+)
  done

lemma visit_If_ext:
  assumes w: "ip_ok s"
    and IHc: "\<And>t t'. ip_ok t \<Longrightarrow> acc cond t = Inr t' \<Longrightarrow> ext t t'"
    and IHb: "\<And>t t'. ip_ok t \<Longrightarrow> accs body t = Inr t' \<Longrightarrow> ext t t'"
    and IHe: "\<And>es t t'. else_stmts = Some es \<Longrightarrow> ip_ok t \<Longrightarrow> accs es t = Inr t' \<Longrightarrow> ext t t'"
    and eq: "visit_If acc accs cond body else_stmts s = Inr s'"
  shows "ext s s'"
proof (cases else_stmts)
  case None
  show ?thesis
    using w eq unfolding None
    apply (simp add: visit_If_def Let_def create_defs split: if_splits sum.splits option.splits)
    apply (drule IHc[rotated, THEN ext_facts], simp add: ip_ok_def)
    apply (drule IHb[rotated, THEN ext_facts], simp add: ip_ok_def)
    apply clarify
    apply ((rule ext_prims | erule ext_step | simp add: ip_ok_def)+)
    done
next
  case (Some es)
  note IHe' = IHe [OF Some]
  show ?thesis
    using w eq unfolding Some
    apply (simp add: visit_If_def Let_def create_defs split: if_splits sum.splits option.splits)
    apply (drule IHc[rotated, THEN ext_facts], simp add: ip_ok_def)
    apply (drule IHb[rotated, THEN ext_facts], simp add: ip_ok_def)
    apply (drule IHe'[rotated, THEN ext_facts], simp add: ip_ok_def)
    apply clarify
    apply ((rule ext_prims | erule ext_step | simp add: ip_ok_def)+)
    done
qed

lemma accept_stmt_ext:
  "ip_ok s \<Longrightarrow> accept_stmt env st s = Inr s' \<Longrightarrow> ext s s'"
  "ip_ok s \<Longrightarrow> accept_stmts env sts s = Inr s' \<Longrightarrow> ext s s'"
proof (induction env st s and env sts s arbitrary: s' and s' rule: accept_stmt_accept_stmts.induct)
  case (1 env e s)
  then show ?case using accept_ext by simp
next
  case (2 env ty x e s)
  show ?case
    by (rule visit_AssignVarStatement_ext [OF "2.prems"(1) accept_ext])
      (use "2.prems"(2) in simp_all)
next
  case (3 env cond body else_stmts s)
  show ?case
    by (rule visit_If_ext [OF "3.prems"(1) accept_ext "3.IH"(1) "3.IH"(2)])
      (use "3.prems"(2) in simp_all)
next
  case (4 env s)
  then show ?case by (simp add: ext_refl)
next
  case (5 env st sts s)
  from "5.prems"(2) obtain s1 where a: "accept_stmt env st s = Inr s1"
    and b: "accept_stmts env sts s1 = Inr s'"
    by (auto split: sum.splits)
  have e1: "ext s s1"
    using "5.IH"(1) "5.prems"(1) a by simp
  then have "ip_ok s1"
    by (rule ext_ip_ok)
  then have "ext s1 s'"
    using "5.IH"(2) a b by simp
  with e1 show ?case
    using "5.prems"(1) ext_trans by blast
qed

lemma visit_Predicate_ext:
  assumes w: "ip_ok s"
    and IH: "\<And>t t'. ip_ok t \<Longrightarrow> acc e t = Inr t' \<Longrightarrow> ext t t'"
    and eq: "visit_Predicate acc e s = Inr s'"
  shows "ext s s'"
  using w eq
  apply (simp add: visit_Predicate_def Let_def create_defs assign_expr_def
      split: if_splits sum.splits option.splits)
  apply (drule IH[rotated, THEN ext_facts], simp add: ip_ok_def)
  apply clarify
  apply ((rule ext_prims | erule ext_step | simp add: ip_ok_def)+)
  done

section \<open>Properties of \<open>generateProbe\<close>\<close>

lemma generateProbe_alt:
  "generateProbe env probe full_func_id section_name expansion s =
     (case current_attach_point s of
        None \<Rightarrow> Inl NullPointer
      | Some ap \<Rightarrow>
          (case (case pred probe of
                   None \<Rightarrow> Inr (probe_head env probe full_func_id section_name ap s)
                 | Some e \<Rightarrow>
                     visit_Predicate (accept env) e
                       (probe_head env probe full_func_id section_name ap s)) of
             Inl err \<Rightarrow> Inl err
           | Inr s \<Rightarrow>
               (case accept_stmts env (stmts probe) (s\<lparr>variables := Map.empty\<rparr>) of
                  Inl err \<Rightarrow> Inl err
                | Inr s \<Rightarrow> Inr (CreateRet (ConstInt 64 0) s))))"
  unfolding generateProbe_def probe_head_def Let_def ..

lemma probe_head_fields [simp]:
  "funcs (probe_head env probe full_func_id section_name ap s) =
     funcs s @
     [\<lparr>fname = section_name, flinkage = ExternalLinkage,
       fsection = ''s_'' @ section_name @ ''_'' @
         to_string (next_index (Probe_name env probe) s),
       always_inline = False\<rparr>]"
  "next_probe_index (probe_head env probe full_func_id section_name ap s) =
     (next_probe_index s)
       (Probe_name env probe \<mapsto> wrap_int32 (next_index (Probe_name env probe) s + 1))"
  "insert_block (probe_head env probe full_func_id section_name ap s) = next_block s"
  "next_block (probe_head env probe full_func_id section_name ap s) = next_block s + 1"
  "next_reg (probe_head env probe full_func_id section_name ap s) = next_reg s"
  "variables (probe_head env probe full_func_id section_name ap s) = variables s"
  "blocks (probe_head env probe full_func_id section_name ap s) = (blocks s)(next_block s := [])"
  "cnt P (probe_head env probe full_func_id section_name ap s) = cnt P s"
  "ctx (probe_head env probe full_func_id section_name ap s) = Arg 0"
  by (auto simp: probe_head_def Let_def getNextIndexForProbe_def next_index_def
      Function_Create_def setSection_def getSectionNameForProbe_def new_func_def new_block_def
      cnt_def all_instrs_def split: option.splits)

lemma ext_frame:
  "ext s t \<Longrightarrow>
   funcs t = funcs s \<and> next_probe_index t = next_probe_index s \<and> ctx t = ctx s \<and>
   insert_block t < next_block t"
  by (simp add: ext_def)

lemma visit_Predicate_accept_ext:
  "ip_ok s \<Longrightarrow> visit_Predicate (accept env) e s = Inr s' \<Longrightarrow> ext s s'"
  by (rule visit_Predicate_ext [OF _ accept_ext])

lemma ip_ok_probe_head [simp]: "ip_ok (probe_head env probe full_func_id section_name ap s)"
  by (simp add: ip_ok_def)

lemma generateProbe_parts:
  assumes "generateProbe env probe full_func_id section_name expansion s = Inr s'"
  obtains ap s1 s2 where "current_attach_point s = Some ap"
    and "ext (probe_head env probe full_func_id section_name ap s) s1"
    and "pred probe = None \<Longrightarrow> s1 = probe_head env probe full_func_id section_name ap s"
    and "accept_stmts env (stmts probe) (s1\<lparr>variables := Map.empty\<rparr>) = Inr s2"
    and "s' = CreateRet (ConstInt 64 0) s2"
proof -
  from assms obtain ap s1 s2 where ap: "current_attach_point s = Some ap"
    and p: "(case pred probe of
                   None \<Rightarrow> Inr (probe_head env probe full_func_id section_name ap s)
                 | Some e \<Rightarrow>
                     visit_Predicate (accept env) e
                       (probe_head env probe full_func_id section_name ap s)) = Inr s1"
    and b: "accept_stmts env (stmts probe) (s1\<lparr>variables := Map.empty\<rparr>) = Inr s2"
    and r: "s' = CreateRet (ConstInt 64 0) s2"
    unfolding generateProbe_alt by (auto split: option.splits sum.splits)
  have e: "ext (probe_head env probe full_func_id section_name ap s) s1"
    using p visit_Predicate_accept_ext [OF ip_ok_probe_head]
    by (auto split: option.splits simp: ext_refl)
  have n: "pred probe = None \<Longrightarrow> s1 = probe_head env probe full_func_id section_name ap s"
    using p by simp
  show ?thesis
    by (rule that [OF ap e n b r])
qed

lemma ext_variables_clear:
  "ext s t \<Longrightarrow> ip_ok (t\<lparr>variables := Map.empty\<rparr>)"
  by (simp add: ext_def ip_ok_def)

lemmas driver_defs =
  visit_Probe_def visit_Probe_with_def expand_match_def generateProbe_def
  getNextIndexForProbe_def next_index_def getSectionNameForProbe_def save_ids_def
  reset_ids_def Function_Create_def setSection_def to_string_def nat_to_string.simps
  digit_chars_def split_colon_def

section \<open>Properties of \<open>exit\<close>\<close>

lemma call_exit_fields:
  assumes "ip_ok s"
  shows "blocks (call_exit env s) =
           (blocks s)(insert_block s := blocks s (insert_block s) @ exit_code env s,
                      next_block s := [])"
    and "insert_block (call_exit env s) = next_block s"
    and "next_block (call_exit env s) = next_block s + 1"
    and "block_name (call_exit env s) (next_block s) = ''deadcode''"
    and "expr (call_exit env s) = None"
    and "cnt P (call_exit env s) = cnt P s + length (filter P (exit_code env s))"
  using assms
  by (simp_all add: call_exit_def exit_code_def Let_def create_defs ip_ok_def)

lemma exec_exit_code:
  assumes "bl b = old @ exit_code env s"
  shows "exec bl 5 b (length old) m =
         Returned (IntV 64 0)
           (m\<lparr>regs := (regs m)(next_reg s \<mapsto> PtrV (next_reg s) 0),
              live := removeAll (next_reg s) (next_reg s # live m),
              mem := (mem m)((next_reg s, 0) \<mapsto> IntV 64 (asyncactionint_exit env mod 2 ^ 64)),
              events := events m @ [[Some (IntV 64 (asyncactionint_exit env mod 2 ^ 64))]]\<rparr>)"
  using assms
  by (simp add: exec_numeral exit_code_def set_reg_def nth_append upt_rec [of 0])

text \<open>
  C8. With the insertion point in a created block, lowering \<open>exit()\<close> appends to that
  block the record with the action number of \<open>exit\<close>, its \<open>perf_event_output\<close>, and
  then \<open>ret 0\<close>, and moves the insertion point to a new, empty block named
  \<open>deadcode\<close>. Whatever statements are lowered afterwards, the block that holds the
  return gets no further instruction, so a run that enters the code of \<open>exit\<close> emits
  the record and returns 0 without entering another block; and no instruction branches
  to \<open>deadcode\<close>, provided none did before the block was created.
\<close>

theorem C8_exit:
  assumes "ip_ok s" and "cnt (branches_to (next_block s)) s = 0"
  shows "\<exists>s1.
     accept env (Call ty ''exit'' mp vargs) s = Inr s1 \<and>
     blocks s1 =
       (blocks s)(insert_block s := blocks s (insert_block s) @ exit_code env s,
                  next_block s := []) \<and>
     insert_block s1 = next_block s \<and> block_name s1 (next_block s) = ''deadcode'' \<and>
     expr s1 = None \<and>
     (\<forall>rest s2. accept_stmts env rest s1 = Inr s2 \<longrightarrow>
        blocks s2 (insert_block s) = blocks s (insert_block s) @ exit_code env s \<and>
        cnt (branches_to (next_block s)) s2 = 0 \<and>
        (\<forall>m. \<exists>m'. exec (blocks s2) 5 (insert_block s) (length (blocks s (insert_block s))) m =
                  Returned (IntV 64 0) m' \<and>
                events m' =
                  events m @ [[Some (IntV 64 (asyncactionint_exit env mod 2 ^ 64))]] \<and>
                path m' = path m))"
proof -
  let ?s1 = "call_exit env s"
  note f = call_exit_fields [OF assms(1), where env = env]
  have ib: "insert_block s < next_block s"
    using assms(1) by (simp add: ip_ok_def)
  have w1: "ip_ok ?s1"
    by (simp add: ip_ok_def f)
  have later: "blocks s2 (insert_block s) = blocks s (insert_block s) @ exit_code env s \<and>
        cnt (branches_to (next_block s)) s2 = 0 \<and>
        (\<forall>m. \<exists>m'. exec (blocks s2) 5 (insert_block s) (length (blocks s (insert_block s))) m =
                  Returned (IntV 64 0) m' \<and>
                events m' =
                  events m @ [[Some (IntV 64 (asyncactionint_exit env mod 2 ^ 64))]] \<and>
                path m' = path m)"
    if "accept_stmts env rest ?s1 = Inr s2" for rest s2
  proof -
    have e: "ext ?s1 s2"
      by (rule accept_stmt_ext(2) [OF w1 that])
    have b: "blocks s2 (insert_block s) = blocks s (insert_block s) @ exit_code env s"
      using e ib by (simp add: ext_def f)
    have c: "cnt (branches_to (next_block s)) s2 = 0"
      using e assms(2) by (simp add: ext_def f exit_code_def branches_to_def)
    show ?thesis
      using b c exec_exit_code [of "blocks s2" "insert_block s" "blocks s (insert_block s)" env s, OF b]
      by simp
  qed
  show ?thesis
    apply (rule exI [of _ ?s1])
    using later apply (simp add: visit_Call_def f)
    done
qed

lemma entry_state_fields [simp]:
  "insert_block entry_state = 0" "next_block entry_state = 1" "next_reg entry_state = 0"
  "blocks entry_state = (\<lambda>_. [])" "ctx entry_state = Arg 0"
  "variables entry_state = Map.empty" "expr entry_state = None"
  by (simp_all add: entry_state_def init_codegen_def Function_Create_def fun_eq_iff)

lemma ip_ok_entry_state [simp]: "ip_ok entry_state"
  by (simp add: ip_ok_def)

lemma cnt_entry_state [simp]: "cnt P entry_state = 0"
  by (simp add: cnt_def all_instrs_def)

text \<open>
  \<open>exit(); @ = count();\<close> lowered in the entry block of a program: the entry block
  ends with the return, and the code of \<open>count\<close> is in the \<open>deadcode\<close> block.
\<close>

theorem C8_exit_witness:
  "ip_ok entry_state \<and> cnt (branches_to (next_block entry_state)) entry_state = 0 \<and>
   (case accept env0 exit_call entry_state of
      Inl e \<Rightarrow> None
    | Inr s1 \<Rightarrow> Some (insert_block s1, block_name s1 1, expr s1)) =
     Some (1, ''deadcode'', None) \<and>
   block_list (accept_stmts env0 [ExprStatement exit_call, count_stmt] entry_state) =
     Inr [[AllocaBPF 0 (Int_t 64) ''perfdata'', Store (ConstInt 64 30000) (Reg 0),
           PerfEventOutput (Arg 0) (Reg 0) 8, LifetimeEnd (Reg 0), Ret (ConstInt 64 0)],
          [AllocaBPF 1 (Sized_t CreateUInt64) ''@_key'', Store (ConstInt 64 0) (Reg 1),
           MapLookupElem 2 ''@'' (Reg 1), AllocaBPF 3 (Sized_t CreateUInt64) ''@_val'',
           Arith 4 BAdd (Reg 2) (ConstInt 64 1), Store (Reg 4) (Reg 3),
           MapUpdateElem ''@'' (Reg 1) (Reg 3), LifetimeEnd (Reg 1), LifetimeEnd (Reg 3)]]"
proof -
  have a: "ip_ok entry_state" and b: "cnt (branches_to (next_block entry_state)) entry_state = 0"
    by simp_all
  from C8_exit [OF a b, of env0 "\<lparr>kind = NoneTy, size_bytes = 0, is_signed = False\<rparr>" None "[]"]
  obtain s1 where s1: "accept env0 exit_call entry_state = Inr s1"
    "insert_block s1 = next_block entry_state"
    "block_name s1 (next_block entry_state) = ''deadcode''" "expr s1 = None"
    unfolding exit_call_def by blast
  have c: "(case accept env0 exit_call entry_state of
      Inl e \<Rightarrow> None
    | Inr s1 \<Rightarrow> Some (insert_block s1, block_name s1 1, expr s1)) =
     Some (1, ''deadcode'', None)"
    using s1 by simp
  have d: "block_list (accept_stmts env0 [ExprStatement exit_call, count_stmt] entry_state) =
     Inr [[AllocaBPF 0 (Int_t 64) ''perfdata'', Store (ConstInt 64 30000) (Reg 0),
           PerfEventOutput (Arg 0) (Reg 0) 8, LifetimeEnd (Reg 0), Ret (ConstInt 64 0)],
          [AllocaBPF 1 (Sized_t CreateUInt64) ''@_key'', Store (ConstInt 64 0) (Reg 1),
           MapLookupElem 2 ''@'' (Reg 1), AllocaBPF 3 (Sized_t CreateUInt64) ''@_val'',
           Arith 4 BAdd (Reg 2) (ConstInt 64 1), Store (Reg 4) (Reg 3),
           MapUpdateElem ''@'' (Reg 1) (Reg 3), LifetimeEnd (Reg 1), LifetimeEnd (Reg 3)]]"
    by (simp add: exit_call_def count_stmt_def example_defs visit_Call_def call_exit_def
        call_count_def getMapKey_def create_defs builder_defs Function_Create_def Let_def
        upt_rec [of 0] upt_rec [of "Suc 0"]
        cong: let_weak_cong)
  from a b c d show ?thesis by simp
qed

section \<open>Properties of the section names\<close>

lemma wrap_int32_in_range:
  "- 2147483648 \<le> i \<Longrightarrow> i < 2147483647 \<Longrightarrow> wrap_int32 (i + 1) = i + 1"
  by (simp add: wrap_int32_def)

lemma reset_ids_frame [simp]:
  "funcs (reset_ids st s) = funcs s"
  "next_probe_index (reset_ids st s) = next_probe_index s"
  "probefull (reset_ids st s) = probefull s"
  "current_attach_point (reset_ids st s) = current_attach_point s"
  by (simp_all add: reset_ids_def)

lemma next_index_frame [simp]:
  "next_index nm (reset_ids st s) = next_index nm s"
  "next_index nm (s\<lparr>current_usdt_location_index := i\<rparr>) = next_index nm s"
  "next_index nm (s\<lparr>current_attach_point := a\<rparr>) = next_index nm s"
  "next_index nm (s\<lparr>probefull := p\<rparr>) = next_index nm s"
  "next_index nm (s\<lparr>tracepoint_struct := ts\<rparr>) = next_index nm s"
  by (simp_all add: next_index_def)

lemma probe_head_frame [simp]:
  "probefull (probe_head env probe full_func_id section_name ap s) = probefull s"
  "current_attach_point (probe_head env probe full_func_id section_name ap s) =
     current_attach_point s"
  by (simp_all add: probe_head_def Let_def getNextIndexForProbe_def Function_Create_def
      setSection_def)

lemma generateProbe_program:
  assumes "generateProbe env probe full_func_id section_name expansion s = Inr s'"
  shows "funcs s' = funcs s @ [program section_name (next_index (Probe_name env probe) s)]"
    and "next_index (Probe_name env probe) s' = next_int32 (next_index (Probe_name env probe) s)"
    and "nm \<noteq> Probe_name env probe \<Longrightarrow> next_index nm s' = next_index nm s"
    and "probefull s' = probefull s"
    and "current_attach_point s' = current_attach_point s"
proof -
  from assms obtain ap s1 s2 where
    e1: "ext (probe_head env probe full_func_id section_name ap s) s1"
    and b: "accept_stmts env (stmts probe) (s1\<lparr>variables := Map.empty\<rparr>) = Inr s2"
    and r: "s' = CreateRet (ConstInt 64 0) s2"
    by (rule generateProbe_parts)
  have e2: "ext (s1\<lparr>variables := Map.empty\<rparr>) s2"
    using accept_stmt_ext(2) [OF ext_variables_clear [OF e1] b] .
  have f: "funcs s' = funcs (probe_head env probe full_func_id section_name ap s)"
    and n: "next_probe_index s' =
         next_probe_index (probe_head env probe full_func_id section_name ap s)"
    and p: "probefull s' = probefull (probe_head env probe full_func_id section_name ap s)"
    and c: "current_attach_point s' =
         current_attach_point (probe_head env probe full_func_id section_name ap s)"
    using e1 e2 r by (simp_all add: ext_def create_defs)
  show "funcs s' = funcs s @ [program section_name (next_index (Probe_name env probe) s)]"
    using f by (simp add: program_def)
  show "next_index (Probe_name env probe) s' = next_int32 (next_index (Probe_name env probe) s)"
    using n by (simp add: next_index_def next_int32_def)
  show "nm \<noteq> Probe_name env probe \<Longrightarrow> next_index nm s' = next_index nm s"
    using n by (simp add: next_index_def)
  show "probefull s' = probefull s"
    using p by simp
  show "current_attach_point s' = current_attach_point s"
    using c by simp
qed

lemma usdt_locations_programs:
  assumes "usdt_locations (generateProbe env) st probe match is s = Inr s'"
  shows "funcs s' =
           funcs s @
           map (\<lambda>j. program (probefull s @ ''_loc'' @ to_string (is ! j))
                      ((next_int32 ^^ j) (next_index (Probe_name env probe) s)))
             [0..<length is] \<and>
         probefull s' = probefull s"
  using assms
proof (induction "is" arbitrary: s)
  case Nil
  then show ?case by simp
next
  case (Cons i rest)
  from Cons.prems obtain t where
    g: "generateProbe env probe (match @ ''_loc'' @ to_string i)
          (probefull s @ ''_loc'' @ to_string i) True (reset_ids st s) = Inr t"
    and u: "usdt_locations (generateProbe env) st probe match rest
          (t\<lparr>current_usdt_location_index := current_usdt_location_index t + 1\<rparr>) = Inr s'"
    by (auto simp: Let_def split: sum.splits)
  note gp = generateProbe_program [OF g]
  have "funcs s' =
      funcs (t\<lparr>current_usdt_location_index := current_usdt_location_index t + 1\<rparr>) @
      map (\<lambda>j. program
                 (probefull (t\<lparr>current_usdt_location_index := current_usdt_location_index t + 1\<rparr>) @
                  ''_loc'' @ to_string (rest ! j))
                 ((next_int32 ^^ j)
                    (next_index (Probe_name env probe)
                       (t\<lparr>current_usdt_location_index := current_usdt_location_index t + 1\<rparr>))))
        [0..<length rest]"
    and "probefull s' =
      probefull (t\<lparr>current_usdt_location_index := current_usdt_location_index t + 1\<rparr>)"
    using Cons.IH [OF u] by simp_all
  then show ?case
    using gp(1,2,4)
    by (simp add: map_upt_Suc funpow_swap1 del: upt_Suc)
qed

lemma expand_match_usdt_programs:
  assumes "probetype env (provider (attach_points probe ! k)) = usdt"
    and "expand_match env (generateProbe env) st probe k match s = Inr s'"
  shows "\<exists>u ap'. funcs s' =
           funcs s @
           map (\<lambda>j. program (probefull s' @ ''_loc'' @ to_string (int j))
                      ((next_int32 ^^ j)
                         (next_index
                            (Probe_name env
                               (probe\<lparr>attach_points := (attach_points probe)[k := ap']\<rparr>)) s)))
             [0..<nat (num_locations u)] \<and>
         ap' = (attach_points probe ! k)
                 \<lparr>target := fst (erase_prefix env match),
                  ns := fst (erase_prefix env (snd (erase_prefix env match)))\<rparr> \<and>
         USDTHelper_find env (pid env) (target ap') (ns ap')
           (snd (erase_prefix env (snd (erase_prefix env match)))) = Some u \<and>
         probefull s' =
           AttachPoint_name env ap' (snd (erase_prefix env (snd (erase_prefix env match))))"
proof -
  let ?ap = "attach_points probe ! k"
  let ?ap' = "?ap\<lparr>target := fst (erase_prefix env match),
                  ns := fst (erase_prefix env (snd (erase_prefix env match)))\<rparr>"
  let ?f = "snd (erase_prefix env (snd (erase_prefix env match)))"
  let ?probe' = "probe\<lparr>attach_points := (attach_points probe)[k := ?ap']\<rparr>"
  let ?s0 = "(reset_ids st s)\<lparr>current_attach_point := Some ?ap',
               probefull := AttachPoint_name env ?ap' ?f, current_usdt_location_index := 0\<rparr>"
  from assms obtain u t where
    u: "USDTHelper_find env (pid env) (fst (erase_prefix env match))
          (fst (erase_prefix env (snd (erase_prefix env match)))) ?f = Some u"
    and l: "usdt_locations (generateProbe env) st ?probe' match
              (map int [0..<nat (num_locations u)]) ?s0 = Inr t"
    and s': "s' = t\<lparr>current_attach_point := Some ?ap\<rparr>"
    by (auto simp: expand_match_def Let_def split: option.splits sum.splits)
  from usdt_locations_programs [OF l]
  have "funcs s' =
           funcs s @
           map (\<lambda>j. program (probefull s' @ ''_loc'' @ to_string (int j))
                      ((next_int32 ^^ j) (next_index (Probe_name env ?probe') s)))
             [0..<nat (num_locations u)]"
    and "probefull s' = AttachPoint_name env ?ap' ?f"
    by (simp_all add: s' cong: map_cong)
  with u show ?thesis
    by simp
qed

lemma expand_match_other_programs:
  assumes "probetype env (provider (attach_points probe ! k)) \<noteq> usdt"
    and "expand_match env (generateProbe env) st probe k match s = Inr s'"
  shows "funcs s' = funcs s @ [program (probefull s') (next_index (Probe_name env probe) s)] \<and>
         probefull s' =
           (let ap = attach_points probe ! k in
            if provider ap = ''BEGIN'' \<or> provider ap = ''END'' then provider ap
            else if probetype env (provider ap) = tracepoint \<or>
                    probetype env (provider ap) = uprobe \<or>
                    probetype env (provider ap) = uretprobe
            then AttachPoint_name2 env ap (fst (erase_prefix env match))
                   (snd (erase_prefix env match))
            else AttachPoint_name env ap match)"
proof -
  let ?ap = "attach_points probe ! k"
  let ?nm = "if provider ?ap = ''BEGIN'' \<or> provider ?ap = ''END'' then provider ?ap
            else if probetype env (provider ?ap) = tracepoint \<or>
                    probetype env (provider ?ap) = uprobe \<or>
                    probetype env (provider ?ap) = uretprobe
            then AttachPoint_name2 env ?ap (fst (erase_prefix env match))
                   (snd (erase_prefix env match))
            else AttachPoint_name env ?ap match"
  from assms have g: "generateProbe env probe match ?nm True
                        ((reset_ids st s)\<lparr>probefull := ?nm\<rparr>) = Inr s'"
    by (auto simp: expand_match_def Let_def split: if_splits)
  note gp = generateProbe_program [OF g]
  show ?thesis
    using gp(1,4) by (simp add: Let_def)
qed

lemma visit_Probe_single_program:
  assumes "need_expansion probe = False"
    and "probetype env (provider (hd (attach_points probe))) \<noteq> usdt"
    and "visit_Probe env probe s = Inr s'"
  shows "funcs s' = funcs s @ [program (probefull s') (next_index (Probe_name env probe) s)] \<and>
         probefull s' = Probe_name env probe"
proof -
  from assms obtain t where
    g: "generateProbe env probe (Probe_name env probe) (Probe_name env probe) False
          (s\<lparr>current_attach_point := Some (hd (attach_points probe)),
             probefull := Probe_name env probe\<rparr>) = Inr t"
    and s': "s' = t\<lparr>current_attach_point := None\<rparr>"
    by (auto simp: visit_Probe_def visit_Probe_with_def Let_def split: if_splits sum.splits)
  note gp = generateProbe_program [OF g]
  show ?thesis
    using gp(1,4) by (simp add: s')
qed

text \<open>
  C9. A program that \<open>generateProbe\<close> emits is a new function of the module, named as
  \<open>generateProbe\<close> was told, and its section is \<open>s_\<close>, that name, \<open>_\<close> and the index.
  The index is the counter kept for the name of the probe (\<open>probe.name()\<close>): it is 1
  when no program has been generated under that name, the program leaves the counter
  at the next \<open>int\<close>, which is one higher unless the counter has reached the largest
  \<open>int\<close>, and it leaves the counters of all other names as they are. The name that
  \<open>visit(Probe&)\<close> tells \<open>generateProbe\<close> is the full probe name it has resolved
  (\<open>probefull_\<close>): the name of the probe when the probe is not expanded; the name
  resolved for the match when it is; and for a USDT probe the name resolved for the
  match with the suffix \<open>_loc<i>\<close> for the location \<open>i\<close>, where the locations of one
  match get consecutive indexes.
\<close>

theorem C9_section_name:
  "(generateProbe env probe full_func_id section_name expansion s = Inr s' \<longrightarrow>
      funcs s' = funcs s @ [program section_name (next_index (Probe_name env probe) s)] \<and>
      next_index (Probe_name env probe) s' =
        next_int32 (next_index (Probe_name env probe) s) \<and>
      (\<forall>nm. nm \<noteq> Probe_name env probe \<longrightarrow> next_index nm s' = next_index nm s)) \<and>
   (next_probe_index s nm = None \<longrightarrow> next_index nm s = 1) \<and>
   (- 2147483648 \<le> i \<and> i < 2147483647 \<longrightarrow> next_int32 i = i + 1) \<and>
   (need_expansion probe = False \<and>
    probetype env (provider (hd (attach_points probe))) \<noteq> usdt \<and>
    visit_Probe env probe s = Inr s1 \<longrightarrow>
      funcs s1 = funcs s @ [program (probefull s1) (next_index (Probe_name env probe) s)] \<and>
      probefull s1 = Probe_name env probe) \<and>
   (probetype env (provider (attach_points probe ! k)) \<noteq> usdt \<and>
    expand_match env (generateProbe env) st probe k match s = Inr s2 \<longrightarrow>
      funcs s2 = funcs s @ [program (probefull s2) (next_index (Probe_name env probe) s)] \<and>
      probefull s2 =
        (let ap = attach_points probe ! k in
         if provider ap = ''BEGIN'' \<or> provider ap = ''END'' then provider ap
         else if probetype env (provider ap) = tracepoint \<or>
                 probetype env (provider ap) = uprobe \<or>
                 probetype env (provider ap) = uretprobe
         then AttachPoint_name2 env ap (fst (erase_prefix env match))
                (snd (erase_prefix env match))
         else AttachPoint_name env ap match)) \<and>
   (probetype env (provider (attach_points probe ! k)) = usdt \<and>
    expand_match env (generateProbe env) st probe k match s = Inr s3 \<longrightarrow>
      (\<exists>u ap'.
         funcs s3 =
           funcs s @
           map (\<lambda>j. program (probefull s3 @ ''_loc'' @ to_string (int j))
                      ((next_int32 ^^ j)
                         (next_index
                            (Probe_name env
                               (probe\<lparr>attach_points := (attach_points probe)[k := ap']\<rparr>)) s)))
             [0..<nat (num_locations u)] \<and>
         ap' = (attach_points probe ! k)
                 \<lparr>target := fst (erase_prefix env match),
                  ns := fst (erase_prefix env (snd (erase_prefix env match)))\<rparr> \<and>
         USDTHelper_find env (pid env) (target ap') (ns ap')
           (snd (erase_prefix env (snd (erase_prefix env match)))) = Some u \<and>
         probefull s3 =
           AttachPoint_name env ap' (snd (erase_prefix env (snd (erase_prefix env match))))))"
  using generateProbe_program(1,2,3) [of env probe full_func_id section_name expansion s s']
    expand_match_usdt_programs [of env probe k st match s s3]
    expand_match_other_programs [of env probe k st match s s2]
    visit_Probe_single_program [of probe env s s1]
    wrap_int32_in_range [of i]
  by (simp add: next_index_def next_int32_def)

lemmas name_defs =
  to_string_def nat_to_string.simps digit_chars_def split_colon_def program_def
  next_int32_def wrap_int32_def next_index_def

text \<open>
  The sections of the programs of \<open>usdt:libfoo:probe1\<close>, whose library has two
  locations, are \<open>s_usdt:libfoo:probe1_loc0_1\<close> and \<open>s_usdt:libfoo:probe1_loc1_2\<close>; the
  two matches of \<open>kprobe:f*\<close>, when the probe is expanded, give \<open>s_kprobe:f1_1\<close> and
  \<open>s_kprobe:f2_2\<close>; two probes of the same name that are not expanded give
  \<open>s_kprobe:f*_1\<close> and \<open>s_kprobe:f*_2\<close>.
\<close>

theorem C9_section_witness:
  "sections (expand_match env0 (generateProbe env0) (save_ids init_codegen)
      (usdt_count\<lparr>need_expansion := True\<rparr>) 0 ''libfoo::probe1'' usdt_match_state) =
     Inr [''s_usdt:libfoo:probe1_loc0_1'', ''s_usdt:libfoo:probe1_loc1_2''] \<and>
   sections (visit_Probe env0 usdt_count init_codegen) =
     Inr [''s_usdt:libfoo:probe1_loc0_1'', ''s_usdt:libfoo:probe1_loc1_2''] \<and>
   sections (visit_Probe env0 kprobe_wild init_codegen) =
     Inr [''s_kprobe:f1_1'', ''s_kprobe:f2_2''] \<and>
   sections (visit_Program env0 [kprobe_plain, kprobe_plain] init_codegen) =
     Inr [''s_kprobe:f*_1'', ''s_kprobe:f*_2'']"
proof -
  obtain s3 where g: "expand_match env0 (generateProbe env0) (save_ids init_codegen)
      (usdt_count\<lparr>need_expansion := True\<rparr>) 0 ''libfoo::probe1'' usdt_match_state = Inr s3"
    by (simp add: driver_defs wrap_int32_def usdt_match_state_def usdt_count_def
        usdt_probe1_def example_defs
        visit_Call_def call_count_def getMapKey_def create_defs builder_defs Let_def
        upt_rec [of 0] upt_rec [of "Suc 0"]
        cong: let_weak_cong)
  have u: "probetype env0 (provider (attach_points (usdt_count\<lparr>need_expansion := True\<rparr>) ! 0)) =
           usdt"
    by (simp add: env0_def usdt_count_def usdt_probe1_def)
  note c9 = C9_section_name [where env = env0
      and probe = "usdt_count\<lparr>need_expansion := True\<rparr>"
      and k = 0 and st = "save_ids init_codegen" and match = "''libfoo::probe1''"
      and s = usdt_match_state and ?s3.0 = s3,
      THEN conjunct2, THEN conjunct2, THEN conjunct2, THEN conjunct2, THEN conjunct2,
      THEN mp, OF conjI [OF u g]]
  from c9 obtain uu ap' where
    f: "funcs s3 =
           funcs usdt_match_state @
           map (\<lambda>j. program (probefull s3 @ ''_loc'' @ to_string (int j))
                      ((next_int32 ^^ j)
                         (next_index
                            (Probe_name env0
                               (usdt_count\<lparr>need_expansion := True,
                                  attach_points :=
                                    (attach_points (usdt_count\<lparr>need_expansion := True\<rparr>))
                                      [0 := ap']\<rparr>)) usdt_match_state)))
             [0..<nat (num_locations uu)]"
    and a: "ap' = (attach_points (usdt_count\<lparr>need_expansion := True\<rparr>) ! 0)
                 \<lparr>target := fst (erase_prefix env0 ''libfoo::probe1''),
                  ns := fst (erase_prefix env0 (snd (erase_prefix env0 ''libfoo::probe1'')))\<rparr>"
    and h: "USDTHelper_find env0 (pid env0) (target ap') (ns ap')
           (snd (erase_prefix env0 (snd (erase_prefix env0 ''libfoo::probe1'')))) = Some uu"
    and p: "probefull s3 =
           AttachPoint_name env0 ap'
             (snd (erase_prefix env0 (snd (erase_prefix env0 ''libfoo::probe1''))))"
    by (elim exE conjE) (rule that, simp_all only: Probe.simps)
  have n: "uu = \<lparr>num_locations = 2\<rparr>"
    using h by (simp add: env0_def)
  have "map fsection (funcs s3) =
        [''s_usdt:libfoo:probe1_loc0_1'', ''s_usdt:libfoo:probe1_loc1_2'']"
    unfolding f p a n
    by (simp add: name_defs usdt_match_state_def usdt_count_def usdt_probe1_def
        init_codegen_def env0_def upt_rec [of 0] upt_rec [of "Suc 0"])
  then have a1: "sections (expand_match env0 (generateProbe env0) (save_ids init_codegen)
      (usdt_count\<lparr>need_expansion := True\<rparr>) 0 ''libfoo::probe1'' usdt_match_state) =
     Inr [''s_usdt:libfoo:probe1_loc0_1'', ''s_usdt:libfoo:probe1_loc1_2'']"
    unfolding g by (simp add: sections_def)
  have a2: "sections (visit_Probe env0 usdt_count init_codegen) =
     Inr [''s_usdt:libfoo:probe1_loc0_1'', ''s_usdt:libfoo:probe1_loc1_2'']"
    by (simp add: sections_def driver_defs wrap_int32_def usdt_count_def usdt_probe1_def
        count_stmt_def example_defs
        visit_Call_def call_count_def getMapKey_def create_defs builder_defs Let_def
        upt_rec [of 0] upt_rec [of "Suc 0"]
        cong: let_weak_cong)
  have a3: "sections (visit_Probe env0 kprobe_wild init_codegen) =
     Inr [''s_kprobe:f1_1'', ''s_kprobe:f2_2'']"
    by (simp add: sections_def driver_defs wrap_int32_def kprobe_wild_def strftime_stmt_def
        kprobe_f_def example_defs visit_Integer_def
        visit_Call_def call_strftime_def create_defs builder_defs Let_def
        upt_rec [of 0] upt_rec [of "Suc 0"]
        cong: let_weak_cong)
  have a4: "sections (visit_Program env0 [kprobe_plain, kprobe_plain] init_codegen) =
     Inr [''s_kprobe:f*_1'', ''s_kprobe:f*_2'']"
    by (simp add: sections_def driver_defs wrap_int32_def kprobe_plain_def count_stmt_def
        kprobe_f_def example_defs
        visit_Call_def call_count_def getMapKey_def create_defs builder_defs Let_def
        upt_rec [of 0] upt_rec [of "Suc 0"]
        cong: let_weak_cong)
  from a1 a2 a3 a4 show ?thesis by simp
qed

section \<open>Properties of the logical operators\<close>

lemma createLogicalAnd_alt:
  "createLogicalAnd acc l r s =
     (if \<not> IsIntTy (expr_type l) \<or> \<not> IsIntTy (expr_type r) then Inl AssertionFailed
      else
        (case acc l (land_head s) of
           Inl e \<Rightarrow> Inl e
         | Inr s1 \<Rightarrow>
             (case expr s1 of
                None \<Rightarrow> Inl NullPointer
              | Some lhs \<Rightarrow>
                  (case acc r (land_branch lhs s s1) of
                     Inl e \<Rightarrow> Inl e
                   | Inr s4 \<Rightarrow>
                       (case expr s4 of
                          None \<Rightarrow> Inl NullPointer
                        | Some rhs \<Rightarrow> Inr (land_tail rhs s s4))))))"
  by (simp add: createLogicalAnd_def land_head_def land_branch_def land_tail_def Let_def
      create_defs numeral_3_eq_3 split: sum.split option.split)


lemma land_head_fields:
  assumes "ip_ok s"
  shows "insert_block (land_head s) = insert_block s"
    and "next_block (land_head s) = next_block s + 4"
    and "next_reg (land_head s) = next_reg s + 1"
    and "blocks (land_head s) (insert_block s) =
           blocks s (insert_block s) @ [AllocaBPF (next_reg s) (Int_t 64) ''&&_result'']"
    and "blocks (land_head s) (next_block s) = []"
    and "blocks (land_head s) (next_block s + 1) = []"
    and "blocks (land_head s) (next_block s + 2) = []"
    and "blocks (land_head s) (next_block s + 3) = []"
    and "cnt (branches_to l) (land_head s) = cnt (branches_to l) s"
    and "ip_ok (land_head s)"
  using assms
  by (simp_all add: land_head_def Let_def create_defs ip_ok_def branches_to_def)

lemma land_branch_fields:
  assumes "ip_ok s1"
  shows "insert_block (land_branch lhs s s1) = next_block s"
    and "next_block (land_branch lhs s s1) = next_block s1"
    and "blocks (land_branch lhs s s1) =
           (blocks s1)(insert_block s1 := blocks s1 (insert_block s1) @
             [ICmp (next_reg s1) ICMP_NE lhs (IntSameSize 0 lhs),
              CondBr (Reg (next_reg s1)) (next_block s) (next_block s + 2)])"
    and "cnt (branches_to l) (land_branch lhs s s1) =
           cnt (branches_to l) s1 + (if l = next_block s \<or> l = next_block s + 2 then 1 else 0)"
  using assms
  by (auto simp: land_branch_def Let_def create_defs ip_ok_def branches_to_def)

lemma land_tail_fields:
  assumes "ip_ok s4" and "next_block s + 3 < next_block s4"
    and "insert_block s4 = next_block s \<or> next_block s + 3 < insert_block s4"
  shows "blocks (land_tail rhs s s4) (next_block s + 2) =
           blocks s4 (next_block s + 2) @
           [Store (ConstInt 64 0) (Reg (next_reg s)), Br (next_block s + 3)]"
    and "blocks (land_tail rhs s s4) (next_block s + 3) =
           blocks s4 (next_block s + 3) @ [Load (next_reg s4 + 1) (Reg (next_reg s))]"
    and "b < next_block s \<Longrightarrow> blocks (land_tail rhs s s4) b = blocks s4 b"
    and "expr (land_tail rhs s s4) = Some (Reg (next_reg s4 + 1))"
    and "cnt (branches_to (next_block s)) (land_tail rhs s s4) =
           cnt (branches_to (next_block s)) s4"
  using assms
  by (auto simp: land_tail_def Let_def create_defs ip_ok_def branches_to_def)

lemma ext_old_block:
  "ext s t \<Longrightarrow> b < next_block s \<Longrightarrow> b \<noteq> insert_block s \<Longrightarrow> blocks t b = blocks s b"
  by (simp add: ext_def)

lemma ext_branches:
  "ext s t \<Longrightarrow> l < next_block s \<Longrightarrow> cnt (branches_to l) t = cnt (branches_to l) s"
  by (simp add: ext_def)

lemma land_parts:
  assumes "createLogicalAnd (accept env) l r s = Inr s'"
  obtains s1 lhs s4 rhs where
    "accept env l (land_head s) = Inr s1" and "expr s1 = Some lhs"
    and "accept env r (land_branch lhs s s1) = Inr s4" and "expr s4 = Some rhs"
    and "s' = land_tail rhs s s4"
  using assms unfolding createLogicalAnd_alt
  by (auto split: if_splits sum.splits option.splits)

lemma land_structure:
  assumes w: "ip_ok s" and c0: "cnt (branches_to (next_block s)) s = 0"
    and l: "accept env l (land_head s) = Inr s1" and lhs: "expr s1 = Some lhs"
    and r: "accept env r (land_branch lhs s s1) = Inr s4"
  shows "\<forall>b. b < next_block (land_branch lhs s s1) \<longrightarrow> b \<noteq> next_block s \<longrightarrow>
           blocks s4 b = blocks (land_branch lhs s s1) b"
    and "cnt (branches_to (next_block s)) (land_tail rhs s s4) = 1"
    and "blocks (land_tail rhs s s4) (next_block s + 2) =
           [Store (ConstInt 64 0) (Reg (next_reg s)), Br (next_block s + 3)]"
    and "blocks (land_tail rhs s s4) (next_block s + 3) =
           [Load (next_reg s4 + 1) (Reg (next_reg s))]"
    and "insert_block s1 = insert_block s \<Longrightarrow>
         blocks (land_tail rhs s s4) (insert_block s) =
           blocks s1 (insert_block s) @
             [ICmp (next_reg s1) ICMP_NE lhs (IntSameSize 0 lhs),
              CondBr (Reg (next_reg s1)) (next_block s) (next_block s + 2)]"
proof -
  let ?n = "next_block s"
  let ?s3 = "land_branch lhs s s1"
  note h = land_head_fields [OF w]
  have b0: "insert_block s < ?n"
    using w by (simp add: ip_ok_def)
  have e1: "ext (land_head s) s1"
    by (rule accept_ext [OF h(10) l])
  have w1: "ip_ok s1"
    by (rule ext_ip_ok [OF e1])
  note br = land_branch_fields [OF w1, where lhs = lhs and s = s]
  have n1: "?n + 4 \<le> next_block s1"
    using e1 by (simp add: ext_def h)
  have i1: "insert_block s1 = insert_block s \<or> ?n + 4 \<le> insert_block s1"
    using e1 by (simp add: ext_def h)
  have w3: "ip_ok ?s3"
    using n1 by (simp add: ip_ok_def br)
  have e2: "ext ?s3 s4"
    by (rule accept_ext [OF w3 r])
  have w4: "ip_ok s4"
    by (rule ext_ip_ok [OF e2])
  have n4: "next_block s1 \<le> next_block s4"
    using e2 by (simp add: ext_def br)
  have i4: "insert_block s4 = ?n \<or> next_block s1 \<le> insert_block s4"
    using e2 by (simp add: ext_def br)
  have t: "?n + 3 < next_block s4" "insert_block s4 = ?n \<or> ?n + 3 < insert_block s4"
    using n1 n4 i4 by auto
  note tl = land_tail_fields [OF w4 t, where rhs = rhs]
  have old: "blocks s4 b = blocks ?s3 b" if "b < next_block ?s3" "b \<noteq> ?n" for b
    using ext_old_block [OF e2, of b] that by (simp add: br(1))
  show "\<forall>b. b < next_block ?s3 \<longrightarrow> b \<noteq> ?n \<longrightarrow> blocks s4 b = blocks ?s3 b"
    using old by blast
  have empty: "blocks s4 (?n + k) = []" if "k = 2 \<or> k = 3" for k
  proof -
    have "blocks s4 (?n + k) = blocks ?s3 (?n + k)"
      using that n1 by (intro old) (auto simp: br)
    also have "\<dots> = blocks s1 (?n + k)"
      using that i1 b0 by (auto simp: br)
    also have "\<dots> = blocks (land_head s) (?n + k)"
      using ext_old_block [OF e1, of "?n + k"] that b0 by (auto simp: h)
    also have "\<dots> = []"
      using that h by auto
    finally show ?thesis .
  qed
  show "blocks (land_tail rhs s s4) (?n + 2) =
           [Store (ConstInt 64 0) (Reg (next_reg s)), Br (?n + 3)]"
    using empty [of 2] tl(1) by simp
  show "blocks (land_tail rhs s s4) (?n + 3) = [Load (next_reg s4 + 1) (Reg (next_reg s))]"
    using empty [of 3] tl(2) by simp
  have "cnt (branches_to ?n) s4 = cnt (branches_to ?n) ?s3"
    using ext_branches [OF e2, of ?n] n1 by (simp add: br)
  also have "\<dots> = cnt (branches_to ?n) s1 + 1"
    by (simp add: br)
  also have "cnt (branches_to ?n) s1 = cnt (branches_to ?n) (land_head s)"
    using ext_branches [OF e1, of ?n] by (simp add: h)
  finally show "cnt (branches_to ?n) (land_tail rhs s s4) = 1"
    using c0 by (simp add: tl h)
  show "blocks (land_tail rhs s s4) (insert_block s) =
           blocks s1 (insert_block s) @
             [ICmp (next_reg s1) ICMP_NE lhs (IntSameSize 0 lhs),
              CondBr (Reg (next_reg s1)) ?n (?n + 2)]"
    if "insert_block s1 = insert_block s"
  proof -
    have "blocks (land_tail rhs s s4) (insert_block s) = blocks s4 (insert_block s)"
      using b0 by (simp add: tl)
    also have "\<dots> = blocks ?s3 (insert_block s)"
      using b0 n1 by (intro old) (auto simp: br)
    finally show ?thesis
      using that by (simp add: br)
  qed
qed

lemma exec_short_circuit_zero:
  assumes "bl b0 =
             old @ [AllocaBPF r ty nm,
                    ICmp c ICMP_NE (ConstInt 64 k) (IntSameSize 0 (ConstInt 64 k)),
                    CondBr (Reg c) t f]"
    and "bl f = [Store (ConstInt 64 x) (Reg r), Br mrg]"
    and "bl mrg = [Load v (Reg r)]"
    and "c \<noteq> r"
    and "k mod 18446744073709551616 = 0"
  shows "\<exists>m'. exec bl 7 b0 (length old) m = FellOff m' \<and>
           path m' = path m @ [f, mrg] \<and> regs m' v = Some (IntV 64 (x mod 2 ^ 64))"
  using assms
  by (simp add: exec_numeral set_reg_def eval_icmp_def nth_append)

lemma exec_short_circuit_nonzero:
  assumes "bl b0 =
             old @ [AllocaBPF r ty nm,
                    ICmp c ICMP_NE (ConstInt 64 k) (IntSameSize 0 (ConstInt 64 k)),
                    CondBr (Reg c) t f]"
    and "bl t = [Store (ConstInt 64 x) (Reg r), Br mrg]"
    and "bl mrg = [Load v (Reg r)]"
    and "c \<noteq> r"
    and "k mod 18446744073709551616 \<noteq> 0"
  shows "\<exists>m'. exec bl 7 b0 (length old) m = FellOff m' \<and>
           path m' = path m @ [t, mrg] \<and> regs m' v = Some (IntV 64 (x mod 2 ^ 64))"
  using assms
  by (simp add: exec_numeral set_reg_def eval_icmp_def nth_append)

lemma createLogicalOr_alt:
  "createLogicalOr acc l r s =
     (if \<not> IsIntTy (expr_type l) \<or> \<not> IsIntTy (expr_type r) then Inl AssertionFailed
      else
        (case acc l (lor_head s) of
           Inl e \<Rightarrow> Inl e
         | Inr s1 \<Rightarrow>
             (case expr s1 of
                None \<Rightarrow> Inl NullPointer
              | Some lhs \<Rightarrow>
                  (case acc r (lor_branch lhs s s1) of
                     Inl e \<Rightarrow> Inl e
                   | Inr s4 \<Rightarrow>
                       (case expr s4 of
                          None \<Rightarrow> Inl NullPointer
                        | Some rhs \<Rightarrow> Inr (lor_tail rhs s s4))))))"
  by (simp add: createLogicalOr_def lor_head_def lor_branch_def lor_tail_def Let_def
      create_defs numeral_3_eq_3 split: sum.split option.split)


lemma lor_head_fields:
  assumes "ip_ok s"
  shows "insert_block (lor_head s) = insert_block s"
    and "next_block (lor_head s) = next_block s + 4"
    and "next_reg (lor_head s) = next_reg s + 1"
    and "blocks (lor_head s) (insert_block s) =
           blocks s (insert_block s) @ [AllocaBPF (next_reg s) (Int_t 64) ''||_result'']"
    and "blocks (lor_head s) (next_block s) = []"
    and "blocks (lor_head s) (next_block s + 1) = []"
    and "blocks (lor_head s) (next_block s + 2) = []"
    and "blocks (lor_head s) (next_block s + 3) = []"
    and "cnt (branches_to l) (lor_head s) = cnt (branches_to l) s"
    and "ip_ok (lor_head s)"
  using assms
  by (simp_all add: lor_head_def Let_def create_defs ip_ok_def branches_to_def)

lemma lor_branch_fields:
  assumes "ip_ok s1"
  shows "insert_block (lor_branch lhs s s1) = next_block s"
    and "next_block (lor_branch lhs s s1) = next_block s1"
    and "blocks (lor_branch lhs s s1) =
           (blocks s1)(insert_block s1 := blocks s1 (insert_block s1) @
             [ICmp (next_reg s1) ICMP_NE lhs (IntSameSize 0 lhs),
              CondBr (Reg (next_reg s1)) (next_block s + 2) (next_block s)])"
    and "cnt (branches_to l) (lor_branch lhs s s1) =
           cnt (branches_to l) s1 + (if l = next_block s \<or> l = next_block s + 2 then 1 else 0)"
  using assms
  by (auto simp: lor_branch_def Let_def create_defs ip_ok_def branches_to_def)

lemma lor_tail_fields:
  assumes "ip_ok s4" and "next_block s + 3 < next_block s4"
    and "insert_block s4 = next_block s \<or> next_block s + 3 < insert_block s4"
  shows "blocks (lor_tail rhs s s4) (next_block s + 2) =
           blocks s4 (next_block s + 2) @
           [Store (ConstInt 64 1) (Reg (next_reg s)), Br (next_block s + 3)]"
    and "blocks (lor_tail rhs s s4) (next_block s + 3) =
           blocks s4 (next_block s + 3) @ [Load (next_reg s4 + 1) (Reg (next_reg s))]"
    and "b < next_block s \<Longrightarrow> blocks (lor_tail rhs s s4) b = blocks s4 b"
    and "expr (lor_tail rhs s s4) = Some (Reg (next_reg s4 + 1))"
    and "cnt (branches_to (next_block s)) (lor_tail rhs s s4) =
           cnt (branches_to (next_block s)) s4"
  using assms
  by (auto simp: lor_tail_def Let_def create_defs ip_ok_def branches_to_def)

lemma lor_parts:
  assumes "createLogicalOr (accept env) l r s = Inr s'"
  obtains s1 lhs s4 rhs where
    "accept env l (lor_head s) = Inr s1" and "expr s1 = Some lhs"
    and "accept env r (lor_branch lhs s s1) = Inr s4" and "expr s4 = Some rhs"
    and "s' = lor_tail rhs s s4"
  using assms unfolding createLogicalOr_alt
  by (auto split: if_splits sum.splits option.splits)

lemma lor_structure:
  assumes w: "ip_ok s" and c0: "cnt (branches_to (next_block s)) s = 0"
    and l: "accept env l (lor_head s) = Inr s1" and lhs: "expr s1 = Some lhs"
    and r: "accept env r (lor_branch lhs s s1) = Inr s4"
  shows "\<forall>b. b < next_block (lor_branch lhs s s1) \<longrightarrow> b \<noteq> next_block s \<longrightarrow>
           blocks s4 b = blocks (lor_branch lhs s s1) b"
    and "cnt (branches_to (next_block s)) (lor_tail rhs s s4) = 1"
    and "blocks (lor_tail rhs s s4) (next_block s + 2) =
           [Store (ConstInt 64 1) (Reg (next_reg s)), Br (next_block s + 3)]"
    and "blocks (lor_tail rhs s s4) (next_block s + 3) =
           [Load (next_reg s4 + 1) (Reg (next_reg s))]"
    and "insert_block s1 = insert_block s \<Longrightarrow>
         blocks (lor_tail rhs s s4) (insert_block s) =
           blocks s1 (insert_block s) @
             [ICmp (next_reg s1) ICMP_NE lhs (IntSameSize 0 lhs),
              CondBr (Reg (next_reg s1)) (next_block s + 2) (next_block s)]"
proof -
  let ?n = "next_block s"
  let ?s3 = "lor_branch lhs s s1"
  note h = lor_head_fields [OF w]
  have b0: "insert_block s < ?n"
    using w by (simp add: ip_ok_def)
  have e1: "ext (lor_head s) s1"
    by (rule accept_ext [OF h(10) l])
  have w1: "ip_ok s1"
    by (rule ext_ip_ok [OF e1])
  note br = lor_branch_fields [OF w1, where lhs = lhs and s = s]
  have n1: "?n + 4 \<le> next_block s1"
    using e1 by (simp add: ext_def h)
  have i1: "insert_block s1 = insert_block s \<or> ?n + 4 \<le> insert_block s1"
    using e1 by (simp add: ext_def h)
  have w3: "ip_ok ?s3"
    using n1 by (simp add: ip_ok_def br)
  have e2: "ext ?s3 s4"
    by (rule accept_ext [OF w3 r])
  have w4: "ip_ok s4"
    by (rule ext_ip_ok [OF e2])
  have n4: "next_block s1 \<le> next_block s4"
    using e2 by (simp add: ext_def br)
  have i4: "insert_block s4 = ?n \<or> next_block s1 \<le> insert_block s4"
    using e2 by (simp add: ext_def br)
  have t: "?n + 3 < next_block s4" "insert_block s4 = ?n \<or> ?n + 3 < insert_block s4"
    using n1 n4 i4 by auto
  note tl = lor_tail_fields [OF w4 t, where rhs = rhs]
  have old: "blocks s4 b = blocks ?s3 b" if "b < next_block ?s3" "b \<noteq> ?n" for b
    using ext_old_block [OF e2, of b] that by (simp add: br(1))
  show "\<forall>b. b < next_block ?s3 \<longrightarrow> b \<noteq> ?n \<longrightarrow> blocks s4 b = blocks ?s3 b"
    using old by blast
  have empty: "blocks s4 (?n + k) = []" if "k = 2 \<or> k = 3" for k
  proof -
    have "blocks s4 (?n + k) = blocks ?s3 (?n + k)"
      using that n1 by (intro old) (auto simp: br)
    also have "\<dots> = blocks s1 (?n + k)"
      using that i1 b0 by (auto simp: br)
    also have "\<dots> = blocks (lor_head s) (?n + k)"
      using ext_old_block [OF e1, of "?n + k"] that b0 by (auto simp: h)
    also have "\<dots> = []"
      using that h by auto
    finally show ?thesis .
  qed
  show "blocks (lor_tail rhs s s4) (?n + 2) =
           [Store (ConstInt 64 1) (Reg (next_reg s)), Br (?n + 3)]"
    using empty [of 2] tl(1) by simp
  show "blocks (lor_tail rhs s s4) (?n + 3) = [Load (next_reg s4 + 1) (Reg (next_reg s))]"
    using empty [of 3] tl(2) by simp
  have "cnt (branches_to ?n) s4 = cnt (branches_to ?n) ?s3"
    using ext_branches [OF e2, of ?n] n1 by (simp add: br)
  also have "\<dots> = cnt (branches_to ?n) s1 + 1"
    by (simp add: br)
  also have "cnt (branches_to ?n) s1 = cnt (branches_to ?n) (lor_head s)"
    using ext_branches [OF e1, of ?n] by (simp add: h)
  finally show "cnt (branches_to ?n) (lor_tail rhs s s4) = 1"
    using c0 by (simp add: tl h)
  show "blocks (lor_tail rhs s s4) (insert_block s) =
           blocks s1 (insert_block s) @
             [ICmp (next_reg s1) ICMP_NE lhs (IntSameSize 0 lhs),
              CondBr (Reg (next_reg s1)) (?n + 2) ?n]"
    if "insert_block s1 = insert_block s"
  proof -
    have "blocks (lor_tail rhs s s4) (insert_block s) = blocks s4 (insert_block s)"
      using b0 by (simp add: tl)
    also have "\<dots> = blocks ?s3 (insert_block s)"
      using b0 n1 by (intro old) (auto simp: br)
    finally show ?thesis
      using that by (simp add: br)
  qed
qed

lemma accept_Integer_fields:
  "accept env (Integer lty k) t = Inr s1 \<Longrightarrow>
   expr s1 = Some (ConstInt 64 k) \<and> insert_block s1 = insert_block t \<and>
   next_reg s1 = next_reg t \<and> blocks s1 = blocks t"
  by (auto simp: visit_Integer_def getInt64_def)

lemma short_circuit_and:
  assumes w: "ip_ok s" and c0: "cnt (branches_to (next_block s)) s = 0"
    and eq: "accept env (Binop ty l LAND r) s = Inr s'"
  shows "\<exists>s0 s1 lhs s3 s4 v.
     accept env l s0 = Inr s1 \<and> expr s1 = Some lhs \<and>
     insert_block s3 = next_block s \<and> next_block s3 = next_block s1 \<and>
     blocks s3 =
       (blocks s1)(insert_block s1 := blocks s1 (insert_block s1) @
          [ICmp (next_reg s1) ICMP_NE lhs (IntSameSize 0 lhs),
           CondBr (Reg (next_reg s1)) (next_block s) (next_block s + 2)]) \<and>
     accept env r s3 = Inr s4 \<and>
     (\<forall>b. b < next_block s3 \<longrightarrow> b \<noteq> next_block s \<longrightarrow> blocks s4 b = blocks s3 b) \<and>
     cnt (branches_to (next_block s)) s' = 1 \<and>
     blocks s' (next_block s + 2) =
       [Store (ConstInt 64 0) (Reg (next_reg s)), Br (next_block s + 3)] \<and>
     blocks s' (next_block s + 3) = [Load v (Reg (next_reg s))] \<and>
     expr s' = Some (Reg v) \<and>
     (\<forall>lty k. l = Integer lty k \<and> k mod 2 ^ 64 = 0 \<longrightarrow>
        (\<forall>m. \<exists>m'. exec (blocks s') 7 (insert_block s) (length (blocks s (insert_block s))) m =
                   FellOff m' \<and>
                 path m' = path m @ [next_block s + 2, next_block s + 3] \<and>
                 regs m' v = Some (IntV 64 0)))"
proof -
  from eq have "createLogicalAnd (accept env) l r s = Inr s'"
    by (simp add: visit_Binop_def)
  then obtain s1 lhs s4 rhs where
    l: "accept env l (land_head s) = Inr s1" and lhs: "expr s1 = Some lhs"
    and r: "accept env r (land_branch lhs s s1) = Inr s4" and rhs: "expr s4 = Some rhs"
    and s': "s' = land_tail rhs s s4"
    by (rule land_parts)
  note st =
    land_structure(1) [OF w c0 l lhs r]
    land_structure(2) [OF w c0 l lhs r, where rhs = rhs]
    land_structure(3) [OF w c0 l lhs r, where rhs = rhs]
    land_structure(4) [OF w c0 l lhs r, where rhs = rhs]
    land_structure(5) [OF w c0 l lhs r, where rhs = rhs]
  note h = land_head_fields [OF w]
  have w1: "ip_ok s1"
    by (rule ext_ip_ok [OF accept_ext [OF h(10) l]])
  note br = land_branch_fields [OF w1, where lhs = lhs and s = s]
  have w4: "ip_ok s4" and n4: "next_block s1 \<le> next_block s4"
    and i4: "insert_block s4 = next_block s \<or> next_block s1 \<le> insert_block s4"
    and n1: "next_block s + 4 \<le> next_block s1"
    using accept_ext [OF _ r] accept_ext [OF h(10) l] w1
    by (auto simp: ext_def br h ip_ok_def)
  have t: "next_block s + 3 < next_block s4"
    "insert_block s4 = next_block s \<or> next_block s + 3 < insert_block s4"
    using n1 n4 i4 by auto
  note tl = land_tail_fields [OF w4 t, where rhs = rhs]
  have run: "\<exists>m'. exec (blocks s') 7 (insert_block s) (length (blocks s (insert_block s))) m =
                   FellOff m' \<and>
                 path m' = path m @ [next_block s + 2, next_block s + 3] \<and>
                 regs m' (next_reg s4 + 1) = Some (IntV 64 0)"
    if "l = Integer lty k" "k mod 2 ^ 64 = 0" for lty k m
  proof -
    note i = accept_Integer_fields [OF l [unfolded that(1)]]
    have b0: "blocks s' (insert_block s) =
        blocks s (insert_block s) @
        [AllocaBPF (next_reg s) (Int_t 64) ''&&_result'',
         ICmp (next_reg s + 1) ICMP_NE (ConstInt 64 k) (IntSameSize 0 (ConstInt 64 k)),
         CondBr (Reg (next_reg s + 1)) (next_block s) (next_block s + 2)]"
      using st(5) i lhs by (simp add: s' h)
    show ?thesis
      using exec_short_circuit_zero [OF b0 st(3) [folded s'] st(4) [folded s'], where m = m]
        that(2)
      by simp
  qed
  show ?thesis
    apply (rule exI [of _ "land_head s"])
    apply (rule exI [of _ s1])
    apply (rule exI [of _ lhs])
    apply (rule exI [of _ "land_branch lhs s s1"])
    apply (rule exI [of _ s4])
    apply (rule exI [of _ "next_reg s4 + 1"])
    using l lhs r st(1,2,3,4) run
    apply (simp add: br s' tl(4))
    done
qed

lemma short_circuit_or:
  assumes w: "ip_ok s" and c0: "cnt (branches_to (next_block s)) s = 0"
    and eq: "accept env (Binop ty l LOR r) s = Inr s'"
  shows "\<exists>s0 s1 lhs s3 s4 v.
     accept env l s0 = Inr s1 \<and> expr s1 = Some lhs \<and>
     insert_block s3 = next_block s \<and> next_block s3 = next_block s1 \<and>
     blocks s3 =
       (blocks s1)(insert_block s1 := blocks s1 (insert_block s1) @
          [ICmp (next_reg s1) ICMP_NE lhs (IntSameSize 0 lhs),
           CondBr (Reg (next_reg s1)) (next_block s + 2) (next_block s)]) \<and>
     accept env r s3 = Inr s4 \<and>
     (\<forall>b. b < next_block s3 \<longrightarrow> b \<noteq> next_block s \<longrightarrow> blocks s4 b = blocks s3 b) \<and>
     cnt (branches_to (next_block s)) s' = 1 \<and>
     blocks s' (next_block s + 2) =
       [Store (ConstInt 64 1) (Reg (next_reg s)), Br (next_block s + 3)] \<and>
     blocks s' (next_block s + 3) = [Load v (Reg (next_reg s))] \<and>
     expr s' = Some (Reg v) \<and>
     (\<forall>lty k. l = Integer lty k \<and> k mod 2 ^ 64 \<noteq> 0 \<longrightarrow>
        (\<forall>m. \<exists>m'. exec (blocks s') 7 (insert_block s) (length (blocks s (insert_block s))) m =
                   FellOff m' \<and>
                 path m' = path m @ [next_block s + 2, next_block s + 3] \<and>
                 regs m' v = Some (IntV 64 1)))"
proof -
  from eq have "createLogicalOr (accept env) l r s = Inr s'"
    by (simp add: visit_Binop_def)
  then obtain s1 lhs s4 rhs where
    l: "accept env l (lor_head s) = Inr s1" and lhs: "expr s1 = Some lhs"
    and r: "accept env r (lor_branch lhs s s1) = Inr s4" and rhs: "expr s4 = Some rhs"
    and s': "s' = lor_tail rhs s s4"
    by (rule lor_parts)
  note st =
    lor_structure(1) [OF w c0 l lhs r]
    lor_structure(2) [OF w c0 l lhs r, where rhs = rhs]
    lor_structure(3) [OF w c0 l lhs r, where rhs = rhs]
    lor_structure(4) [OF w c0 l lhs r, where rhs = rhs]
    lor_structure(5) [OF w c0 l lhs r, where rhs = rhs]
  note h = lor_head_fields [OF w]
  have w1: "ip_ok s1"
    by (rule ext_ip_ok [OF accept_ext [OF h(10) l]])
  note br = lor_branch_fields [OF w1, where lhs = lhs and s = s]
  have w4: "ip_ok s4" and n4: "next_block s1 \<le> next_block s4"
    and i4: "insert_block s4 = next_block s \<or> next_block s1 \<le> insert_block s4"
    and n1: "next_block s + 4 \<le> next_block s1"
    using accept_ext [OF _ r] accept_ext [OF h(10) l] w1
    by (auto simp: ext_def br h ip_ok_def)
  have t: "next_block s + 3 < next_block s4"
    "insert_block s4 = next_block s \<or> next_block s + 3 < insert_block s4"
    using n1 n4 i4 by auto
  note tl = lor_tail_fields [OF w4 t, where rhs = rhs]
  have run: "\<exists>m'. exec (blocks s') 7 (insert_block s) (length (blocks s (insert_block s))) m =
                   FellOff m' \<and>
                 path m' = path m @ [next_block s + 2, next_block s + 3] \<and>
                 regs m' (next_reg s4 + 1) = Some (IntV 64 1)"
    if "l = Integer lty k" "k mod 2 ^ 64 \<noteq> 0" for lty k m
  proof -
    note i = accept_Integer_fields [OF l [unfolded that(1)]]
    have b0: "blocks s' (insert_block s) =
        blocks s (insert_block s) @
        [AllocaBPF (next_reg s) (Int_t 64) ''||_result'',
         ICmp (next_reg s + 1) ICMP_NE (ConstInt 64 k) (IntSameSize 0 (ConstInt 64 k)),
         CondBr (Reg (next_reg s + 1)) (next_block s + 2) (next_block s)]"
      using st(5) i lhs by (simp add: s' h)
    show ?thesis
      using exec_short_circuit_nonzero [OF b0 st(3) [folded s'] st(4) [folded s'], where m = m]
        that(2)
      by simp
  qed
  show ?thesis
    apply (rule exI [of _ "lor_head s"])
    apply (rule exI [of _ s1])
    apply (rule exI [of _ lhs])
    apply (rule exI [of _ "lor_branch lhs s s1"])
    apply (rule exI [of _ s4])
    apply (rule exI [of _ "next_reg s4 + 1"])
    using l lhs r st(1,2,3,4) run
    apply (simp add: br s' tl(4))
    done
qed


lemmas logical_defs =
  example_defs div_by_zero_def visit_Integer_def visit_Binop_def binop_switch_def
  assign_expr_def createLogicalAnd_def createLogicalOr_def create_defs builder_defs
  Function_Create_def Let_def


section \<open>Properties of the variable table\<close>

lemma generateProbe_variables:
  assumes "generateProbe env probe full_func_id section_name expansion s = Inr s'"
  shows "\<exists>ap s1 s2.
           current_attach_point s = Some ap \<and>
           (case pred probe of
              None \<Rightarrow> s1 = probe_head env probe full_func_id section_name ap s
            | Some e \<Rightarrow>
                visit_Predicate (accept env) e
                  (probe_head env probe full_func_id section_name ap s) = Inr s1) \<and>
           accept_stmts env (stmts probe) (s1\<lparr>variables := Map.empty\<rparr>) = Inr s2 \<and>
           s' = CreateRet (ConstInt 64 0) s2"
    and "\<forall>x p. variables s' x = Some (Some p) \<longrightarrow>
           (\<exists>r. p = Reg r \<and> next_reg s \<le> r \<and> r < next_reg s' \<and>
                0 < cnt (slot_alloca r x) s' \<and>
                cnt (defines_reg r) s' = cnt (defines_reg r) s + 1)"
proof -
  from assms obtain ap s1 s2 where ap: "current_attach_point s = Some ap"
    and p: "(case pred probe of
                   None \<Rightarrow> Inr (probe_head env probe full_func_id section_name ap s)
                 | Some e \<Rightarrow>
                     visit_Predicate (accept env) e
                       (probe_head env probe full_func_id section_name ap s)) = Inr s1"
    and b: "accept_stmts env (stmts probe) (s1\<lparr>variables := Map.empty\<rparr>) = Inr s2"
    and r: "s' = CreateRet (ConstInt 64 0) s2"
    unfolding generateProbe_alt by (auto split: option.splits sum.splits)
  have e1: "ext (probe_head env probe full_func_id section_name ap s) s1"
    using p visit_Predicate_accept_ext [OF ip_ok_probe_head]
    by (auto split: option.splits simp: ext_refl)
  have e2: "ext (s1\<lparr>variables := Map.empty\<rparr>) s2"
    using accept_stmt_ext(2) [OF ext_variables_clear [OF e1] b] .
  show "\<exists>ap s1 s2.
           current_attach_point s = Some ap \<and>
           (case pred probe of
              None \<Rightarrow> s1 = probe_head env probe full_func_id section_name ap s
            | Some e \<Rightarrow>
                visit_Predicate (accept env) e
                  (probe_head env probe full_func_id section_name ap s) = Inr s1) \<and>
           accept_stmts env (stmts probe) (s1\<lparr>variables := Map.empty\<rparr>) = Inr s2 \<and>
           s' = CreateRet (ConstInt 64 0) s2"
    apply (rule exI [of _ ap])
    apply (rule exI [of _ s1])
    apply (rule exI [of _ s2])
    using ap p b r apply (auto split: option.splits)
    done
  have n1: "next_reg s \<le> next_reg s1"
    using e1 by (simp add: ext_def)
  have n2: "next_reg s1 \<le> next_reg s2"
    using e2 by (simp add: ext_def)
  have w2: "insert_block s2 < next_block s2"
    using e2 by (simp add: ext_def)
  have d1: "cnt (defines_reg r) s1 =
            cnt (defines_reg r) s + (if next_reg s \<le> r \<and> r < next_reg s1 then 1 else 0)" for r
    using e1 by (simp add: ext_def)
  have d2: "cnt (defines_reg r) s2 =
            cnt (defines_reg r) s1 + (if next_reg s1 \<le> r \<and> r < next_reg s2 then 1 else 0)"
    for r
    using e2 by (simp add: ext_def cnt_def all_instrs_def)
  have d: "next_reg s1 \<le> r \<Longrightarrow> r < next_reg s2 \<Longrightarrow>
           cnt (defines_reg r) s' = cnt (defines_reg r) s + 1" for r
    using d1 [of r] d2 [of r] n1 w2 by (simp add: r create_defs defines_reg_def)
  have v: "\<forall>x p. variables s2 x = Some (Some p) \<longrightarrow>
           (\<exists>r. p = Reg r \<and> next_reg s1 \<le> r \<and> r < next_reg s2 \<and>
                0 < cnt (slot_alloca r x) s2)"
    using e2 by (simp add: ext_def)
  show "\<forall>x p. variables s' x = Some (Some p) \<longrightarrow>
           (\<exists>r. p = Reg r \<and> next_reg s \<le> r \<and> r < next_reg s' \<and>
                0 < cnt (slot_alloca r x) s' \<and>
                cnt (defines_reg r) s' = cnt (defines_reg r) s + 1)"
  proof (intro allI impI)
    fix x p
    assume "variables s' x = Some (Some p)"
    then have "variables s2 x = Some (Some p)"
      by (simp add: r create_defs emit_def)
    with v obtain r' where q: "p = Reg r'" "next_reg s1 \<le> r'" "r' < next_reg s2"
      "0 < cnt (slot_alloca r' x) s2"
      by blast
    have "0 < cnt (slot_alloca r' x) s'"
      using q(4) w2 by (simp add: r create_defs)
    moreover have "next_reg s' = next_reg s2"
      by (simp add: r create_defs emit_def)
    ultimately show "\<exists>r. p = Reg r \<and> next_reg s \<le> r \<and> r < next_reg s' \<and>
                0 < cnt (slot_alloca r x) s' \<and>
                cnt (defines_reg r) s' = cnt (defines_reg r) s + 1"
      using q n1 d [of r'] by auto
  qed
qed

lemma first_assignment:
  assumes "accept env e s = Inr s1" and "expr s1 = Some v" and "variables s1 x = None"
  shows "\<exists>s2. accept_stmt env (AssignVarStatement ty x e) s = Inr s2 \<and>
           blocks s2 =
             (blocks s1)(insert_block s1 := blocks s1 (insert_block s1) @
                [AllocaBPFInit (next_reg s1) (Sized_t ty) x,
                 if needMemcpy env ty then Memcpy (Reg (next_reg s1)) v (size_bytes ty)
                 else Store v (Reg (next_reg s1))]) \<and>
           variables s2 = (variables s1)(x \<mapsto> Some (Reg (next_reg s1)))"
  using assms
  by (simp add: visit_AssignVarStatement_def Let_def create_defs)

lemma later_assignment:
  assumes "accept env e s = Inr s1" and "expr s1 = Some v"
    and "variables s1 x = Some (Some p)"
  shows "\<exists>s2. accept_stmt env (AssignVarStatement ty x e) s = Inr s2 \<and>
           blocks s2 =
             (blocks s1)(insert_block s1 := blocks s1 (insert_block s1) @
                [if needMemcpy env ty then Memcpy p v (size_bytes ty) else Store v p]) \<and>
           variables s2 = variables s1"
  using assms
  by (simp add: visit_AssignVarStatement_def Let_def create_defs)

lemma assignment_slot:
  assumes "accept_stmt env (AssignVarStatement ty x e) s = Inr s2"
  shows "\<exists>p. variables s2 x = Some (Some p)"
  using assms
  by (auto simp: visit_AssignVarStatement_def Let_def create_defs emit_def emit_def_reg_def
      split: sum.splits option.splits if_splits)

lemma variable_read:
  assumes "variables s x = Some (Some p)"
  shows "\<exists>s'. accept env (Variable ty x) s = Inr s' \<and> variables s' = variables s \<and>
           (if needMemcpy env ty then blocks s' = blocks s \<and> expr s' = Some p
            else blocks s' =
                   (blocks s)(insert_block s := blocks s (insert_block s) @
                      [Load (next_reg s) p]) \<and>
                 expr s' = Some (Reg (next_reg s)))"
  using assms
  by (simp add: visit_Variable_def Let_def create_defs)

lemma slot_kept:
  assumes "ip_ok s" and "variables s x = Some (Some p)"
  shows "accept env e s = Inr t \<Longrightarrow> variables t x = Some (Some p)"
    and "accept_stmts env sts s = Inr t' \<Longrightarrow> variables t' x = Some (Some p)"
  using accept_ext [OF assms(1), of env e t] accept_stmt_ext(2) [OF assms(1), of env sts t']
    assms(2)
  by (simp_all add: ext_def)


lemmas variable_defs =
  generateProbe_def getNextIndexForProbe_def next_index_def getSectionNameForProbe_def
  Function_Create_def setSection_def to_string_def nat_to_string.simps digit_chars_def
  wrap_int32_def var_probe_def kprobe_state_def kprobe_f_def example_defs visit_Integer_def
  visit_Variable_def visit_Binop_def binop_switch_def assign_expr_def
  visit_AssignVarStatement_def create_defs builder_defs Let_def


section \<open>Properties of the stack allocations\<close>

lemmas audit_defs = is_alloca_def is_end_def allocates_def ends_def

lemma lowered_facts:
  "ext t t' \<and> balance k r t t' \<Longrightarrow>
   next_block t \<le> next_block t' \<and> next_reg t \<le> next_reg t' \<and>
   insert_block t' < next_block t' \<and>
   cnt is_alloca t' + cnt is_end t = cnt is_alloca t + cnt is_end t' + k \<and>
   cnt (ends r) t' + cnt (allocates r) t \<le> cnt (ends r) t + cnt (allocates r) t'"
  by (simp add: balance_def ext_def)

lemma visit_Integer_balance: "balance 0 r s (visit_Integer n s)"
  by (simp add: balance_def visit_Integer_def)

lemma visit_Variable_balance:
  "ip_ok s \<Longrightarrow> visit_Variable env ty x s = Inr s' \<Longrightarrow> balance 0 r s s'"
  by (auto simp: balance_def visit_Variable_def Let_def create_defs ip_ok_def audit_defs
      split: if_splits option.splits)

lemma call_count_balance: "ip_ok s \<Longrightarrow> balance 0 r s (call_count m s)"
  by (auto simp: balance_def call_count_def getMapKey_def Let_def create_defs ip_ok_def audit_defs)

lemma call_exit_balance: "ip_ok s \<Longrightarrow> balance 0 r s (call_exit env s)"
  by (auto simp: balance_def call_exit_def Let_def create_defs ip_ok_def audit_defs)

lemma call_sum_balance:
  assumes w: "ip_ok s"
    and IH: "\<And>t t'. ip_ok t \<Longrightarrow> acc arg t = Inr t' \<Longrightarrow> ext t t' \<and> balance k r t t'"
    and eq: "call_sum acc m arg s = Inr s'"
  shows "balance k r s s'"
  using w eq
  apply (simp add: call_sum_def getMapKey_def Let_def create_defs
      split: if_splits sum.splits option.splits)
  apply (drule IH[rotated, THEN lowered_facts], simp add: ip_ok_def)
  apply (clarsimp simp: balance_def ip_ok_def audit_defs)
  done

lemma call_min_balance:
  assumes w: "ip_ok s"
    and IH: "\<And>t t'. ip_ok t \<Longrightarrow> acc arg t = Inr t' \<Longrightarrow> ext t t' \<and> balance k r t t'"
    and eq: "call_min acc m arg s = Inr s'"
  shows "balance k r s s'"
  using w eq
  apply (simp add: call_min_def getMapKey_def Let_def create_defs
      split: if_splits sum.splits option.splits)
  apply (drule IH[rotated, THEN lowered_facts], simp add: ip_ok_def)
  apply (clarsimp simp: balance_def ip_ok_def audit_defs)
  done

lemma call_max_balance:
  assumes w: "ip_ok s"
    and IH: "\<And>t t'. ip_ok t \<Longrightarrow> acc arg t = Inr t' \<Longrightarrow> ext t t' \<and> balance k r t t'"
    and eq: "call_max acc m arg s = Inr s'"
  shows "balance k r s s'"
  using w eq
  apply (simp add: call_max_def getMapKey_def Let_def create_defs
      split: if_splits sum.splits option.splits)
  apply (drule IH[rotated, THEN lowered_facts], simp add: ip_ok_def)
  apply (clarsimp simp: balance_def ip_ok_def audit_defs)
  done

lemma call_strftime_balance:
  assumes w: "ip_ok s"
    and IH: "\<And>t t'. ip_ok t \<Longrightarrow> acc (vargs ! Suc 0) t = Inr t' \<Longrightarrow> ext t t' \<and> balance k r t t'"
    and eq: "call_strftime env acc func vargs s = Inr s'"
  shows "balance (Suc k) r s s'"
  using w eq
  apply (simp add: call_strftime_def Let_def create_defs
      split: if_splits sum.splits option.splits)
  apply (drule IH[rotated, THEN lowered_facts], simp add: ip_ok_def)
  apply (clarsimp simp: balance_def ip_ok_def audit_defs)
  done

lemma createLogicalAnd_balance:
  assumes w: "ip_ok s"
    and IHl: "\<And>t t'. ip_ok t \<Longrightarrow> acc l t = Inr t' \<Longrightarrow> ext t t' \<and> balance kl r t t'"
    and IHr: "\<And>t t'. ip_ok t \<Longrightarrow> acc ri t = Inr t' \<Longrightarrow> ext t t' \<and> balance kr r t t'"
    and eq: "createLogicalAnd acc l ri s = Inr s'"
  shows "balance (Suc (kl + kr)) r s s'"
  using w eq
  apply (simp add: createLogicalAnd_def Let_def create_defs split: if_splits sum.splits option.splits)
  apply (drule IHl[rotated, THEN lowered_facts], simp add: ip_ok_def)
  apply (drule IHr[rotated, THEN lowered_facts], simp add: ip_ok_def)
  apply (clarsimp simp: balance_def ip_ok_def audit_defs)
  done

lemma createLogicalOr_balance:
  assumes w: "ip_ok s"
    and IHl: "\<And>t t'. ip_ok t \<Longrightarrow> acc l t = Inr t' \<Longrightarrow> ext t t' \<and> balance kl r t t'"
    and IHr: "\<And>t t'. ip_ok t \<Longrightarrow> acc ri t = Inr t' \<Longrightarrow> ext t t' \<and> balance kr r t t'"
    and eq: "createLogicalOr acc l ri s = Inr s'"
  shows "balance (Suc (kl + kr)) r s s'"
  using w eq
  apply (simp add: createLogicalOr_def Let_def create_defs split: if_splits sum.splits option.splits)
  apply (drule IHl[rotated, THEN lowered_facts], simp add: ip_ok_def)
  apply (drule IHr[rotated, THEN lowered_facts], simp add: ip_ok_def)
  apply (clarsimp simp: balance_def ip_ok_def audit_defs)
  done

lemma binop_switch_cnt:
  assumes "binop_switch opr sg lhs rhs s = Inr s'" and "ip_ok s"
  shows "cnt is_alloca s' = cnt is_alloca s \<and> cnt is_end s' = cnt is_end s \<and>
         cnt (ends r) s' = cnt (ends r) s \<and> cnt (allocates r) s' = cnt (allocates r) s \<and>
         ip_ok s'"
  using assms
  by (cases opr)
    (auto simp: binop_switch_def assign_expr_def create_defs ip_ok_def audit_defs)

lemma visit_Binop_balance:
  assumes w: "ip_ok s"
    and IHl: "\<And>t t'. ip_ok t \<Longrightarrow> acc l t = Inr t' \<Longrightarrow> ext t t' \<and> balance kl r t t'"
    and IHr: "\<And>t t'. ip_ok t \<Longrightarrow> acc ri t = Inr t' \<Longrightarrow> ext t t' \<and> balance kr r t t'"
    and eq: "visit_Binop acc l opr ri s = Inr s'"
  shows "balance ((if opr = LAND \<or> opr = LOR then 1 else 0) + kl + kr) r s s'"
proof (cases "opr = LAND \<or> opr = LOR")
  case True
  then show ?thesis
    using w eq createLogicalAnd_balance [OF w IHl IHr] createLogicalOr_balance [OF w IHl IHr]
    by (auto simp: visit_Binop_def)
next
  case False
  then show ?thesis
    using w eq
    apply (simp add: visit_Binop_def Let_def create_defs assign_expr_def
        split: if_splits sum.splits option.splits)
    apply (drule IHl[rotated, THEN lowered_facts], simp add: ip_ok_def)
    apply (drule IHr[rotated, THEN lowered_facts], simp add: ip_ok_def)
    apply (drule binop_switch_cnt [where r = r], simp add: ip_ok_def)
    apply (clarsimp simp: balance_def ip_ok_def audit_defs)
    done
qed

lemma visit_Call_balance:
  assumes w: "ip_ok s"
    and IH: "\<And>e t t'. e \<in> set vargs \<Longrightarrow> ip_ok t \<Longrightarrow> acc e t = Inr t' \<Longrightarrow>
               ext t t' \<and> balance (k e) r t t'"
    and eq: "visit_Call env acc func mp vargs s = Inr s'"
  shows "balance
           (if func = ''sum'' \<or> func = ''min'' \<or> func = ''max'' then
              (case vargs of [] \<Rightarrow> 0 | a # as \<Rightarrow> k a)
            else if func = ''strftime'' then
              (case vargs of a # b # bs \<Rightarrow> 1 + k b | _ \<Rightarrow> 1)
            else 0) r s s'"
proof -
  have hd: "ext t t' \<and> balance (k (hd vargs)) r t t'"
    if "vargs \<noteq> []" "ip_ok t" "acc (hd vargs) t = Inr t'" for t t'
    using that IH [of "hd vargs"] by simp
  have nth: "ext t t' \<and> balance (k (vargs ! Suc 0)) r t t'"
    if "\<not> length vargs < 2" "ip_ok t" "acc (vargs ! Suc 0) t = Inr t'" for t t'
    using that IH [of "vargs ! Suc 0"] by (simp add: not_less)
  have strftime: "balance (case vargs of a # b # bs \<Rightarrow> 1 + k b | _ \<Rightarrow> 1) r s s'"
    if "call_strftime env acc func vargs s = Inr s'"
  proof (cases "length vargs < 2")
    case True
    then show ?thesis
      using that by (simp add: call_strftime_def Let_def split: if_splits)
  next
    case False
    then obtain a b bs where v: "vargs = a # b # bs"
      by (cases vargs; cases "tl vargs") auto
    show ?thesis
      using call_strftime_balance [OF w nth [OF False] that] by (simp add: v)
  qed
  have h: "(case vargs of [] \<Rightarrow> 0 | a # as \<Rightarrow> k a) = k (hd vargs)" if "vargs \<noteq> []"
    using that by (cases vargs) auto
  show ?thesis
    using w eq call_count_balance [OF w, of r] call_exit_balance [OF w, of r]
      call_sum_balance [OF w hd] call_min_balance [OF w hd] call_max_balance [OF w hd]
      strftime h
    by (auto simp: visit_Call_def split: if_splits option.splits)
qed

lemma accept_balance:
  "ip_ok s \<Longrightarrow> accept env e s = Inr s' \<Longrightarrow> balance (unreleased e) r s s'"
proof (induction e arbitrary: s s')
  case (Integer ty n)
  then show ?case using visit_Integer_balance by auto
next
  case (Variable ty x)
  then show ?case using visit_Variable_balance by auto
next
  case (Binop ty l opr ri)
  have "balance ((if opr = LAND \<or> opr = LOR then 1 else 0) + unreleased l + unreleased ri) r s s'"
    by (rule visit_Binop_balance [OF Binop.prems(1)])
      (use Binop.prems(2) Binop.IH accept_ext in auto)
  then show ?case by simp
next
  case (Call ty func mp vargs)
  have "balance
           (if func = ''sum'' \<or> func = ''min'' \<or> func = ''max'' then
              (case vargs of [] \<Rightarrow> 0 | a # as \<Rightarrow> unreleased a)
            else if func = ''strftime'' then
              (case vargs of a # b # bs \<Rightarrow> 1 + unreleased b | _ \<Rightarrow> 1)
            else 0) r s s'"
    by (rule visit_Call_balance [OF Call.prems(1), where k = unreleased])
      (use Call.prems(2) Call.IH accept_ext in auto)
  then show ?case by simp
qed

lemma balance_trans:
  "balance k r s s1 \<Longrightarrow> balance j r s1 s2 \<Longrightarrow> balance (k + j) r s s2"
  unfolding balance_def by linarith

lemma visit_AssignVarStatement_balance:
  assumes w: "ip_ok s"
    and IH: "\<And>t t'. ip_ok t \<Longrightarrow> acc e t = Inr t' \<Longrightarrow> ext t t' \<and> balance k r t t'"
    and eq: "visit_AssignVarStatement env acc ty x e s = Inr s'"
  shows "balance k r s s'"
  using w eq
  apply (simp add: visit_AssignVarStatement_def Let_def create_defs
      split: if_splits sum.splits option.splits)
  apply ((drule IH[rotated, THEN lowered_facts], simp add: ip_ok_def,
      clarsimp simp: balance_def ip_ok_def audit_defs)+)
  done

lemma visit_If_balance:
  assumes w: "ip_ok s"
    and IHc: "\<And>t t'. ip_ok t \<Longrightarrow> acc cond t = Inr t' \<Longrightarrow> ext t t' \<and> balance kc r t t'"
    and IHb: "\<And>t t'. ip_ok t \<Longrightarrow> accs body t = Inr t' \<Longrightarrow> ext t t' \<and> balance kb r t t'"
    and IHe: "\<And>es t t'. else_stmts = Some es \<Longrightarrow> ip_ok t \<Longrightarrow> accs es t = Inr t' \<Longrightarrow>
                ext t t' \<and> balance (ke es) r t t'"
    and eq: "visit_If acc accs cond body else_stmts s = Inr s'"
  shows "balance (kc + kb + (case else_stmts of None \<Rightarrow> 0 | Some es \<Rightarrow> ke es)) r s s'"
proof (cases else_stmts)
  case None
  show ?thesis
    using w eq unfolding None
    apply (simp add: visit_If_def Let_def create_defs split: if_splits sum.splits option.splits)
    apply (drule IHc[rotated, THEN lowered_facts], simp add: ip_ok_def)
    apply (drule IHb[rotated, THEN lowered_facts], simp add: ip_ok_def)
    apply (clarsimp simp: balance_def ip_ok_def audit_defs)
    done
next
  case (Some es)
  note IHe' = IHe [OF Some]
  show ?thesis
    using w eq unfolding Some
    apply (simp add: visit_If_def Let_def create_defs split: if_splits sum.splits option.splits)
    apply (drule IHc[rotated, THEN lowered_facts], simp add: ip_ok_def)
    apply (drule IHb[rotated, THEN lowered_facts], simp add: ip_ok_def)
    apply (drule IHe'[rotated, THEN lowered_facts], simp add: ip_ok_def)
    apply (clarsimp simp: balance_def ip_ok_def audit_defs)
    done
qed

lemma accept_stmt_balance:
  "ip_ok s \<Longrightarrow> accept_stmt env st s = Inr s' \<Longrightarrow> balance (unreleased_stmt st) r s s'"
  "ip_ok s \<Longrightarrow> accept_stmts env sts s = Inr s' \<Longrightarrow> balance (unreleased_stmts sts) r s s'"
proof (induction env st s and env sts s arbitrary: s' and s' rule: accept_stmt_accept_stmts.induct)
  case (1 env e s)
  then show ?case using accept_balance by simp
next
  case (2 env ty x e s)
  have "balance (unreleased e) r s s'"
    by (rule visit_AssignVarStatement_balance [OF "2.prems"(1)])
      (use "2.prems"(2) accept_ext accept_balance in auto)
  then show ?case by simp
next
  case (3 env cond body else_stmts s)
  have "balance (unreleased cond + unreleased_stmts body +
      (case else_stmts of None \<Rightarrow> 0 | Some es \<Rightarrow> unreleased_stmts es)) r s s'"
    by (rule visit_If_balance [OF "3.prems"(1), where ke = unreleased_stmts])
      (use "3.prems"(2) "3.IH" accept_ext accept_balance accept_stmt_ext(2) in auto)
  then show ?case by simp
next
  case (4 env s)
  then show ?case by (simp add: balance_def)
next
  case (5 env st sts s)
  from "5.prems"(2) obtain s1 where a: "accept_stmt env st s = Inr s1"
    and b: "accept_stmts env sts s1 = Inr s'"
    by (auto split: sum.splits)
  have e1: "balance (unreleased_stmt st) r s s1"
    using "5.IH"(1) "5.prems"(1) a by simp
  have "ip_ok s1"
    using accept_stmt_ext(1) [OF "5.prems"(1) a] by (rule ext_ip_ok)
  then have "balance (unreleased_stmts sts) r s1 s'"
    using "5.IH"(2) a b by simp
  with e1 show ?case
    using balance_trans by simp
qed

lemma visit_Predicate_balance:
  assumes w: "ip_ok s"
    and IH: "\<And>t t'. ip_ok t \<Longrightarrow> acc e t = Inr t' \<Longrightarrow> ext t t' \<and> balance k r t t'"
    and eq: "visit_Predicate acc e s = Inr s'"
  shows "balance k r s s'"
  using w eq
  apply (simp add: visit_Predicate_def Let_def create_defs assign_expr_def
      split: if_splits sum.splits option.splits)
  apply (drule IH[rotated, THEN lowered_facts], simp add: ip_ok_def)
  apply (clarsimp simp: balance_def ip_ok_def audit_defs)
  done

lemma filter_split:
  assumes "\<And>i. P i \<Longrightarrow> Q i"
  shows "length (filter P xs) + length (filter (\<lambda>i. Q i \<and> \<not> P i) xs) = length (filter Q xs)"
  by (induction xs) (auto dest: assms)

lemma filter_length_mono:
  assumes "\<And>i. P i \<Longrightarrow> Q i"
  shows "length (filter P xs) \<le> length (filter Q xs)"
  by (induction xs) (auto dest: assms)

lemma cnt_split:
  assumes "\<And>i. P i \<Longrightarrow> Q i"
  shows "cnt P s + cnt (\<lambda>i. Q i \<and> \<not> P i) s = cnt Q s"
  unfolding cnt_def by (rule filter_split [OF assms])

lemma allocates_defines: "allocates r i \<Longrightarrow> defines_reg r i"
  by (cases i) (simp_all add: allocates_def defines_reg_def)

lemma slot_alloca_defines: "slot_alloca r x i \<Longrightarrow> defines_reg r i \<and> \<not> allocates r i"
  by (cases i) (simp_all add: allocates_def defines_reg_def slot_alloca_def)

lemma allocates_bound:
  assumes "\<And>P. cnt P s \<le> cnt P s'"
  shows "cnt (allocates r) s' + cnt (defines_reg r) s \<le> cnt (allocates r) s + cnt (defines_reg r) s'"
  using cnt_split [of "allocates r" "defines_reg r" s, OF allocates_defines]
    cnt_split [of "allocates r" "defines_reg r" s', OF allocates_defines]
    assms [of "\<lambda>i. defines_reg r i \<and> \<not> allocates r i"]
  by linarith

lemma ends_bound:
  assumes "balance k r s s'" and "\<And>P. cnt P s \<le> cnt P s'"
    and "cnt (defines_reg r) s' = cnt (defines_reg r) s + d"
  shows "cnt (ends r) s' \<le> cnt (ends r) s + d"
  using assms(1,3) allocates_bound [OF assms(2), of r]
  unfolding balance_def by linarith

lemma slot_not_ended:
  assumes "balance k r s s'" and "\<And>P. cnt P s \<le> cnt P s'"
    and "cnt (defines_reg r) s' = 1" and "0 < cnt (slot_alloca r x) s'"
  shows "cnt (ends r) s' = cnt (ends r) s"
proof -
  have "cnt (slot_alloca r x) s' \<le> cnt (\<lambda>i. defines_reg r i \<and> \<not> allocates r i) s'"
    unfolding cnt_def by (rule filter_length_mono) (rule slot_alloca_defines)
  then have "cnt (allocates r) s' = 0"
    using cnt_split [of "allocates r" "defines_reg r" s', OF allocates_defines] assms(3,4)
    by linarith
  then have "cnt (ends r) s' \<le> cnt (ends r) s"
    using assms(1) unfolding balance_def by linarith
  then show ?thesis
    using assms(2) [of "ends r"] by linarith
qed

lemma accept_old_slot:
  assumes "ip_ok t" and "accept env e t = Inr t'" and "r < next_reg t"
  shows "cnt (ends r) t' = cnt (ends r) t \<and> cnt (allocates r) t' = cnt (allocates r) t \<and>
         next_block t \<le> next_block t' \<and> next_reg t \<le> next_reg t' \<and>
         insert_block t' < next_block t'"
proof -
  note e = accept_ext [OF assms(1,2)]
  have m: "cnt P t \<le> cnt P t'" for P
    using e by (simp add: ext_def)
  have d: "cnt (defines_reg r) t' = cnt (defines_reg r) t + 0"
    using e assms(3) by (simp add: ext_def)
  have "cnt (ends r) t' \<le> cnt (ends r) t + 0"
    by (rule ends_bound [OF accept_balance [OF assms(1,2)] m d])
  moreover have "cnt (allocates r) t' \<le> cnt (allocates r) t"
    using allocates_bound [OF m, of r] d by linarith
  ultimately show ?thesis
    using m [of "ends r"] m [of "allocates r"] e by (simp add: ext_def)
qed

lemma result_slot:
  assumes w: "ip_ok s" and eq: "accept env (Binop ty l opr ri) s = Inr s'"
    and o: "opr = LAND \<or> opr = LOR"
  shows "cnt (allocates (next_reg s)) s' = cnt (allocates (next_reg s)) s + 1 \<and>
         cnt (ends (next_reg s)) s' = cnt (ends (next_reg s)) s"
  using o
proof
  assume "opr = LAND"
  then show ?thesis
    using w eq
    apply (simp add: visit_Binop_def createLogicalAnd_def Let_def create_defs
        split: if_splits sum.splits option.splits)
    apply (drule accept_old_slot [rotated, where r = "next_reg s"], simp add: ip_ok_def,
        simp add: ip_ok_def)
    apply (drule accept_old_slot [rotated, where r = "next_reg s"], simp add: ip_ok_def,
        simp add: ip_ok_def)
    apply (clarsimp simp: ip_ok_def audit_defs)
    done
next
  assume "opr = LOR"
  then show ?thesis
    using w eq
    apply (simp add: visit_Binop_def createLogicalOr_def Let_def create_defs
        split: if_splits sum.splits option.splits)
    apply (drule accept_old_slot [rotated, where r = "next_reg s"], simp add: ip_ok_def,
        simp add: ip_ok_def)
    apply (drule accept_old_slot [rotated, where r = "next_reg s"], simp add: ip_ok_def,
        simp add: ip_ok_def)
    apply (clarsimp simp: ip_ok_def audit_defs)
    done
qed

lemma strftime_slot:
  assumes w: "ip_ok s" and eq: "accept env (Call ty ''strftime'' mp vargs) s = Inr s'"
  shows "cnt (allocates (next_reg s)) s' = cnt (allocates (next_reg s)) s + 1 \<and>
         cnt (ends (next_reg s)) s' = cnt (ends (next_reg s)) s"
  using w eq
  apply (simp add: visit_Call_def call_strftime_def Let_def create_defs
      split: if_splits sum.splits option.splits)
  apply (drule accept_old_slot [rotated, where r = "next_reg s"], simp add: ip_ok_def,
      simp add: ip_ok_def)
  apply (clarsimp simp: ip_ok_def audit_defs)
  done

lemma generateProbe_balance:
  assumes "generateProbe env probe full_func_id section_name expansion s = Inr s'"
  shows "balance (unreleased_probe probe) r s s'"
    and "cnt P s \<le> cnt P s'"
    and "cnt (defines_reg r) s' =
         cnt (defines_reg r) s + (if next_reg s \<le> r \<and> r < next_reg s' then 1 else 0)"
proof -
  let ?h = "\<lambda>ap. probe_head env probe full_func_id section_name ap s"
  from assms obtain ap s1 s2 where ap: "current_attach_point s = Some ap"
    and p: "(case pred probe of
                   None \<Rightarrow> Inr (?h ap)
                 | Some e \<Rightarrow> visit_Predicate (accept env) e (?h ap)) = Inr s1"
    and b: "accept_stmts env (stmts probe) (s1\<lparr>variables := Map.empty\<rparr>) = Inr s2"
    and r: "s' = CreateRet (ConstInt 64 0) s2"
    unfolding generateProbe_alt by (auto split: option.splits sum.splits)
  have e1: "ext (?h ap) s1"
    using p visit_Predicate_accept_ext [OF ip_ok_probe_head]
    by (auto split: option.splits simp: ext_refl)
  have c: "ip_ok (s1\<lparr>variables := Map.empty\<rparr>)"
    by (rule ext_variables_clear [OF e1])
  have e2: "ext (s1\<lparr>variables := Map.empty\<rparr>) s2"
    by (rule accept_stmt_ext(2) [OF c b])
  have w2: "insert_block s2 < next_block s2"
    using e2 by (simp add: ext_def)
  have b1: "balance (case pred probe of None \<Rightarrow> 0 | Some e \<Rightarrow> unreleased e) r (?h ap) s1"
  proof (cases "pred probe")
    case None
    then show ?thesis
      using p by (simp add: balance_def)
  next
    case (Some e)
    have "balance (unreleased e) r (?h ap) s1"
      by (rule visit_Predicate_balance [OF ip_ok_probe_head, where acc = "accept env" and e = e])
        (use p Some accept_ext accept_balance in auto)
    then show ?thesis
      by (simp add: Some)
  qed
  have b2: "balance (unreleased_stmts (stmts probe)) r (s1\<lparr>variables := Map.empty\<rparr>) s2"
    by (rule accept_stmt_balance(2) [OF c b])
  show "balance (unreleased_probe probe) r s s'"
    using b1 b2 w2 by (simp add: balance_def unreleased_probe_def r create_defs audit_defs)
  show "cnt P s \<le> cnt P s'"
  proof -
    have "cnt P (?h ap) \<le> cnt P s1"
      using e1 by (simp add: ext_def)
    moreover have "cnt P (s1\<lparr>variables := Map.empty\<rparr>) \<le> cnt P s2"
      using e2 by (simp add: ext_def)
    ultimately show ?thesis
      using w2 by (simp add: r create_defs)
  qed
  show "cnt (defines_reg r) s' =
         cnt (defines_reg r) s + (if next_reg s \<le> r \<and> r < next_reg s' then 1 else 0)"
  proof -
    have n1: "next_reg s \<le> next_reg s1"
      using e1 by (simp add: ext_def)
    have n2: "next_reg s1 \<le> next_reg s2"
      using e2 by (simp add: ext_def)
    have d1: "cnt (defines_reg r) s1 =
            cnt (defines_reg r) s + (if next_reg s \<le> r \<and> r < next_reg s1 then 1 else 0)"
      using e1 by (simp add: ext_def)
    have d2: "cnt (defines_reg r) s2 =
            cnt (defines_reg r) s1 + (if next_reg s1 \<le> r \<and> r < next_reg s2 then 1 else 0)"
      using e2 by (simp add: ext_def)
    show ?thesis
      using d1 d2 n1 n2 w2 by (simp add: r create_defs defines_reg_def)
  qed
qed

lemma variable_slot_not_ended:
  assumes g: "generateProbe env probe full_func_id section_name expansion s = Inr s'"
    and v: "variables s' x = Some (Some (Reg r))" and z: "cnt (defines_reg r) s = 0"
  shows "0 < cnt (slot_alloca r x) s' \<and> cnt (ends r) s' = cnt (ends r) s"
proof -
  from generateProbe_variables(2) [OF g] v
  have a: "0 < cnt (slot_alloca r x) s'" and d: "cnt (defines_reg r) s' = cnt (defines_reg r) s + 1"
    by auto
  have d': "cnt (defines_reg r) s' = 1"
    using d z by simp
  have "cnt (ends r) s' = cnt (ends r) s"
    by (rule slot_not_ended
        [OF generateProbe_balance(1) [OF g] generateProbe_balance(2) [OF g] d' a])
  with a show ?thesis
    by simp
qed




end
